(* ===== verification/Ofb_Base.thy ===== *)
theory Ofb_Base
  imports
    Complex_Main
    "HOL-Library.Word"
    "HOL-Library.Monad_Syntax"
    "HOL-Library.Signed_Division"
begin

text \<open>
  The prelude of the development: the machine integer types of the LP64 platforms the
  benchmark is built on, the limits of \<^verbatim>\<open><limits.h>\<close> and \<^verbatim>\<open><stdint.h>\<close>, the predicate
  \<open>succeeds\<close> that turns a run of a C function into a total-correctness statement, and the
  lemma collections the other theories fill.

  A C function is a HOL function from the world before the call to an \<open>option\<close>: \<open>None\<close>
  is undefined behaviour (an access outside a block, a use after free, a double free, a read
  of an uninitialised byte), and \<open>Some (r, w)\<close> is the return value \<open>r\<close> with the world
  \<open>w\<close> after the call. The library's \<open>do\<close> notation for \<open>option\<close> sequences the calls.
\<close>

named_theorems succeeds_simps "unfolding of succeeds over the shape of a program"
named_theorems frame_simps "what an operation leaves unchanged"

type_synonym u8 = "8 word"
type_synonym u32 = "32 word"
type_synonym u64 = "64 word"
type_synonym bytes = "u8 list"

definition UINT64_MAX :: u64 where
  "UINT64_MAX = 18446744073709551615"

definition SIZE_MAX :: u64 where
  "SIZE_MAX = 18446744073709551615"

definition UINT_MAX :: u64 where
  "UINT_MAX = 4294967295"

definition INT_MAX :: u64 where
  "INT_MAX = 2147483647"

subsection \<open>Runs that end without undefined behaviour\<close>

definition succeeds :: "'a option \<Rightarrow> ('a \<Rightarrow> bool) \<Rightarrow> bool" where
  "succeeds m Q = (case m of None \<Rightarrow> False | Some x \<Rightarrow> Q x)"

lemma succeeds_Some [simp, succeeds_simps]: "succeeds (Some x) Q = Q x"
  by (simp add: succeeds_def)

lemma succeeds_None [simp, succeeds_simps]: "succeeds None Q = False"
  by (simp add: succeeds_def)

lemma succeeds_bind [simp, succeeds_simps]:
  "succeeds (m \<bind> f) Q = succeeds m (\<lambda>x. succeeds (f x) Q)"
  by (cases m) simp_all

lemma succeeds_if [succeeds_simps]:
  "succeeds (if b then m else n) Q = (if b then succeeds m Q else succeeds n Q)"
  by simp

lemma succeeds_mono: "succeeds m P \<Longrightarrow> (\<And>x. P x \<Longrightarrow> Q x) \<Longrightarrow> succeeds m Q"
  by (cases m) simp_all

lemma succeeds_conj:
  "succeeds m (\<lambda>x. P x \<and> Q x) = (succeeds m P \<and> succeeds m Q)"
  by (cases m) simp_all

lemma succeedsD: "succeeds m Q \<Longrightarrow> \<exists>x. m = Some x \<and> Q x"
  by (cases m) simp_all

lemma succeedsE:
  assumes "succeeds m Q"
  obtains x where "m = Some x" and "Q x"
  using assms by (cases m) simp_all

lemma succeedsI: "m = Some x \<Longrightarrow> Q x \<Longrightarrow> succeeds m Q"
  by simp

lemma succeeds_iff: "succeeds m Q = (\<exists>x. m = Some x \<and> Q x)"
  by (cases m) simp_all

lemma succeeds_bind_rule:
  "succeeds m P \<Longrightarrow> (\<And>x. P x \<Longrightarrow> succeeds (f x) Q) \<Longrightarrow> succeeds (m \<bind> f) Q"
  by (cases m) simp_all

text \<open>For running a program by rewriting: a continuation is only looked at when it is reached.\<close>

lemma bind_weak_cong: "m = m' \<Longrightarrow> m \<bind> f = m' \<bind> (f :: 'a \<Rightarrow> 'b option)"
  by simp

lemma succeeds_weak_cong: "m = m' \<Longrightarrow> succeeds m Q = succeeds m' Q"
  by simp

subsection \<open>Words read as natural numbers\<close>

lemma unat_UINT64_MAX [simp]: "unat UINT64_MAX = 2 ^ 64 - 1"
  by (simp add: UINT64_MAX_def)

lemma unat_SIZE_MAX [simp]: "unat SIZE_MAX = 2 ^ 64 - 1"
  by (simp add: SIZE_MAX_def)

lemma unat_UINT_MAX [simp]: "unat UINT_MAX = 2 ^ 32 - 1"
  by (simp add: UINT_MAX_def)

lemma unat_INT_MAX [simp]: "unat INT_MAX = 2 ^ 31 - 1"
  by (simp add: INT_MAX_def)

lemma unat_u64_less [simp]: "unat (x :: u64) < 18446744073709551616"
  using unsigned_less [of x, where ?'a = nat] by simp

lemma unat_u64_bound [simp]: "unat (x :: u64) \<le> 18446744073709551615"
  using unat_u64_less [of x] by linarith

lemma unat_mult_exact:
  "unat a * unat b < 2 ^ 64 \<Longrightarrow> unat (a * b :: u64) = unat a * unat b"
  by (simp add: unat_word_ariths)

lemma unat_add_exact:
  "unat a + unat b < 2 ^ 64 \<Longrightarrow> unat (a + b :: u64) = unat a + unat b"
  by (simp add: unat_word_ariths)

text \<open>The guard the code uses before a product: \<open>a > MAX / b\<close> is exactly overflow.\<close>

lemma mult_guard_iff:
  assumes "b \<noteq> (0 :: u64)"
  shows "\<not> a > UINT64_MAX div b \<longleftrightarrow> unat a * unat b < 2 ^ 64"
proof -
  have b: "unat b > 0" using assms by (simp add: unat_gt_0)
  have "\<not> a > UINT64_MAX div b \<longleftrightarrow> unat a \<le> (2 ^ 64 - 1) div unat b"
    by (simp add: word_less_nat_alt unat_div not_less)
  also have "\<dots> \<longleftrightarrow> unat a * unat b \<le> 2 ^ 64 - 1"
    using b by (simp add: less_eq_div_iff_mult_less_eq)
  finally show ?thesis by auto
qed

end
