(* ===== verification/Ofb_Memory.thy ===== *)
theory Ofb_Memory
  imports Ofb_Base
begin

text \<open>
  What the code uses of the C runtime: heap blocks with \<^verbatim>\<open>malloc\<close>, \<^verbatim>\<open>calloc\<close> and \<^verbatim>\<open>free\<close>, the
  two output streams, and the monotonic clock. One record holds the world of a program; its
  parameters are the program's own structures \<open>'s\<close>, the objects \<open>'o\<close> the crypto library
  hands out, and the private state \<open>'l\<close> of that library.

  Allocation number \<open>k\<close> fails exactly when \<open>w_oom k\<close> holds, and the \<open>k\<close>-th reading of
  the clock is \<open>w_clock k\<close>; both are arbitrary functions, so a theorem about every world is a
  theorem about every allocator and every clock. A byte of a block is \<open>None\<close> as long as it
  is uninitialised. An address is the number of the allocation that returned it, so an
  address is never handed out twice.
\<close>

datatype ptr = NULL | Addr nat

type_synonym cells = "u8 option list"

datatype ('s, 'o) block = Bytes cells | Struct 's | Obj 'o

record timespec =
  tv_sec :: int
  tv_nsec :: int

record ('s, 'o, 'l) world =
  w_heap :: "nat \<Rightarrow> ('s, 'o) block option"
  w_next :: nat
  w_oom :: "nat \<Rightarrow> bool"
  w_clock :: "nat \<Rightarrow> timespec option"
  w_reads :: nat
  w_out :: string
  w_err :: string
  w_lib :: 'l

text \<open>The world a program starts in.\<close>

definition start_world ::
  "(nat \<Rightarrow> bool) \<Rightarrow> (nat \<Rightarrow> timespec option) \<Rightarrow> 'l \<Rightarrow> ('s, 'o, 'l) world" where
  "start_world oom clock lib =
     \<lparr>w_heap = (\<lambda>_. None), w_next = 0, w_oom = oom, w_clock = clock, w_reads = 0, w_out = [],
      w_err = [], w_lib = lib\<rparr>"

subsection \<open>Output streams\<close>

definition print_out :: "string \<Rightarrow> ('s, 'o, 'l) world \<Rightarrow> ('s, 'o, 'l) world" where
  "print_out s w = w\<lparr>w_out := w_out w @ s\<rparr>"

definition print_err :: "string \<Rightarrow> ('s, 'o, 'l) world \<Rightarrow> ('s, 'o, 'l) world" where
  "print_err s w = w\<lparr>w_err := w_err w @ s\<rparr>"

subsection \<open>Allocation\<close>

definition place :: "('s, 'o) block \<Rightarrow> ('s, 'o, 'l) world \<Rightarrow> ptr \<times> ('s, 'o, 'l) world" where
  "place b w =
     (let a = w_next w
      in (Addr a, w\<lparr>w_next := Suc a, w_heap := (w_heap w)(a := Some b)\<rparr>))"

definition alloc :: "('s, 'o) block \<Rightarrow> ('s, 'o, 'l) world \<Rightarrow> ptr \<times> ('s, 'o, 'l) world" where
  "alloc b w =
     (if w_oom w (w_next w) then (NULL, w\<lparr>w_next := Suc (w_next w)\<rparr>) else place b w)"

definition malloc :: "u64 \<Rightarrow> ('s, 'o, 'l) world \<Rightarrow> ptr \<times> ('s, 'o, 'l) world" where
  "malloc n = alloc (Bytes (replicate (unat n) None))"

definition calloc :: "u64 \<Rightarrow> u64 \<Rightarrow> ('s, 'o, 'l) world \<Rightarrow> ptr \<times> ('s, 'o, 'l) world" where
  "calloc n m w =
     (if unat n * unat m < 2 ^ 64
      then alloc (Bytes (replicate (unat n * unat m) (Some 0))) w
      else (NULL, w))"

text \<open>An object the library allocates itself: \<open>None\<close> is its \<^verbatim>\<open>NULL\<close> return.\<close>

definition new_obj :: "'o option \<Rightarrow> ('s, 'o, 'l) world \<Rightarrow> ptr \<times> ('s, 'o, 'l) world" where
  "new_obj x w = (case x of None \<Rightarrow> (NULL, w) | Some v \<Rightarrow> place (Obj v) w)"

definition is_obj :: "('s, 'o) block option \<Rightarrow> bool" where
  "is_obj b = (case b of Some (Obj _) \<Rightarrow> True | _ \<Rightarrow> False)"

text \<open>
  \<^verbatim>\<open>free\<close> takes \<^verbatim>\<open>NULL\<close> or a live block of \<^verbatim>\<open>malloc\<close>; \<open>free_obj\<close> is the same for the
  library's own destructors.
\<close>

definition free :: "ptr \<Rightarrow> ('s, 'o, 'l) world \<Rightarrow> ('s, 'o, 'l) world option" where
  "free p w =
     (case p of
        NULL \<Rightarrow> Some w
      | Addr a \<Rightarrow>
          if w_heap w a = None \<or> is_obj (w_heap w a) then None
          else Some (w\<lparr>w_heap := (w_heap w)(a := None)\<rparr>))"

definition free_obj :: "ptr \<Rightarrow> ('s, 'o, 'l) world \<Rightarrow> ('s, 'o, 'l) world option" where
  "free_obj p w =
     (case p of
        NULL \<Rightarrow> Some w
      | Addr a \<Rightarrow>
          if is_obj (w_heap w a) then Some (w\<lparr>w_heap := (w_heap w)(a := None)\<rparr>) else None)"

subsection \<open>Reading and writing blocks\<close>

definition cells_write :: "int \<Rightarrow> bytes \<Rightarrow> cells \<Rightarrow> cells option" where
  "cells_write off bs cs =
     (if 0 \<le> off \<and> nat off + length bs \<le> length cs
      then Some (take (nat off) cs @ map Some bs @ drop (nat off + length bs) cs)
      else None)"

definition cells_read :: "nat \<Rightarrow> nat \<Rightarrow> cells \<Rightarrow> bytes option" where
  "cells_read off n cs =
     (let xs = take n (drop off cs)
      in if off + n \<le> length cs \<and> list_all (\<lambda>x. x \<noteq> None) xs then Some (map the xs) else None)"

definition lookup :: "ptr \<Rightarrow> ('s, 'o, 'l) world \<Rightarrow> ('s, 'o) block option" where
  "lookup p w = (case p of NULL \<Rightarrow> None | Addr a \<Rightarrow> w_heap w a)"

definition replace :: "ptr \<Rightarrow> ('s, 'o) block \<Rightarrow> ('s, 'o, 'l) world \<Rightarrow> ('s, 'o, 'l) world" where
  "replace p b w =
     (case p of NULL \<Rightarrow> w | Addr a \<Rightarrow> w\<lparr>w_heap := (w_heap w)(a := Some b)\<rparr>)"

definition block_at :: "ptr \<Rightarrow> ('s, 'o, 'l) world \<Rightarrow> cells option" where
  "block_at p w = (case lookup p w of Some (Bytes cs) \<Rightarrow> Some cs | _ \<Rightarrow> None)"

definition get_struct :: "ptr \<Rightarrow> ('s, 'o, 'l) world \<Rightarrow> 's option" where
  "get_struct p w = (case lookup p w of Some (Struct s) \<Rightarrow> Some s | _ \<Rightarrow> None)"

definition get_obj :: "ptr \<Rightarrow> ('s, 'o, 'l) world \<Rightarrow> 'o option" where
  "get_obj p w = (case lookup p w of Some (Obj x) \<Rightarrow> Some x | _ \<Rightarrow> None)"

definition load :: "ptr \<Rightarrow> nat \<Rightarrow> nat \<Rightarrow> ('s, 'o, 'l) world \<Rightarrow> bytes option" where
  "load p off n w = block_at p w \<bind> cells_read off n"

definition store ::
  "ptr \<Rightarrow> int \<Rightarrow> bytes \<Rightarrow> ('s, 'o, 'l) world \<Rightarrow> ('s, 'o, 'l) world option" where
  "store p off bs w = do {
     cs \<leftarrow> block_at p w;
     cs' \<leftarrow> cells_write off bs cs;
     Some (replace p (Bytes cs') w)
   }"

definition put_struct ::
  "ptr \<Rightarrow> 's \<Rightarrow> ('s, 'o, 'l) world \<Rightarrow> ('s, 'o, 'l) world option" where
  "put_struct p s w = do { _ \<leftarrow> get_struct p w; Some (replace p (Struct s) w) }"

definition put_obj ::
  "ptr \<Rightarrow> 'o \<Rightarrow> ('s, 'o, 'l) world \<Rightarrow> ('s, 'o, 'l) world option" where
  "put_obj p x w = do { _ \<leftarrow> get_obj p w; Some (replace p (Obj x) w) }"

subsection \<open>Facts about cells\<close>

definition initialised :: "nat \<Rightarrow> cells \<Rightarrow> bool" where
  "initialised n cs \<longleftrightarrow> n \<le> length cs \<and> (\<forall>i < n. cs ! i \<noteq> None)"

lemma cells_write_length: "cells_write off bs cs = Some cs' \<Longrightarrow> length cs' = length cs"
  by (auto simp: cells_write_def split: if_splits)

lemma cells_write_start [simp]:
  "length bs \<le> length cs \<Longrightarrow>
   cells_write 0 bs cs = Some (map Some bs @ drop (length bs) cs)"
  by (simp add: cells_write_def)

lemma cells_write_none [simp]:
  "0 \<le> off \<Longrightarrow> nat off \<le> length cs \<Longrightarrow> cells_write off [] cs = Some cs"
  by (simp add: cells_write_def)

lemma cells_read_some:
  assumes "off + n \<le> length cs" and "\<forall>i < n. cs ! (off + i) \<noteq> None"
  shows "cells_read off n cs = Some (map (\<lambda>i. the (cs ! (off + i))) [0..<n])"
proof -
  have eq: "take n (drop off cs) = map (\<lambda>i. cs ! (off + i)) [0..<n]"
    using assms(1) by (auto intro: nth_equalityI)
  have "list_all (\<lambda>x. x \<noteq> None) (take n (drop off cs))"
    unfolding eq using assms(2) by (simp add: list_all_iff)
  then show ?thesis using assms(1) by (simp add: cells_read_def eq comp_def)
qed

lemma cells_read_initialised:
  assumes "initialised m cs" and "off + n \<le> m"
  shows "\<exists>bs. cells_read off n cs = Some bs \<and> length bs = n"
  using assms by (auto simp: initialised_def cells_read_some)

lemma cells_read_length: "cells_read off n cs = Some bs \<Longrightarrow> length bs = n"
  by (auto simp: cells_read_def Let_def split: if_splits)

lemma cells_read_map_Some [simp]:
  "length bs = n \<Longrightarrow> cells_read 0 n (map Some bs @ cs) = Some bs"
  by (simp add: cells_read_def list_all_iff comp_def)

lemma initialised_map_Some [simp]: "n \<le> length bs \<Longrightarrow> initialised n (map Some bs @ cs)"
  by (simp add: initialised_def nth_append)

lemma initialised_0 [simp]: "initialised 0 cs"
  by (simp add: initialised_def)

lemma initialised_replicate [simp]: "n \<le> m \<Longrightarrow> initialised n (replicate m (Some x))"
  by (simp add: initialised_def)

lemma cells_write_initialised:
  "cells_write off bs cs = Some cs' \<Longrightarrow> initialised n cs \<Longrightarrow> initialised n cs'"
  by (auto simp: cells_write_def initialised_def nth_append nth_map split: if_splits)

end
