(* ===== verification/Ofb_Frame.thy ===== *)
theory Ofb_Frame
  imports Ofb_Memory
begin

text \<open>
  Ownership of heap blocks. \<open>owned w0 ps w\<close> says that the world \<open>w\<close> has exactly the
  blocks of \<open>w0\<close>, unchanged, plus one live block for each pointer of the list \<open>ps\<close> that
  is not \<open>NULL\<close>, no block twice. It is the invariant that shows there is no leak, no double
  free and no use after free: an allocation adds a pointer to the list, a release removes one,
  and with the empty list the heap is that of \<open>w0\<close> again.
\<close>

definition fresh :: "('s, 'o, 'l) world \<Rightarrow> bool" where
  "fresh w \<longleftrightarrow> (\<forall>a \<ge> w_next w. w_heap w a = None)"

definition owned :: "('s, 'o, 'l) world \<Rightarrow> ptr list \<Rightarrow> ('s, 'o, 'l) world \<Rightarrow> bool" where
  "owned w0 ps w \<longleftrightarrow>
     fresh w \<and> w_next w0 \<le> w_next w \<and>
     (\<forall>a < w_next w0. w_heap w a = w_heap w0 a) \<and>
     (\<forall>a \<ge> w_next w0. w_heap w a \<noteq> None \<longleftrightarrow> Addr a \<in> set ps) \<and>
     (\<forall>a. Addr a \<in> set ps \<longrightarrow> w_next w0 \<le> a) \<and>
     distinct (filter (\<lambda>p. p \<noteq> NULL) ps)"

text \<open>What the operations of the backends never touch: the streams, the clock, the allocator.\<close>

definition io :: "('s, 'o, 'l) world \<Rightarrow>
    (nat \<Rightarrow> bool) \<times> (nat \<Rightarrow> timespec option) \<times> nat \<times> string \<times> string" where
  "io w = (w_oom w, w_clock w, w_reads w, w_out w, w_err w)"

lemma io_simps [simp]:
  "io (w\<lparr>w_heap := h\<rparr>) = io w" "io (w\<lparr>w_next := n\<rparr>) = io w" "io (w\<lparr>w_lib := l\<rparr>) = io w"
  "io (replace p b w) = io w"
  by (simp_all add: io_def replace_def split: ptr.split)

lemma io_eqD:
  assumes "io w = io w'"
  shows "w_oom w = w_oom w'" "w_clock w = w_clock w'" "w_reads w = w_reads w'"
    "w_out w = w_out w'" "w_err w = w_err w'"
  using assms by (simp_all add: io_def)

lemma lookup_NULL [simp]: "lookup NULL w = None"
  by (simp add: lookup_def)

lemma lookup_updates [simp]:
  "lookup p (w\<lparr>w_lib := l\<rparr>) = lookup p w"
  "lookup p (w\<lparr>w_next := n\<rparr>) = lookup p w"
  "lookup p (w\<lparr>w_out := s\<rparr>) = lookup p w"
  "lookup p (w\<lparr>w_err := s\<rparr>) = lookup p w"
  "lookup p (w\<lparr>w_reads := k\<rparr>) = lookup p w"
  by (simp_all add: lookup_def split: ptr.split)

lemma lookup_replace [simp]:
  "lookup q (replace p b w) = (if q = p \<and> p \<noteq> NULL then Some b else lookup q w)"
  by (auto simp: lookup_def replace_def split: ptr.split)

lemma owned_updates [simp]:
  "owned w0 ps (w\<lparr>w_lib := l\<rparr>) = owned w0 ps w"
  "owned w0 ps (w\<lparr>w_out := s\<rparr>) = owned w0 ps w"
  "owned w0 ps (w\<lparr>w_err := s\<rparr>) = owned w0 ps w"
  "owned w0 ps (w\<lparr>w_reads := k\<rparr>) = owned w0 ps w"
  by (simp_all add: owned_def fresh_def)

lemma fresh_start [simp]: "fresh (start_world oom clock lib)"
  by (simp add: fresh_def start_world_def)

lemma owned_refl: "fresh w \<Longrightarrow> owned w [] w"
  by (simp add: owned_def fresh_def)

lemma owned_fresh: "owned w0 ps w \<Longrightarrow> fresh w"
  by (simp add: owned_def)

lemma owned_Nil_heap:
  assumes "owned w0 [] w" and "fresh w0"
  shows "w_heap w = w_heap w0"
proof
  fix a
  show "w_heap w a = w_heap w0 a"
    using assms by (cases "a < w_next w0") (auto simp: owned_def fresh_def)
qed

lemma owned_append_comm: "owned w0 (ps @ qs) w = owned w0 (qs @ ps) w"
  by (auto simp: owned_def)

lemma owned_rev: "owned w0 (rev ps) w = owned w0 ps w"
  by (simp add: owned_def rev_filter [symmetric])

text \<open>The same pointers in another order; used on lists of known length.\<close>

lemma owned_reorder:
  assumes "owned w0 ps w" and "set ps = set qs"
    and "distinct (filter (\<lambda>p. p \<noteq> NULL) ps) \<Longrightarrow> distinct (filter (\<lambda>p. p \<noteq> NULL) qs)"
  shows "owned w0 qs w"
  using assms by (simp add: owned_def)

lemma owned_live:
  "owned w0 ps w \<Longrightarrow> p \<in> set ps \<Longrightarrow> p \<noteq> NULL \<Longrightarrow> \<exists>b. lookup p w = Some b"
  by (cases p) (auto simp: owned_def lookup_def)

lemma owned_NULL [simp]: "owned w0 (NULL # ps) w = owned w0 ps w"
  by (auto simp: owned_def)

lemma owned_distinct:
  "owned w0 (p # ps) w \<Longrightarrow> p \<noteq> NULL \<Longrightarrow> p \<notin> set ps"
  by (auto simp: owned_def)

lemma owned_replace:
  assumes "owned w0 ps w" and "p \<in> set ps"
  shows "owned w0 ps (replace p b w)"
  using assms by (cases p) (auto simp: owned_def fresh_def replace_def)

lemma owned_place:
  assumes "owned w0 ps w" and "place b w = (p, w')"
  shows "owned w0 (p # ps) w'" and "p \<noteq> NULL" and "lookup p w' = Some b"
    and "\<forall>q. q \<noteq> p \<longrightarrow> lookup q w' = lookup q w" and "lookup p w = None" and "io w' = io w"
    and "w_lib w' = w_lib w"
proof -
  have w': "p = Addr (w_next w)"
    "w' = w\<lparr>w_next := Suc (w_next w), w_heap := (w_heap w)(w_next w := Some b)\<rparr>"
    using assms(2) by (auto simp: place_def Let_def)
  show "owned w0 (p # ps) w'"
    using assms(1) unfolding w' owned_def fresh_def by (auto simp: le_Suc_eq)
  show "p \<noteq> NULL" and "lookup p w' = Some b" and "io w' = io w" and "w_lib w' = w_lib w"
    by (simp_all add: w' lookup_def)
  show "\<forall>q. q \<noteq> p \<longrightarrow> lookup q w' = lookup q w" and "lookup p w = None"
    using assms(1) unfolding w' owned_def fresh_def by (auto simp: lookup_def split: ptr.split)
qed

lemma owned_alloc:
  assumes "owned w0 ps w" and "alloc b w = (p, w')"
  shows "owned w0 (p # ps) w'" and "p \<noteq> NULL \<Longrightarrow> lookup p w' = Some b"
    and "\<forall>q. q \<noteq> p \<longrightarrow> lookup q w' = lookup q w" and "lookup p w = None" and "io w' = io w"
    and "w_lib w' = w_lib w"
proof -
  have *: "owned w0 (p # ps) w' \<and> (p \<noteq> NULL \<longrightarrow> lookup p w' = Some b) \<and>
      (\<forall>q. q \<noteq> p \<longrightarrow> lookup q w' = lookup q w) \<and> lookup p w = None \<and> io w' = io w \<and>
      w_lib w' = w_lib w"
  proof (cases "w_oom w (w_next w)")
    case True
    then have "p = NULL" and "w' = w\<lparr>w_next := Suc (w_next w)\<rparr>"
      using assms(2) by (simp_all add: alloc_def)
    then show ?thesis using assms(1) by (auto simp: owned_def fresh_def)
  next
    case False
    then have "place b w = (p, w')" using assms(2) by (simp add: alloc_def)
    from owned_place [OF assms(1) this] show ?thesis by blast
  qed
  then show "owned w0 (p # ps) w'" and "p \<noteq> NULL \<Longrightarrow> lookup p w' = Some b"
    and "\<forall>q. q \<noteq> p \<longrightarrow> lookup q w' = lookup q w" and "lookup p w = None" and "io w' = io w"
    and "w_lib w' = w_lib w"
    by blast+
qed

lemma owned_new_obj:
  assumes "owned w0 ps w" and "new_obj x w = (p, w')"
  shows "owned w0 (p # ps) w'" and "p = NULL \<longleftrightarrow> x = None"
    and "p \<noteq> NULL \<Longrightarrow> \<exists>v. x = Some v \<and> lookup p w' = Some (Obj v)"
    and "\<forall>q. q \<noteq> p \<longrightarrow> lookup q w' = lookup q w" and "lookup p w = None" and "io w' = io w"
    and "w_lib w' = w_lib w"
proof -
  have *: "owned w0 (p # ps) w' \<and> (p = NULL \<longleftrightarrow> x = None) \<and>
      (p \<noteq> NULL \<longrightarrow> (\<exists>v. x = Some v \<and> lookup p w' = Some (Obj v))) \<and>
      (\<forall>q. q \<noteq> p \<longrightarrow> lookup q w' = lookup q w) \<and> lookup p w = None \<and> io w' = io w \<and>
      w_lib w' = w_lib w"
  proof (cases x)
    case None
    then show ?thesis using assms by (simp add: new_obj_def)
  next
    case (Some v)
    then have "place (Obj v) w = (p, w')" using assms(2) by (simp add: new_obj_def)
    from owned_place [OF assms(1) this] Some show ?thesis by blast
  qed
  then show "owned w0 (p # ps) w'" and "p = NULL \<longleftrightarrow> x = None"
    and "p \<noteq> NULL \<Longrightarrow> \<exists>v. x = Some v \<and> lookup p w' = Some (Obj v)"
    and "\<forall>q. q \<noteq> p \<longrightarrow> lookup q w' = lookup q w" and "lookup p w = None" and "io w' = io w"
    and "w_lib w' = w_lib w"
    by blast+
qed

text \<open>Releasing the first pointer of the list leaves the rest as it was.\<close>

lemma owned_release:
  assumes "owned w0 (p # ps) w" and "p = Addr a" and "w' = w\<lparr>w_heap := (w_heap w)(a := None)\<rparr>"
  shows "owned w0 ps w' \<and> (\<forall>q \<in> set ps. lookup q w' = lookup q w) \<and> io w' = io w \<and>
    w_lib w' = w_lib w"
proof -
  have a: "Addr a \<notin> set ps" using owned_distinct [OF assms(1)] assms(2) by simp
  have "owned w0 ps w'"
    using assms(1) a unfolding assms(2,3) owned_def fresh_def by auto
  moreover have "lookup q w' = lookup q w" if "q \<in> set ps" for q
    using that a by (auto simp: assms(3) lookup_def split: ptr.split)
  ultimately show ?thesis by (simp add: assms(3))
qed

lemma owned_free:
  assumes "owned w0 (p # ps) w" and "\<not> is_obj (lookup p w)"
  shows "succeeds (free p w)
    (\<lambda>w'. owned w0 ps w' \<and> (\<forall>q \<in> set ps. lookup q w' = lookup q w) \<and> io w' = io w \<and>
      w_lib w' = w_lib w)"
proof (cases p)
  case NULL
  then show ?thesis using assms(1) by (simp add: free_def)
next
  case (Addr a)
  then have "w_heap w a \<noteq> None \<and> \<not> is_obj (w_heap w a)"
    using assms owned_live [OF assms(1), of p] by (auto simp: lookup_def)
  then show ?thesis using owned_release [OF assms(1) Addr refl] Addr by (simp add: free_def)
qed

lemma owned_free_obj:
  assumes "owned w0 (p # ps) w" and "p \<noteq> NULL \<longrightarrow> is_obj (lookup p w)"
  shows "succeeds (free_obj p w)
    (\<lambda>w'. owned w0 ps w' \<and> (\<forall>q \<in> set ps. lookup q w' = lookup q w) \<and> io w' = io w \<and>
      w_lib w' = w_lib w)"
proof (cases p)
  case NULL
  then show ?thesis using assms(1) by (simp add: free_obj_def)
next
  case (Addr a)
  then have "is_obj (w_heap w a)" using assms(2) by (simp add: lookup_def)
  then show ?thesis using owned_release [OF assms(1) Addr refl] Addr by (simp add: free_obj_def)
qed

lemma is_obj_simps [simp]:
  "is_obj None = False" "is_obj (Some (Bytes cs)) = False" "is_obj (Some (Struct s)) = False"
  "is_obj (Some (Obj x)) = True"
  by (simp_all add: is_obj_def)

subsection \<open>Calls that only change the contents of some blocks\<close>

text \<open>
  \<open>touched S w w'\<close>: the blocks of \<open>S\<close> may have new contents of the same kind and size, with
  no byte becoming uninitialised; nothing else changed.
\<close>

fun same_kind :: "('s, 'o) block option \<Rightarrow> ('s, 'o) block option \<Rightarrow> bool" where
  "same_kind (Some (Bytes cs)) (Some (Bytes cs')) =
     (length cs' = length cs \<and> (\<forall>n. initialised n cs \<longrightarrow> initialised n cs'))"
| "same_kind (Some (Struct _)) (Some (Struct _)) = True"
| "same_kind (Some (Obj _)) (Some (Obj _)) = True"
| "same_kind None None = True"
| "same_kind _ _ = False"

lemma same_kind_refl [simp]: "same_kind b b"
proof (cases b)
  case (Some x)
  then show ?thesis by (cases x) simp_all
qed simp

lemma same_kind_trans: "same_kind a b \<Longrightarrow> same_kind b c \<Longrightarrow> same_kind a c"
  by (auto elim!: same_kind.elims)

lemma same_kind_Bytes:
  "same_kind (Some (Bytes cs)) b \<longleftrightarrow> (\<exists>cs'. b = Some (Bytes cs') \<and> length cs' = length cs \<and>
    (\<forall>n. initialised n cs \<longrightarrow> initialised n cs'))"
  by (auto elim!: same_kind.elims)

lemma same_kind_Struct: "same_kind (Some (Struct s)) b \<longleftrightarrow> (\<exists>s'. b = Some (Struct s'))"
  by (auto elim!: same_kind.elims)

lemma same_kind_Obj: "same_kind (Some (Obj x)) b \<longleftrightarrow> (\<exists>x'. b = Some (Obj x'))"
  by (auto elim!: same_kind.elims)

definition touched :: "ptr set \<Rightarrow> ('s, 'o, 'l) world \<Rightarrow> ('s, 'o, 'l) world \<Rightarrow> bool" where
  "touched S w w' \<longleftrightarrow>
     io w' = io w \<and> (fresh w \<longrightarrow> fresh w') \<and>
     (\<forall>q. q \<notin> S \<longrightarrow> lookup q w' = lookup q w) \<and>
     (\<forall>q. same_kind (lookup q w) (lookup q w')) \<and>
     (\<forall>w0 ps. S \<subseteq> set ps \<longrightarrow> owned w0 ps w \<longrightarrow> owned w0 ps w')"

lemma touched_refl [simp]: "touched S w w"
  by (simp add: touched_def)

lemma touched_trans: "touched S w w1 \<Longrightarrow> touched S w1 w2 \<Longrightarrow> touched S w w2"
  unfolding touched_def by (metis same_kind_trans)

lemma touched_mono: "touched S w w' \<Longrightarrow> S \<subseteq> T \<Longrightarrow> touched T w w'"
  unfolding touched_def by blast

lemma touched_io: "touched S w w' \<Longrightarrow> io w' = io w"
  by (simp add: touched_def)

lemma touched_fresh: "touched S w w' \<Longrightarrow> fresh w \<Longrightarrow> fresh w'"
  by (simp add: touched_def)

lemma touched_lookup: "touched S w w' \<Longrightarrow> q \<notin> S \<Longrightarrow> lookup q w' = lookup q w"
  by (simp add: touched_def)

lemma touched_kind: "touched S w w' \<Longrightarrow> same_kind (lookup q w) (lookup q w')"
  by (simp add: touched_def)

lemma touched_owned: "touched S w w' \<Longrightarrow> owned w0 ps w \<Longrightarrow> S \<subseteq> set ps \<Longrightarrow> owned w0 ps w'"
  by (simp add: touched_def)

lemma touched_Bytes:
  assumes "touched S w w'" and "lookup q w = Some (Bytes cs)"
  shows "\<exists>cs'. lookup q w' = Some (Bytes cs') \<and> length cs' = length cs \<and>
    (\<forall>n. initialised n cs \<longrightarrow> initialised n cs')"
  using touched_kind [OF assms(1), of q] assms(2) by (simp add: same_kind_Bytes)

lemma touched_Struct:
  assumes "touched S w w'" and "lookup q w = Some (Struct s)"
  shows "\<exists>s'. lookup q w' = Some (Struct s')"
  using touched_kind [OF assms(1), of q] assms(2) by (simp add: same_kind_Struct)

lemma touched_Obj:
  assumes "touched S w w'" and "lookup q w = Some (Obj x)"
  shows "\<exists>x'. lookup q w' = Some (Obj x')"
  using touched_kind [OF assms(1), of q] assms(2) by (simp add: same_kind_Obj)

lemma fresh_replace: "fresh w \<Longrightarrow> lookup p w \<noteq> None \<Longrightarrow> fresh (replace p b w)"
  by (auto simp: fresh_def replace_def lookup_def split: ptr.splits)

lemma touched_replace:
  assumes "lookup p w = Some b" and "same_kind (Some b) (Some b')"
  shows "touched {p} w (replace p b' w)"
  using assms by (auto simp: touched_def owned_replace fresh_replace)

lemma touched_lib: "touched S w w' \<Longrightarrow> touched S w (w'\<lparr>w_lib := l\<rparr>)"
  by (simp add: touched_def fresh_def)

lemma touched_lib_before: "touched S (w\<lparr>w_lib := l\<rparr>) w' \<Longrightarrow> touched S w w'"
  by (simp add: touched_def fresh_def)

subsection \<open>Accesses that stay inside a block\<close>

lemma block_at_lookup [simp]: "lookup p w = Some (Bytes cs) \<Longrightarrow> block_at p w = Some cs"
  by (simp add: block_at_def)

lemma get_struct_lookup: "get_struct p w = Some s \<longleftrightarrow> lookup p w = Some (Struct s)"
  by (auto simp: get_struct_def split: option.split block.split)

lemma get_obj_lookup: "get_obj p w = Some x \<longleftrightarrow> lookup p w = Some (Obj x)"
  by (auto simp: get_obj_def split: option.split block.split)

lemma load_ok:
  assumes "lookup p w = Some (Bytes cs)" and "initialised m cs" and "off + n \<le> m"
  shows "\<exists>bs. load p off n w = Some bs \<and> length bs = n"
  using cells_read_initialised [OF assms(2,3)] assms(1) by (simp add: load_def)

lemma store_ok:
  assumes "lookup p w = Some (Bytes cs)" and "0 \<le> off" and "nat off + length bs \<le> length cs"
  shows "\<exists>cs'. cells_write off bs cs = Some cs' \<and> store p off bs w = Some (replace p (Bytes cs') w) \<and>
    touched {p} w (replace p (Bytes cs') w)"
proof -
  obtain cs' where cs': "cells_write off bs cs = Some cs'"
    using assms(2,3) by (simp add: cells_write_def)
  have "same_kind (Some (Bytes cs)) (Some (Bytes cs'))"
    using cells_write_length [OF cs'] cells_write_initialised [OF cs'] by simp
  from touched_replace [OF assms(1) this] show ?thesis
    using assms(1) cs' by (simp add: store_def)
qed

lemma put_struct_ok:
  assumes "lookup p w = Some (Struct s)"
  shows "put_struct p s' w = Some (replace p (Struct s') w)"
    and "touched {p} w (replace p (Struct s') w)"
proof -
  show "put_struct p s' w = Some (replace p (Struct s') w)"
    using assms by (simp add: put_struct_def get_struct_def)
  show "touched {p} w (replace p (Struct s') w)"
    using assms by (rule touched_replace) simp
qed

subsection \<open>Calls into the library on one of its objects\<close>

definition on_obj ::
  "ptr \<Rightarrow> ('o \<Rightarrow> 'l \<Rightarrow> 'r \<times> 'o \<times> 'l) \<Rightarrow> ('s, 'o, 'l) world \<Rightarrow> ('r \<times> ('s, 'o, 'l) world) option" where
  "on_obj c f w = do {
     x \<leftarrow> get_obj c w;
     let (r, x', l) = f x (w_lib w);
     Some (r, (replace c (Obj x') w)\<lparr>w_lib := l\<rparr>)
   }"

lemma on_obj_ok:
  assumes "lookup c w = Some (Obj x)"
  shows "succeeds (on_obj c f w)
    (\<lambda>(r, w'). touched {c} w w' \<and> (\<exists>x' l. f x (w_lib w) = (r, x', l) \<and> w_lib w' = l \<and>
       lookup c w' = Some (Obj x')))"
proof -
  obtain r x' l where f: "f x (w_lib w) = (r, x', l)" by (cases "f x (w_lib w)")
  have "c \<noteq> NULL" using assms by auto
  moreover have "touched {c} w (replace c (Obj x') w)" using assms by (rule touched_replace) simp
  ultimately show ?thesis
    using assms f by (simp add: on_obj_def get_obj_def touched_lib)
qed

subsection \<open>Symbolic execution\<close>

text \<open>
  What a block must offer for the calls on it, and one rule for each kind of call: from a
  world that \<open>touched\<close> relates to a first world with these blocks, the call succeeds and the
  relation holds again after it.
\<close>

definition has_bytes :: "ptr \<Rightarrow> nat \<Rightarrow> ('s, 'o, 'l) world \<Rightarrow> bool" where
  "has_bytes p n w \<longleftrightarrow> (\<exists>cs. lookup p w = Some (Bytes cs) \<and> initialised n cs)"

definition has_room :: "ptr \<Rightarrow> nat \<Rightarrow> ('s, 'o, 'l) world \<Rightarrow> bool" where
  "has_room p n w \<longleftrightarrow> (\<exists>cs. lookup p w = Some (Bytes cs) \<and> n \<le> length cs)"

definition has_obj :: "ptr \<Rightarrow> ('s, 'o, 'l) world \<Rightarrow> bool" where
  "has_obj p w \<longleftrightarrow> (\<exists>x. lookup p w = Some (Obj x))"

lemma has_bytes_touched: "has_bytes p n w \<Longrightarrow> touched S w w' \<Longrightarrow> has_bytes p n w'"
  unfolding has_bytes_def by (blast dest: touched_Bytes)

lemma has_room_touched: "has_room p n w \<Longrightarrow> touched S w w' \<Longrightarrow> has_room p n w'"
  unfolding has_room_def by (metis touched_Bytes)

lemma has_obj_touched: "has_obj p w \<Longrightarrow> touched S w w' \<Longrightarrow> has_obj p w'"
  unfolding has_obj_def by (blast dest: touched_Obj)

lemmas has_touched = has_bytes_touched has_room_touched has_obj_touched

text \<open>A new block leaves the others as they were.\<close>

lemma has_kept:
  assumes "\<forall>q. q \<noteq> c \<longrightarrow> lookup q w' = lookup q w" and "lookup c w = None"
  shows "has_bytes p n w \<Longrightarrow> has_bytes p n w'" and "has_room p n w \<Longrightarrow> has_room p n w'"
    and "has_obj p w \<Longrightarrow> has_obj p w'" and "lookup p w = Some b \<Longrightarrow> lookup p w' = Some b"
  using assms by (cases "p = c"; auto simp: has_bytes_def has_room_def has_obj_def)+

lemma has_bytes_room: "has_bytes p n w \<Longrightarrow> has_room p n w"
  by (auto simp: has_bytes_def has_room_def initialised_def)

lemma has_not_NULL:
  "has_bytes p n w \<Longrightarrow> p \<noteq> NULL" "has_room p n w \<Longrightarrow> p \<noteq> NULL" "has_obj p w \<Longrightarrow> p \<noteq> NULL"
  by (auto simp: has_bytes_def has_room_def has_obj_def)

lemma step_obj:
  assumes "has_obj c w" and "touched S w w1" and "c \<in> S"
    and "\<And>r w2. touched S w w2 \<Longrightarrow> touched S w1 w2 \<Longrightarrow> \<exists>x l x' l'. f x l = (r, x', l') \<Longrightarrow>
      Q (r, w2)"
  shows "succeeds (on_obj c f w1) Q"
proof -
  obtain x where "lookup c w1 = Some (Obj x)"
    using has_obj_touched [OF assms(1,2)] by (auto simp: has_obj_def)
  from on_obj_ok [OF this, of f] obtain r w2 x' l where
    "on_obj c f w1 = Some (r, w2)" "touched {c} w1 w2" "f x (w_lib w1) = (r, x', l)"
    by (auto elim!: succeedsE)
  moreover from this(2) have "touched S w1 w2" by (rule touched_mono) (simp add: assms(3))
  ultimately show ?thesis
    using assms(4) [of w2 r] touched_trans [OF assms(2)] by auto
qed

lemma step_load:
  assumes "has_bytes p m w" and "touched S w w1" and "off + n \<le> m"
    and "\<And>bs. length bs = n \<Longrightarrow> load p off n w1 = Some bs \<Longrightarrow> Q bs"
  shows "succeeds (load p off n w1) Q"
proof -
  obtain cs where "lookup p w1 = Some (Bytes cs)" "initialised m cs"
    using has_bytes_touched [OF assms(1,2)] by (auto simp: has_bytes_def)
  from load_ok [OF this assms(3)] show ?thesis using assms(4) by auto
qed

lemma step_store:
  assumes "has_room p m w" and "touched S w w1" and "p \<in> S" and "0 \<le> off"
    and "nat off + length bs \<le> m"
    and "\<And>w2 cs. touched S w w2 \<Longrightarrow> touched S w1 w2 \<Longrightarrow> lookup p w1 = Some (Bytes cs) \<Longrightarrow>
      (\<And>cs'. cells_write off bs cs = Some cs' \<Longrightarrow> lookup p w2 = Some (Bytes cs')) \<Longrightarrow> Q w2"
  shows "succeeds (store p off bs w1) Q"
proof -
  obtain cs where cs: "lookup p w1 = Some (Bytes cs)" "m \<le> length cs"
    using has_room_touched [OF assms(1,2)] by (auto simp: has_room_def)
  have "nat off + length bs \<le> length cs" using assms(5) cs(2) by simp
  from store_ok [OF cs(1) assms(4) this] obtain cs' where
    "cells_write off bs cs = Some cs'" "store p off bs w1 = Some (replace p (Bytes cs') w1)"
    "touched {p} w1 (replace p (Bytes cs') w1)" by blast
  moreover from this(3) have "touched S w1 (replace p (Bytes cs') w1)"
    by (rule touched_mono) (simp add: assms(3))
  moreover have "p \<noteq> NULL" using cs(1) by auto
  ultimately show ?thesis
    using assms(6) [of "replace p (Bytes cs') w1" cs] touched_trans [OF assms(2)] cs(1) by auto
qed

text \<open>The code's shape for most calls: anything but 1 ends the sequence.\<close>

lemma bind_obj:
  assumes "has_obj c w" and "touched S w w1" and "c \<in> S"
    and "\<And>w2. touched S w w2 \<Longrightarrow> Q (fail w2)"
    and "\<And>w2. touched S w w2 \<Longrightarrow> touched S w1 w2 \<Longrightarrow> succeeds (g w2) Q"
  shows "succeeds (on_obj c f w1 \<bind> (\<lambda>(r, w). if r \<noteq> (1 :: int) then Some (fail w) else g w)) Q"
  unfolding succeeds_bind by (rule step_obj [OF assms(1-3)]) (simp add: assms(4,5))

lemma bind_obj3:
  assumes "has_obj c w" and "touched S w w1" and "c \<in> S"
    and "\<And>w2. touched S w w2 \<Longrightarrow> Q (fail w2)"
    and "\<And>w2. touched S w w2 \<Longrightarrow> touched S w1 w2 \<Longrightarrow> succeeds (g w2) Q"
  shows "succeeds (on_obj c f w1 \<bind>
    (\<lambda>((r, _, _), w). if r \<noteq> (1 :: int) then Some (fail w) else g w)) Q"
  unfolding succeeds_bind by (rule step_obj [OF assms(1-3)]) (auto simp: assms(4,5))

lemma bind_load:
  assumes "has_bytes p m w" and "touched S w w1" and "off + n \<le> m"
    and "\<And>bs. length bs = n \<Longrightarrow> load p off n w1 = Some bs \<Longrightarrow> succeeds (g bs) Q"
  shows "succeeds (load p off n w1 \<bind> g) Q"
  unfolding succeeds_bind by (rule step_load [OF assms(1-3)]) (rule assms(4))

text \<open>What the allocators return.\<close>

lemma room_not_obj: "p \<noteq> NULL \<longrightarrow> has_room p n w \<Longrightarrow> \<not> is_obj (lookup p w)"
  by (cases "p = NULL") (auto simp: has_room_def)

lemma bytes_not_obj: "p \<noteq> NULL \<longrightarrow> has_bytes p n w \<Longrightarrow> \<not> is_obj (lookup p w)"
  by (cases "p = NULL") (auto simp: has_bytes_def)

lemma has_bytes_not_struct: "has_bytes p n w \<Longrightarrow> lookup q w = Some (Struct s) \<Longrightarrow> p \<noteq> q"
  by (auto simp: has_bytes_def)

lemma has_room_not_struct: "has_room p n w \<Longrightarrow> lookup q w = Some (Struct s) \<Longrightarrow> p \<noteq> q"
  by (auto simp: has_room_def)

lemma has_bytes_load:
  assumes "has_bytes p m w" and "n \<le> m"
  shows "\<exists>bs. load p 0 n w = Some bs \<and> length bs = n"
  using assms by (auto simp: has_bytes_def intro: load_ok)

lemma unat_INT_MAX_le: "\<not> n > INT_MAX \<Longrightarrow> unat n < 2 ^ 31"
  by (simp add: INT_MAX_def word_less_nat_alt not_less)

lemma malloc_ok:
  assumes "owned w0 ps w" and "malloc n w = (p, w')"
  shows "owned w0 (p # ps) w'" and "p \<noteq> NULL \<Longrightarrow> has_room p (unat n) w'"
    and "\<forall>q. q \<noteq> p \<longrightarrow> lookup q w' = lookup q w" and "lookup p w = None" and "io w' = io w"
  using owned_alloc [OF assms(1) assms(2) [unfolded malloc_def]] by (auto simp: has_room_def)

lemma calloc_ok:
  assumes "owned w0 ps w" and "calloc n 1 w = (p, w')"
  shows "owned w0 (p # ps) w'" and "p \<noteq> NULL \<Longrightarrow> has_bytes p (unat n) w'"
    and "\<forall>q. q \<noteq> p \<longrightarrow> lookup q w' = lookup q w" and "lookup p w = None" and "io w' = io w"
proof -
  have "alloc (Bytes (replicate (unat n) (Some 0))) w = (p, w')"
    using assms(2) by (simp add: calloc_def)
  from owned_alloc [OF assms(1) this]
  show "owned w0 (p # ps) w'" and "p \<noteq> NULL \<Longrightarrow> has_bytes p (unat n) w'"
    and "\<forall>q. q \<noteq> p \<longrightarrow> lookup q w' = lookup q w" and "lookup p w = None" and "io w' = io w"
    by (auto simp: has_bytes_def)
qed

text \<open>The definitions that a run on a concrete world unfolds.\<close>

lemmas memory_defs = start_world_def alloc_def place_def new_obj_def get_obj_def free_def free_obj_def
  calloc_def malloc_def put_struct_def get_struct_def lookup_def replace_def store_def block_at_def
  cells_write_def on_obj_def load_def cells_read_def

end
