(* ===== verification/Timer.thy ===== *)
theory Timer
  imports Ofb_Frame
begin

text \<open>
  The clock of \<^verbatim>\<open>src/timer.c\<close>: the POSIX branch reads \<^verbatim>\<open>CLOCK_MONOTONIC\<close> and the Windows
  branch scales the performance counter. The lemmas show when the 64-bit arithmetic is exact.
\<close>

definition ofb_now_ns :: "('s, 'o, 'l) world \<Rightarrow> u64 \<times> ('s, 'o, 'l) world" where
  "ofb_now_ns w =
     (let k = w_reads w; w' = w\<lparr>w_reads := Suc k\<rparr>
      in case w_clock w k of
           None \<Rightarrow> (0, w')
         | Some now \<Rightarrow> (word_of_int (tv_sec now) * 1000000000 + word_of_int (tv_nsec now), w'))"

text \<open>
  The counter and the frequency are signed 64-bit numbers, so their quotient and remainder
  truncate towards zero; a frequency of zero is a division by zero.
\<close>

definition ofb_now_ns_windows :: "int \<Rightarrow> int \<Rightarrow> u64 option" where
  "ofb_now_ns_windows counter frequency =
     (if frequency = 0 then None
      else Some (word_of_int (counter sdiv frequency) * 1000000000 +
                 word_of_int (counter smod frequency) * 1000000000 div word_of_int frequency))"

subsection \<open>The clock advances and nothing else changes\<close>

lemma ofb_now_ns_world: "snd (ofb_now_ns w) = w\<lparr>w_reads := Suc (w_reads w)\<rparr>"
  by (simp add: ofb_now_ns_def Let_def split: option.split)

lemma ofb_now_ns_split:
  obtains t where "ofb_now_ns w = (t, w\<lparr>w_reads := Suc (w_reads w)\<rparr>)"
  using ofb_now_ns_world [of w] by (cases "ofb_now_ns w") simp

subsection \<open>Exactness\<close>

lemma uint_word_of_int_u64:
  "0 \<le> x \<Longrightarrow> x < 2 ^ 64 \<Longrightarrow> uint (word_of_int x :: u64) = x"
  by (simp add: uint_word_of_int take_bit_int_eq_self)

lemma int_unat_word_of_int_u64:
  "0 \<le> x \<Longrightarrow> x < 2 ^ 64 \<Longrightarrow> int (unat (word_of_int x :: u64)) = x"
  using uint_word_of_int_u64 [of x] by (simp only: uint_nat)



lemma sdiv_nonneg: "0 \<le> (a :: int) \<Longrightarrow> 0 < b \<Longrightarrow> a sdiv b = a div b"
  by (cases "a = 0") (simp_all add: signed_divide_int_def sgn_if)

lemma smod_nonneg: "0 \<le> (a :: int) \<Longrightarrow> 0 < b \<Longrightarrow> a smod b = a mod b"
  by (cases "a = 0") (simp_all add: signed_modulo_int_def sdiv_nonneg)

text \<open>C40: splitting the quotient and the remainder loses no nanosecond.\<close>

theorem ofb_now_ns_windows_exact:
  assumes "0 \<le> counter" and "0 < frequency" and "frequency \<le> 18446744073"
    and "counter * 1000000000 div frequency < 2 ^ 64"
  shows "\<exists>t. ofb_now_ns_windows counter frequency = Some t \<and>
    int (unat t) = counter * 1000000000 div frequency"
proof -
  define q where "q = counter div frequency"
  define r where "r = counter mod frequency"
  have r: "0 \<le> r" "r < frequency" and q: "0 \<le> q"
    using assms by (simp_all add: r_def q_def pos_imp_zdiv_nonneg_iff)
  have c: "counter = q * frequency + r" by (simp add: q_def r_def)
  have split: "counter * 1000000000 div frequency = q * 1000000000 + r * 1000000000 div frequency"
  proof -
    have "counter * 1000000000 = r * 1000000000 + (q * 1000000000) * frequency"
      by (simp add: c algebra_simps)
    then show ?thesis using assms(2) by (simp add: div_mult_self1)
  qed
  have r9: "r * 1000000000 < 2 ^ 64" using r assms(3) by simp
  have "r * 1000000000 div frequency \<le> r * 1000000000"
    using r(1) assms(2) int_div_le_self [of "r * 1000000000" frequency] by (cases "r = 0") simp_all
  then have d: "0 \<le> r * 1000000000 div frequency" "r * 1000000000 div frequency < 2 ^ 64"
    using r r9 assms(2) by (simp_all add: pos_imp_zdiv_nonneg_iff)
  have rem: "word_of_int r * 1000000000 div word_of_int frequency =
      (word_of_int (r * 1000000000 div frequency) :: u64)"
  proof (rule word_uint_eqI)
    have "uint (word_of_int (r * 1000000000) :: u64) = r * 1000000000"
      using r(1) r9 by (intro uint_word_of_int_u64) simp_all
    moreover have "uint (word_of_int frequency :: u64) = frequency"
      using assms(2,3) by (intro uint_word_of_int_u64) simp_all
    ultimately show "uint (word_of_int r * 1000000000 div word_of_int frequency :: u64) =
        uint (word_of_int (r * 1000000000 div frequency) :: u64)"
      using d by (simp add: uint_div uint_word_of_int_u64)
  qed
  have eq: "ofb_now_ns_windows counter frequency =
      Some (word_of_int (counter * 1000000000 div frequency))"
    using assms(1,2) rem
    by (simp add: ofb_now_ns_windows_def sdiv_nonneg smod_nonneg split q_def r_def)
  have nn: "0 \<le> counter * 1000000000 div frequency"
    using assms(1,2) by (simp add: pos_imp_zdiv_nonneg_iff)
  show ?thesis by (rule exI, rule conjI [OF eq int_unat_word_of_int_u64 [OF nn assms(4)]])
qed

text \<open>A counter of 10 MHz after 1.5 seconds.\<close>

theorem ofb_now_ns_windows_exact_witness:
  "\<exists>t. ofb_now_ns_windows 15000000 10000000 = Some t \<and> int (unat t) = 1500000000"
  using ofb_now_ns_windows_exact [of 15000000 10000000] by simp

end
