(* ===== verification/Bench.thy ===== *)
theory Bench
  imports Timer
begin

text \<open>
  The interface of \<^verbatim>\<open>include/ofb/bench.h\<close>: its enumeration and structures, and the backend
  functions that a build links in. The functions are a record of operations, because the
  runner and the command line are compiled against the header alone; the same shape serves
  \<^verbatim>\<open>include/ofb/tls_bench.h\<close>, whose parameters are another type \<open>'p\<close>.

  The locale \<open>bench_backend\<close> is the contract of that interface: creating a backend allocates,
  verifying and running keep what was allocated, destroying releases all of it, nothing of it
  has undefined behaviour, and none of it prints or reads the clock. \<open>holds w0 p w\<close> says that
  \<open>w\<close> is the world \<open>w0\<close> together with the backend \<open>p\<close>, and \<open>ready w0 p w\<close> that the backend
  has passed its verification, which the code always runs before the first batch. \<open>valid\<close> is
  what the callers guarantee of the parameters, and \<open>lib_ok\<close> the assumption on the crypto
  library under which the provider keeps the contract.
\<close>

datatype ofb_operation = OFB_SEAL | OFB_OPEN

text \<open>The order of the enumeration constants, as C numbers them.\<close>

instantiation ofb_operation :: linorder
begin

definition less_eq_ofb_operation :: "ofb_operation \<Rightarrow> ofb_operation \<Rightarrow> bool" where
  "x \<le> y \<longleftrightarrow> x = OFB_SEAL \<or> y = OFB_OPEN"

definition less_ofb_operation :: "ofb_operation \<Rightarrow> ofb_operation \<Rightarrow> bool" where
  "x < y \<longleftrightarrow> x = OFB_SEAL \<and> y = OFB_OPEN"

instance
proof
  fix x y z :: ofb_operation
  show "x < y \<longleftrightarrow> x \<le> y \<and> \<not> y \<le> x" "x \<le> x" "x \<le> y \<Longrightarrow> y \<le> z \<Longrightarrow> x \<le> z"
    "x \<le> y \<Longrightarrow> y \<le> x \<Longrightarrow> x = y" "x \<le> y \<or> y \<le> x"
    by (cases x; cases y; simp add: less_eq_ofb_operation_def less_ofb_operation_def)+
qed

end

record ofb_params =
  p_algorithm :: string
  p_operation :: ofb_operation
  p_message_size :: u64
  p_aad_size :: u64

record ofb_backend_info =
  i_name :: string
  i_version :: string
  i_algorithms :: "string list"

record ofb_sample =
  s_iterations :: u64
  s_elapsed_ns :: u64
  s_bytes :: u64

text \<open>
  \<open>op_create\<close> returns its result and the pointer stored in \<^verbatim>\<open>*backend\<close>, which the callers set
  to \<^verbatim>\<open>NULL\<close> before the call.
\<close>

record ('p, 'w) backend_ops =
  op_info :: ofb_backend_info
  op_create :: "'p \<Rightarrow> 'w \<Rightarrow> (int \<times> ptr \<times> 'w) option"
  op_verify :: "ptr \<Rightarrow> 'w \<Rightarrow> (int \<times> 'w) option"
  op_run_batch :: "ptr \<Rightarrow> u64 \<Rightarrow> 'w \<Rightarrow> (int \<times> 'w) option"
  op_destroy :: "ptr \<Rightarrow> 'w \<Rightarrow> 'w option"

locale bench_backend =
  fixes B :: "('p, ('s, 'o, 'l) world) backend_ops"
    and holds :: "('s, 'o, 'l) world \<Rightarrow> ptr \<Rightarrow> ('s, 'o, 'l) world \<Rightarrow> bool"
    and ready :: "('s, 'o, 'l) world \<Rightarrow> ptr \<Rightarrow> ('s, 'o, 'l) world \<Rightarrow> bool"
    and valid :: "'p \<Rightarrow> bool"
    and lib_ok :: bool
  assumes create:
      "lib_ok \<Longrightarrow> valid q \<Longrightarrow> fresh w \<Longrightarrow> succeeds (op_create B q w)
        (\<lambda>(r, p, w'). io w' = io w \<and>
          (if r = 0 then holds w p w' else p = NULL \<and> owned w [] w'))"
    and verify:
      "lib_ok \<Longrightarrow> holds w0 p w \<Longrightarrow> succeeds (op_verify B p w)
        (\<lambda>(r, w'). io w' = io w \<and> holds w0 p w' \<and> (r = 0 \<longrightarrow> ready w0 p w'))"
    and run_batch:
      "lib_ok \<Longrightarrow> ready w0 p w \<Longrightarrow> succeeds (op_run_batch B p n w)
        (\<lambda>(r, w'). io w' = io w \<and> ready w0 p w')"
    and ready_holds: "ready w0 p w \<Longrightarrow> holds w0 p w"
    and destroy:
      "lib_ok \<Longrightarrow> holds w0 p w \<Longrightarrow> succeeds (op_destroy B p w)
        (\<lambda>w'. io w' = io w \<and> owned w0 [] w')"
    and destroy_NULL: "op_destroy B NULL w = Some w"
    and ready_reads: "ready w0 p (w\<lparr>w_reads := k\<rparr>) = ready w0 p w"
    and ready_out: "ready w0 p (w\<lparr>w_out := s\<rparr>) = ready w0 p w"
    and holds_err: "holds w0 p (w\<lparr>w_err := s\<rparr>) = holds w0 p w"

end
