(* ===== verification/Long_Double.thy ===== *)
theory Long_Double
  imports Ofb_Base
begin

text \<open>
  The \<^verbatim>\<open>long double\<close> arithmetic of the calibration and of the reported rates. A finite
  non-negative value is the rational number it denotes; each C operation is the exact
  operation followed by \<open>ld_round p\<close>, the rounding to the nearest number with a
  significand of \<open>p = LDBL_MANT_DIG\<close> bits, ties to even. The precision is a parameter: it is 64
  for the x87 format, 113 for IEEE quad and 53 where \<^verbatim>\<open>long double\<close> is \<^verbatim>\<open>double\<close>. Every
  value of the program lies between \<open>2 ^ -100\<close> and \<open>2 ^ 200\<close>, far inside the exponent
  range of the three formats, so overflow and subnormal numbers do not occur.
\<close>

subsection \<open>Binary logarithms of natural numbers\<close>

fun nlog2 :: "nat \<Rightarrow> nat" where
  "nlog2 n = (if n < 2 then 0 else Suc (nlog2 (n div 2)))"

declare nlog2.simps [simp del]

lemma nlog2_bounds: "0 < n \<Longrightarrow> 2 ^ nlog2 n \<le> n \<and> n < 2 ^ Suc (nlog2 n)"
proof (induction n rule: nlog2.induct)
  case (1 n)
  show ?case
  proof (cases "n < 2")
    case True
    with "1.prems" have "n = 1" by simp
    then show ?thesis by (simp add: nlog2.simps)
  next
    case False
    then have "2 ^ nlog2 (n div 2) \<le> n div 2 \<and> n div 2 < 2 ^ Suc (nlog2 (n div 2))"
      by (intro "1.IH") auto
    with False show ?thesis by (auto simp: nlog2.simps [of n])
  qed
qed

text \<open>The exponent of a positive rational: \<open>2 ^ e \<le> q < 2 ^ (e + 1)\<close>.\<close>

definition ilog2 :: "rat \<Rightarrow> int" where
  "ilog2 q =
     (if 1 \<le> q then int (nlog2 (nat \<lfloor>q\<rfloor>))
      else - int (Suc (nlog2 (nat \<lceil>1 / q\<rceil> - 1))))"

lemma pow2_le_rat: "2 ^ k \<le> n \<Longrightarrow> (2 :: rat) ^ k \<le> of_nat n"
  using of_nat_mono [of "2 ^ k" n, where ?'a = rat] by simp

lemma rat_le_pow2: "n \<le> 2 ^ k \<Longrightarrow> of_nat n \<le> (2 :: rat) ^ k"
  using of_nat_mono [of n "2 ^ k", where ?'a = rat] by simp

lemma ilog2_ge1:
  assumes "1 \<le> q"
  shows "2 powi ilog2 q \<le> q \<and> q < 2 powi (ilog2 q + 1)"
proof -
  define n where "n = nat \<lfloor>q\<rfloor>"
  have fl: "1 \<le> \<lfloor>q\<rfloor>" using assms by simp
  then have eq: "of_nat n = (of_int \<lfloor>q\<rfloor> :: rat)" by (simp add: n_def)
  have n: "0 < n" "of_nat n \<le> q" "q < of_nat n + 1"
    using fl floor_correct [of q] unfolding eq by (simp_all add: n_def)
  have b: "2 ^ nlog2 n \<le> n" "n + 1 \<le> 2 ^ Suc (nlog2 n)"
    using nlog2_bounds [OF n(1)] by simp_all
  have "(2 :: rat) ^ nlog2 n \<le> of_nat n"
    using b(1) by (rule pow2_le_rat)
  moreover have "of_nat n + 1 \<le> (2 :: rat) ^ Suc (nlog2 n)"
    using rat_le_pow2 [OF b(2)] by simp
  ultimately have "2 ^ nlog2 n \<le> q" and "q < 2 ^ Suc (nlog2 n)"
    using n by linarith+
  then show ?thesis
    using assms by (simp add: ilog2_def n_def [symmetric] power_int_add)
qed

lemma ilog2_lt1:
  assumes "0 < q" and "q < 1"
  shows "2 powi ilog2 q \<le> q \<and> q < 2 powi (ilog2 q + 1)"
proof -
  define m where "m = nat \<lceil>1 / q\<rceil>"
  have inv: "1 < 1 / q" using assms by simp
  then have cl: "2 \<le> \<lceil>1 / q\<rceil>" by linarith
  then have eq: "of_nat m = (of_int \<lceil>1 / q\<rceil> :: rat)" by (simp add: m_def)
  have m: "2 \<le> m" using cl by (simp only: m_def nat_le_eq_zle)
  have m': "1 / q \<le> of_nat m" "of_nat m - 1 < 1 / q"
    using ceiling_correct [of "1 / q"] unfolding eq by simp_all
  note m = m m'
  define k where "k = nlog2 (m - 1)"
  have "0 < m - 1" using m(1) by simp
  from nlog2_bounds [OF this] have b: "2 ^ k \<le> m - 1" "m - 1 < 2 ^ Suc k"
    unfolding k_def by blast+
  from b(2) m(1) have b': "m \<le> 2 ^ Suc k" by linarith
  have "(2 :: rat) ^ k \<le> of_nat (m - 1)"
    using b(1) by (rule pow2_le_rat)
  then have lo: "(2 :: rat) ^ k < 1 / q" using m by simp
  have "of_nat m \<le> (2 :: rat) ^ Suc k"
    using b' by (rule rat_le_pow2)
  then have hi: "1 / q \<le> (2 :: rat) ^ Suc k" using m by linarith
  have e: "ilog2 q = - int (Suc k)"
    using assms by (simp add: ilog2_def k_def m_def)
  have "1 / (2 :: rat) ^ Suc k \<le> q"
    using hi assms by (simp add: field_simps)
  moreover have "q < 1 / (2 :: rat) ^ k"
    using lo assms by (simp add: field_simps)
  moreover have "(2 :: rat) powi (- int (Suc k)) = 1 / 2 ^ Suc k"
    by (simp only: power_int_minus power_int_of_nat inverse_eq_divide)
  moreover have "(2 :: rat) powi (- int (Suc k) + 1) = 1 / 2 ^ k"
    by (simp add: power_int_minus inverse_eq_divide)
  ultimately show ?thesis unfolding e by simp
qed

lemma ilog2_bounds: "0 < q \<Longrightarrow> 2 powi ilog2 q \<le> q \<and> q < 2 powi (ilog2 q + 1)"
  using ilog2_ge1 [of q] ilog2_lt1 [of q] by linarith

lemma two_powi_less_cancel:
  "(2 :: rat) powi a < 2 powi b \<Longrightarrow> a < b"
  by (rule ccontr) (auto simp: not_less dest: power_int_increasing [of b a "2 :: rat"])

lemma ilog2_unique:
  assumes "2 powi e \<le> q" and "q < 2 powi (e + 1)"
  shows "ilog2 q = e"
proof -
  have "0 < q" using assms(1) by (meson less_le_trans zero_less_numeral zero_less_power_int)
  from ilog2_bounds [OF this] assms have "(2 :: rat) powi e < 2 powi (ilog2 q + 1)"
    and "(2 :: rat) powi ilog2 q < 2 powi (e + 1)" by linarith+
  from this [THEN two_powi_less_cancel] show ?thesis by linarith
qed

lemma ilog2_mono: "0 < q \<Longrightarrow> q \<le> r \<Longrightarrow> ilog2 q \<le> ilog2 r"
proof -
  assume q: "0 < q" and r: "q \<le> r"
  have "(2 :: rat) powi ilog2 q < 2 powi (ilog2 r + 1)"
    using ilog2_bounds [OF q] ilog2_bounds [of r] q r by linarith
  from two_powi_less_cancel [OF this] show ?thesis by linarith
qed

subsection \<open>Rounding to an integer, ties to even\<close>

definition rne :: "rat \<Rightarrow> int" where
  "rne x =
     (let f = \<lfloor>x\<rfloor>; d = x - of_int f
      in if d < 1 / 2 then f else if 1 / 2 < d then f + 1 else if even f then f else f + 1)"

lemma rne_of_int [simp]: "rne (of_int k) = k"
  by (simp add: rne_def)

lemma rne_cases: "rne x = \<lfloor>x\<rfloor> \<or> rne x = \<lfloor>x\<rfloor> + 1"
  by (simp add: rne_def Let_def)

lemma rne_error: "\<bar>of_int (rne x) - x\<bar> \<le> 1 / 2"
proof -
  have "of_int \<lfloor>x\<rfloor> \<le> x" "x < of_int \<lfloor>x\<rfloor> + 1" by linarith+
  then show ?thesis by (auto simp: rne_def Let_def abs_le_iff)
qed

lemma rne_mono:
  assumes "x \<le> y"
  shows "rne x \<le> rne y"
proof (cases "\<lfloor>x\<rfloor> = \<lfloor>y\<rfloor>")
  case True
  then show ?thesis using assms by (auto simp: rne_def Let_def)
next
  case False
  then have "\<lfloor>x\<rfloor> + 1 \<le> \<lfloor>y\<rfloor>" using floor_mono [OF assms] by linarith
  then show ?thesis using rne_cases [of x] rne_cases [of y] by linarith
qed

lemma rne_ge_int: "of_int k \<le> x \<Longrightarrow> k \<le> rne x"
  using rne_mono [of "of_int k" x] by simp

lemma rne_le_int: "x \<le> of_int k \<Longrightarrow> rne x \<le> k"
  using rne_mono [of x "of_int k"] by simp

subsection \<open>Rounding to the precision of the format\<close>

definition ld_round :: "nat \<Rightarrow> rat \<Rightarrow> rat" where
  "ld_round p q =
     (if q \<le> 0 then 0
      else let u = 2 powi (ilog2 q + 1 - int p) in of_int (rne (q / u)) * u)"

lemma ld_round_0 [simp]: "ld_round p 0 = 0"
  by (simp add: ld_round_def)

lemma ld_round_lower:
  assumes "0 < p" and "2 powi e \<le> q"
  shows "2 powi e \<le> ld_round p q"
proof -
  have pos: "0 < q" using assms(2) by (meson less_le_trans zero_less_numeral zero_less_power_int)
  define u where "u = (2 :: rat) powi (ilog2 q + 1 - int p)"
  have u: "0 < u" by (simp add: u_def)
  have "(2 :: rat) powi e < 2 powi (ilog2 q + 1)"
    using assms(2) ilog2_bounds [OF pos] by linarith
  from two_powi_less_cancel [OF this] have le: "e \<le> ilog2 q" by linarith
  have eq: "(2 :: rat) powi ilog2 q = of_int (2 ^ (p - 1)) * u"
  proof -
    have "(2 :: rat) powi ilog2 q = 2 powi (int (p - 1) + (ilog2 q + 1 - int p))"
      using assms(1) by (simp add: of_nat_diff)
    also have "\<dots> = 2 powi int (p - 1) * u"
      unfolding u_def by (rule power_int_add) simp
    finally show ?thesis by simp
  qed
  have "of_int (2 ^ (p - 1)) \<le> q / u"
    using ilog2_bounds [OF pos] eq u by (simp add: pos_le_divide_eq)
  then have "2 ^ (p - 1) \<le> rne (q / u)" by (rule rne_ge_int)
  then have "of_int (2 ^ (p - 1)) * u \<le> of_int (rne (q / u)) * u"
    using u by (intro mult_right_mono) (simp_all only: of_int_le_iff less_imp_le)
  then have "(2 :: rat) powi ilog2 q \<le> ld_round p q"
    using pos by (simp add: ld_round_def u_def eq Let_def)
  moreover have "(2 :: rat) powi e \<le> 2 powi ilog2 q"
    using le by (rule power_int_increasing) simp
  ultimately show ?thesis by linarith
qed

lemma ld_round_upper:
  assumes "0 < p" and "0 < q" and "q \<le> 2 powi e"
  shows "ld_round p q \<le> 2 powi e"
proof (cases "q = 2 powi e")
  case True
  then have il: "ilog2 q = e" by (intro ilog2_unique) (simp_all add: power_int_add)
  define u where "u = (2 :: rat) powi (e + 1 - int p)"
  have u: "0 < u" by (simp add: u_def)
  have "(2 :: rat) powi e = 2 powi (int (p - 1) + (e + 1 - int p))"
    using assms(1) by (simp add: of_nat_diff)
  also have "\<dots> = 2 powi int (p - 1) * u" unfolding u_def by (rule power_int_add) simp
  finally have eq: "q / u = of_int (2 ^ (p - 1))" using True u by simp
  then have "of_int (rne (q / u)) = q / u" by (simp only: rne_of_int)
  moreover have "ld_round p q = of_int (rne (q / u)) * u"
    using assms(2) by (simp add: ld_round_def il u_def Let_def)
  ultimately show ?thesis using u assms(3) by simp
next
  case False
  then have lt: "q < 2 powi e" using assms(3) by simp
  define u where "u = (2 :: rat) powi (ilog2 q + 1 - int p)"
  have u: "0 < u" by (simp add: u_def)
  have "(2 :: rat) powi ilog2 q < 2 powi e"
    using lt ilog2_bounds [OF assms(2)] by linarith
  from two_powi_less_cancel [OF this] have le: "ilog2 q + 1 \<le> e" by linarith
  have eq: "(2 :: rat) powi (ilog2 q + 1) = of_int (2 ^ p) * u"
  proof -
    have "(2 :: rat) powi (ilog2 q + 1) = 2 powi (int p + (ilog2 q + 1 - int p))" by simp
    also have "\<dots> = 2 powi int p * u" unfolding u_def by (rule power_int_add) simp
    finally show ?thesis by simp
  qed
  have "q / u \<le> of_int (2 ^ p)"
    using ilog2_bounds [OF assms(2)] eq u by (simp add: pos_divide_le_eq)
  then have "rne (q / u) \<le> 2 ^ p" by (rule rne_le_int)
  then have "of_int (rne (q / u)) * u \<le> of_int (2 ^ p) * u"
    using u by (intro mult_right_mono) (simp_all only: of_int_le_iff less_imp_le)
  then have "ld_round p q \<le> 2 powi (ilog2 q + 1)"
    using assms by (simp add: ld_round_def u_def eq Let_def)
  moreover have "(2 :: rat) powi (ilog2 q + 1) \<le> 2 powi e"
    using le by (rule power_int_increasing) simp
  ultimately show ?thesis by linarith
qed

lemma ld_round_mono:
  assumes "0 < p" and "q \<le> r"
  shows "ld_round p q \<le> ld_round p r"
proof (cases "q \<le> 0")
  case True
  then have "ld_round p q = 0" by (simp add: ld_round_def)
  moreover have "0 \<le> ld_round p r"
  proof (cases "r \<le> 0")
    case False
    then show ?thesis
      using ld_round_lower [OF assms(1), of "ilog2 r" r] ilog2_bounds [of r]
      by (meson not_less order_trans zero_le_numeral zero_le_power_int)
  qed (simp add: ld_round_def)
  ultimately show ?thesis by simp
next
  case False
  then have q: "0 < q" and r: "0 < r" using assms(2) by simp_all
  show ?thesis
  proof (cases "ilog2 q = ilog2 r")
    case True
    have "q / 2 powi (ilog2 r + 1 - int p) \<le> r / 2 powi (ilog2 r + 1 - int p)"
      using assms(2) by (intro divide_right_mono) simp_all
    from rne_mono [OF this] show ?thesis
      using q r by (simp add: ld_round_def True Let_def mult_right_mono)
  next
    case False
    then have le: "ilog2 q + 1 \<le> ilog2 r" using ilog2_mono [OF q assms(2)] by linarith
    have "ld_round p q \<le> 2 powi (ilog2 q + 1)"
      using ilog2_bounds [OF q] q assms(1) by (intro ld_round_upper) linarith+
    also have "\<dots> \<le> 2 powi ilog2 r" using le by (rule power_int_increasing) simp
    also have "\<dots> \<le> ld_round p r"
      using ilog2_bounds [OF r] assms(1) by (intro ld_round_lower) simp_all
    finally show ?thesis .
  qed
qed

lemma ld_round_nonneg: "0 < p \<Longrightarrow> 0 \<le> ld_round p q"
  using ld_round_mono [of p 0 "max q 0"] by (cases "q \<le> 0") (simp_all add: ld_round_def max_def)

text \<open>A number with at most \<open>p\<close> significant bits is represented exactly.\<close>

lemma ld_round_exact:
  assumes "q = of_int m * 2 powi k" and "0 \<le> m" and "m < 2 ^ p"
  shows "ld_round p q = q"
proof (cases "m = 0")
  case True
  then show ?thesis using assms by simp
next
  case False
  then have m: "0 < m" using assms(2) by simp
  then have q: "0 < q" by (simp add: assms(1))
  have mp: "of_int m < (2 :: rat) powi int p"
    using assms(3) by (metis of_int_less_iff of_int_numeral of_int_power power_int_of_nat)
  have "q < 2 powi (int p + k)"
    unfolding assms(1) using mp by (simp add: power_int_add)
  with ilog2_bounds [OF q] have "(2 :: rat) powi ilog2 q < 2 powi (int p + k)" by linarith
  then have "ilog2 q < int p + k" by (rule two_powi_less_cancel)
  then have "k = ilog2 q + 1 - int p + int (nat (k + int p - ilog2 q - 1))" by simp
  then obtain n where n: "k = ilog2 q + 1 - int p + int n" by blast
  define u where "u = (2 :: rat) powi (ilog2 q + 1 - int p)"
  have u: "0 < u" by (simp add: u_def)
  have "(2 :: rat) powi k = 2 ^ n * u"
    by (subst n) (simp add: power_int_add u_def)
  then have "q = of_int (m * 2 ^ n) * u" by (simp add: assms(1))
  then have "q / u = of_int (m * 2 ^ n)" using u by simp
  then have "of_int (rne (q / u)) = q / u" by (simp only: rne_of_int)
  moreover have "ld_round p q = of_int (rne (q / u)) * u"
    using q by (simp add: ld_round_def u_def Let_def)
  ultimately show ?thesis using u by simp
qed

lemma ld_round_nat_exact: "n < 2 ^ p \<Longrightarrow> ld_round p (of_nat n) = of_nat n"
  by (rule ld_round_exact [of _ "int n" 0]) simp_all

lemma ld_round_pow2: "0 < p \<Longrightarrow> ld_round p (2 ^ n) = 2 ^ n"
  by (rule ld_round_exact [of _ 1 "int n"]) (simp_all add: one_less_power)

lemma ld_round_idem:
  assumes "0 < p"
  shows "ld_round p (ld_round p q) = ld_round p q"
proof (cases "q \<le> 0")
  case True
  then show ?thesis by (simp add: ld_round_def)
next
  case False
  then have q: "0 < q" by simp
  define e where "e = ilog2 q + 1 - int p"
  define m where "m = rne (q / 2 powi e)"
  have r: "ld_round p q = of_int m * 2 powi e"
    using q by (simp add: ld_round_def m_def e_def Let_def)
  have "q / 2 powi e \<le> of_int (2 ^ p)"
  proof -
    have "q \<le> 2 powi (int p + e)" using ilog2_bounds [OF q] by (simp add: e_def)
    then show ?thesis by (simp add: pos_divide_le_eq power_int_add)
  qed
  then have m2: "m \<le> 2 ^ p" unfolding m_def by (rule rne_le_int)
  have m0: "0 \<le> m" unfolding m_def using q by (intro rne_ge_int) simp
  show ?thesis
  proof (cases "m = 2 ^ p")
    case True
    have "ld_round p q = of_int 1 * 2 powi (int p + e)"
      by (simp add: r True power_int_add)
    then show ?thesis by (rule ld_round_exact) (simp_all add: one_less_power assms)
  next
    case False
    with m2 have "m < 2 ^ p" by simp
    from ld_round_exact [OF r m0 this] show ?thesis .
  qed
qed

text \<open>Rounding commutes with scaling by a power of two.\<close>

lemma ld_round_scale:
  "ld_round p (2 ^ n * q) = 2 ^ n * ld_round p q"
proof (cases "q \<le> 0")
  case True
  then show ?thesis by (simp add: ld_round_def mult_le_0_iff)
next
  case False
  then have q: "0 < q" by simp
  have "ilog2 (2 ^ n * q) = ilog2 q + int n"
  proof (rule ilog2_unique)
    show "2 powi (ilog2 q + int n) \<le> 2 ^ n * q"
      using ilog2_bounds [OF q] by (simp add: power_int_add)
    show "2 ^ n * q < 2 powi (ilog2 q + int n + 1)"
      using ilog2_bounds [OF q] by (simp add: power_int_add mult.assoc)
  qed
  then have "2 powi (ilog2 (2 ^ n * q) + 1 - int p) = (2 :: rat) ^ n * 2 powi (ilog2 q + 1 - int p)"
    by (simp add: power_int_add power_int_diff)
  moreover have "\<not> 2 ^ n * q \<le> 0" using q by (simp add: not_le)
  ultimately show ?thesis using q by (simp add: ld_round_def Let_def)
qed

text \<open>The relative error of one rounding is at most half a unit in the last place.\<close>

lemma ld_round_error:
  assumes "0 < q" and "0 < p"
  shows "\<bar>ld_round p q - q\<bar> \<le> q / 2 ^ p"
proof -
  define u where "u = (2 :: rat) powi (ilog2 q + 1 - int p)"
  have u: "0 < u" by (simp add: u_def)
  have "\<bar>ld_round p q - q\<bar> = \<bar>of_int (rne (q / u)) - q / u\<bar> * u"
    using assms u by (simp add: ld_round_def u_def [symmetric] Let_def abs_mult_pos
        left_diff_distrib)
  also have "\<dots> \<le> 1 / 2 * u" using rne_error u by (intro mult_right_mono) simp_all
  also have "\<dots> = 2 powi ilog2 q / 2 ^ p"
    by (simp add: u_def power_int_add power_int_diff)
  also have "\<dots> \<le> q / 2 ^ p"
    using ilog2_bounds [OF assms(1)] by (intro divide_right_mono) simp_all
  finally show ?thesis .
qed

end
