(* ===== verification/Runner.thy ===== *)
theory Runner
  imports Bench Long_Double
begin

text \<open>
  \<^verbatim>\<open>src/runner.c\<close>: one timed sample and the calibration of the iteration count. A result of
  type \<open>ofb_sample option\<close> is the return code with the out parameter: \<open>None\<close> is \<open>-1\<close>, and
  \<open>Some\<close> is \<open>0\<close> with the structure written. The calibration loop is a partial function, so
  \<open>None\<close> of the outer option is a run that has undefined behaviour or does not return; the
  lemmas of the locale show that neither happens, the loop stopping after at most 58 rounds.
\<close>

definition ofb_run_sample ::
  "('p, ('s, 'o, 'l) world) backend_ops \<Rightarrow> ptr \<Rightarrow> u64 \<Rightarrow> u64 \<Rightarrow> ('s, 'o, 'l) world \<Rightarrow>
   (ofb_sample option \<times> ('s, 'o, 'l) world) option" where
  "ofb_run_sample B backend iterations message_size w = do {
     let (start, w) = ofb_now_ns w;
     if start = 0 then Some (None, w)
     else do {
       (r, w) \<leftarrow> op_run_batch B backend iterations w;
       if r \<noteq> 0 then Some (None, w)
       else do {
         let (stop, w) = ofb_now_ns w;
         if stop \<le> start \<or> (message_size \<noteq> 0 \<and> iterations > UINT64_MAX div message_size)
         then Some (None, w)
         else Some (Some \<lparr>s_iterations = iterations, s_elapsed_ns = stop - start,
                          s_bytes = iterations * message_size\<rparr>, w)
       }
     }
   }"

partial_function (option) calibrate_loop ::
  "('p, ('s, 'o, 'l) world) backend_ops \<Rightarrow> ptr \<Rightarrow> u64 \<Rightarrow> u64 \<Rightarrow> u64 \<Rightarrow> ('s, 'o, 'l) world \<Rightarrow>
   ((u64 \<times> ofb_sample) option \<times> ('s, 'o, 'l) world) option" where
  "calibrate_loop B backend message_size target_ns count w = do {
     (s, w) \<leftarrow> ofb_run_sample B backend count message_size w;
     case s of
       None \<Rightarrow> Some (None, w)
     | Some sample \<Rightarrow>
         if s_elapsed_ns sample \<ge> target_ns div 8 \<or> count > UINT64_MAX div 2
         then Some (Some (count, sample), w)
         else calibrate_loop B backend message_size target_ns (count * 2) w
   }"

text \<open>The scaling of the count to the target duration, in \<^verbatim>\<open>long double\<close> arithmetic.\<close>

definition ld_of :: "nat \<Rightarrow> u64 \<Rightarrow> rat" where
  "ld_of ldp x = ld_round ldp (of_nat (unat x))"

definition scaled :: "nat \<Rightarrow> u64 \<Rightarrow> u64 \<Rightarrow> u64 \<Rightarrow> rat" where
  "scaled ldp count target_ns elapsed_ns =
     ld_round ldp
       (ld_round ldp (ld_of ldp count * ld_of ldp target_ns) / ld_of ldp elapsed_ns)"

definition scale_count :: "nat \<Rightarrow> u64 \<Rightarrow> u64 \<Rightarrow> u64 \<Rightarrow> u64" where
  "scale_count ldp count target_ns elapsed_ns =
     (if elapsed_ns < target_ns \<and> elapsed_ns \<noteq> 0
      then let x = scaled ldp count target_ns elapsed_ns
           in if x < ld_of ldp UINT64_MAX then of_nat (nat \<lfloor>x\<rfloor>) else count
      else count)"

definition ofb_calibrate ::
  "nat \<Rightarrow> ('p, ('s, 'o, 'l) world) backend_ops \<Rightarrow> ptr \<Rightarrow> u64 \<Rightarrow> u64 \<Rightarrow> ('s, 'o, 'l) world \<Rightarrow>
   (u64 option \<times> ('s, 'o, 'l) world) option" where
  "ofb_calibrate ldp B backend message_size target_ns w = do {
     (r, w) \<leftarrow> calibrate_loop B backend message_size target_ns 64 w;
     case r of
       None \<Rightarrow> Some (None, w)
     | Some (count, sample) \<Rightarrow> do {
         let count = scale_count ldp count target_ns (s_elapsed_ns sample);
         let count = (if count = 0 then 1 else count);
         Some (Some count, w)
       }
   }"

subsection \<open>One sample\<close>

lemma run_sample_cases:
  assumes "ofb_run_sample B p n m w = Some (Some s, w')"
  shows "s_iterations s = n" and "0 < unat (s_elapsed_ns s)"
    and "unat (s_bytes s) = unat n * unat m"
proof -
  obtain t where t: "ofb_now_ns w = (t, w\<lparr>w_reads := Suc (w_reads w)\<rparr>)"
    by (rule ofb_now_ns_split)
  with assms obtain w1 where w1: "op_run_batch B p n (w\<lparr>w_reads := Suc (w_reads w)\<rparr>) = Some (0, w1)"
    by (auto simp: ofb_run_sample_def Let_def split: if_splits bind_splits)
  obtain u where u: "ofb_now_ns w1 = (u, w1\<lparr>w_reads := Suc (w_reads w1)\<rparr>)"
    by (rule ofb_now_ns_split)
  have *: "\<not> u \<le> t" "m = 0 \<or> \<not> n > UINT64_MAX div m"
    "s = \<lparr>s_iterations = n, s_elapsed_ns = u - t, s_bytes = n * m\<rparr>"
    using assms t w1 u by (auto simp: ofb_run_sample_def split: if_splits)
  show "s_iterations s = n" by (simp add: *(3))
  have "u - t \<noteq> 0" using *(1) by auto
  then show "0 < unat (s_elapsed_ns s)" by (simp add: *(3) unat_gt_0)
  have "unat n * unat m < 2 ^ 64"
    using *(2) mult_guard_iff [of m n] by (cases "m = 0") auto
  then show "unat (s_bytes s) = unat n * unat m" by (simp add: *(3) unat_mult_exact)
qed

subsection \<open>Scaling\<close>

text \<open>
  The count is a power of two, so only the two durations and their quotient are rounded.
\<close>

lemma ld_of_ge1: "0 < ldp \<Longrightarrow> x \<noteq> 0 \<Longrightarrow> 1 \<le> ld_of ldp x"
proof -
  assume "0 < ldp" and "x \<noteq> 0"
  then have "1 \<le> unat x" by (simp add: Suc_le_eq unat_gt_0)
  then have "(of_nat 1 :: rat) \<le> of_nat (unat x)" by (rule of_nat_mono)
  then show ?thesis
    using ld_round_lower [of ldp 0 "of_nat (unat x)"] \<open>0 < ldp\<close>
    by (simp add: ld_of_def del: of_nat_unat)
qed

lemma ld_of_mono: "0 < ldp \<Longrightarrow> x \<le> y \<Longrightarrow> ld_of ldp x \<le> ld_of ldp y"
  unfolding ld_of_def by (intro ld_round_mono of_nat_mono) (simp_all add: word_le_nat_alt)

lemma ld_of_pow2: "0 < ldp \<Longrightarrow> unat x = 2 ^ k \<Longrightarrow> ld_of ldp x = 2 ^ k"
  unfolding ld_of_def by (simp only: of_nat_power of_nat_numeral ld_round_pow2)


lemma ld_of_le_scaled:
  assumes "0 < ldp" and "unat x \<le> 2 ^ n * unat y"
  shows "ld_of ldp x \<le> 2 ^ n * ld_of ldp y"
proof -
  have "(of_nat (unat x) :: rat) \<le> of_nat (2 ^ n * unat y)"
    using assms(2) by (rule of_nat_mono)
  then have "ld_of ldp x \<le> ld_round ldp (2 ^ n * of_nat (unat y))"
    unfolding ld_of_def using assms(1)
    by (intro ld_round_mono) (simp_all only: of_nat_mult of_nat_power of_nat_numeral)
  then show ?thesis by (simp only: ld_round_scale ld_of_def)
qed

lemma scaled_pow2:
  assumes "0 < ldp" and "unat count = 2 ^ k"
  shows "scaled ldp count target elapsed =
    2 ^ k * ld_round ldp (ld_of ldp target / ld_of ldp elapsed)"
proof -
  let ?T = "ld_of ldp target" and ?E = "ld_of ldp elapsed"
  have "ld_of ldp count = 2 ^ k" using assms by (rule ld_of_pow2)
  moreover have "ld_round ldp (2 ^ k * ?T) = 2 ^ k * ?T"
    using assms(1) unfolding ld_of_def by (simp only: ld_round_scale ld_round_idem)
  ultimately have "scaled ldp count target elapsed = ld_round ldp (2 ^ k * (?T / ?E))"
    by (simp add: scaled_def)
  then show ?thesis by (simp only: ld_round_scale)
qed

lemma ld_round_pos: "0 < ldp \<Longrightarrow> 1 \<le> q \<Longrightarrow> 1 \<le> ld_round ldp q"
  using ld_round_lower [of ldp 0 q] by simp

lemma scaled_ge:
  assumes "0 < ldp" and "unat count = 2 ^ k" and "elapsed < target" and "elapsed \<noteq> 0"
  shows "2 ^ k \<le> scaled ldp count target elapsed"
proof -
  let ?T = "ld_of ldp target" and ?E = "ld_of ldp elapsed"
  have "1 \<le> ?E" using assms(1,4) by (rule ld_of_ge1)
  moreover have "?E \<le> ?T" using assms(1,3) by (intro ld_of_mono) simp_all
  ultimately have "1 \<le> ?T / ?E" by (simp add: pos_le_divide_eq)
  from ld_round_pos [OF assms(1) this] show ?thesis
    by (simp add: scaled_pow2 [OF assms(1,2)])
qed

lemma scaled_le:
  assumes "0 < ldp" and "unat count = 2 ^ k" and "elapsed \<noteq> 0" and "target div 8 \<le> elapsed"
  shows "scaled ldp count target elapsed \<le> 16 * 2 ^ k"
proof -
  let ?T = "ld_of ldp target" and ?E = "ld_of ldp elapsed"
  have e: "1 \<le> unat elapsed" using assms(3) by (simp add: Suc_le_eq unat_gt_0)
  have E: "1 \<le> ?E" using assms(1,3) by (rule ld_of_ge1)
  have "unat target div 8 \<le> unat elapsed"
    using assms(4) by (simp add: word_le_nat_alt unat_div)
  then have "unat target \<le> 2 ^ 4 * unat elapsed" using e by simp
  from ld_of_le_scaled [OF assms(1) this]
  have le: "?T / ?E \<le> 16" using E by (simp add: pos_divide_le_eq)
  have "ld_round ldp (?T / ?E) \<le> ld_round ldp (2 ^ 4)"
    using assms(1) le by (intro ld_round_mono) simp_all
  then have "ld_round ldp (?T / ?E) \<le> 16"
    using ld_round_pow2 [OF assms(1), of 4] by simp
  then show ?thesis by (simp add: scaled_pow2 [OF assms(1,2)])
qed

text \<open>The conversion back to \<^verbatim>\<open>uint64_t\<close> is guarded: the value always fits.\<close>

lemma scaled_fits:
  assumes "0 < ldp" and "x < ld_of ldp UINT64_MAX"
  shows "x < 2 ^ 64"
proof -
  have "ld_of ldp UINT64_MAX \<le> 2 powi 64"
    unfolding ld_of_def using assms(1) by (intro ld_round_upper) simp_all
  then show ?thesis using assms(2) by simp
qed

lemma unat_of_nat_floor:
  assumes "0 \<le> (x :: rat)" and "x < 2 ^ 64"
  shows "unat (of_nat (nat \<lfloor>x\<rfloor>) :: u64) = nat \<lfloor>x\<rfloor>"
proof -
  have "\<lfloor>x\<rfloor> < 2 ^ 64" using assms(2) by (simp add: floor_less_iff)
  then have "nat \<lfloor>x\<rfloor> < 2 ^ 64" using assms(1) by (simp add: nat_less_iff)
  then show ?thesis by (simp add: unat_of_nat take_bit_nat_eq_self)
qed

lemma scale_count_bounds:
  assumes "0 < ldp" and "unat count = 2 ^ k"
  shows "2 ^ k \<le> unat (scale_count ldp count target elapsed)"
    and "elapsed \<noteq> 0 \<Longrightarrow> target div 8 \<le> elapsed \<Longrightarrow>
      unat (scale_count ldp count target elapsed) \<le> 16 * 2 ^ k"
proof -
  let ?x = "scaled ldp count target elapsed"
  let ?conv = "elapsed < target \<and> elapsed \<noteq> 0 \<and> ?x < ld_of ldp UINT64_MAX"
  have conv: "unat (scale_count ldp count target elapsed) = nat \<lfloor>?x\<rfloor> \<and> 2 ^ k \<le> ?x" if ?conv
  proof -
    have ge: "2 ^ k \<le> ?x" using that assms by (intro scaled_ge) simp_all
    moreover have "(0 :: rat) \<le> 2 ^ k" by simp
    ultimately have "0 \<le> ?x" by linarith
    moreover have "?x < 2 ^ 64" using that by (intro scaled_fits [OF assms(1)]) blast
    ultimately have "unat (of_nat (nat \<lfloor>?x\<rfloor>) :: u64) = nat \<lfloor>?x\<rfloor>"
      by (rule unat_of_nat_floor)
    moreover have "scale_count ldp count target elapsed = of_nat (nat \<lfloor>?x\<rfloor>)"
      unfolding scale_count_def Let_def using that by (simp only: if_True simp_thms)
    ultimately show ?thesis using ge by simp
  qed
  have keep: "scale_count ldp count target elapsed = count" if "\<not> ?conv"
    using that by (auto simp: scale_count_def Let_def)
  show "2 ^ k \<le> unat (scale_count ldp count target elapsed)"
  proof (cases ?conv)
    case True
    then have "(of_int (2 ^ k) :: rat) \<le> ?x" using conv by simp
    then have "2 ^ k \<le> \<lfloor>?x\<rfloor>" by (simp only: le_floor_iff)
    then show ?thesis using conv True by (simp add: le_nat_iff)
  next
    case False
    then show ?thesis using keep assms(2) by simp
  qed
  assume "elapsed \<noteq> 0" and "target div 8 \<le> elapsed"
  then have "?x \<le> of_int (16 * 2 ^ k)" using scaled_le [OF assms] by simp
  then have "\<lfloor>?x\<rfloor> \<le> 16 * 2 ^ k" by (simp only: floor_le_iff)
  then show "unat (scale_count ldp count target elapsed) \<le> 16 * 2 ^ k"
    using conv keep assms(2) by (cases ?conv) (auto simp: nat_le_iff)
qed

subsection \<open>The calibration loop\<close>

lemma double_exact:
  assumes "\<not> count > UINT64_MAX div 2" and "unat count = 2 ^ k"
  shows "unat (count * 2) = 2 ^ Suc k" and "k < 63"
proof -
  have "unat count \<le> unat (UINT64_MAX div 2)"
    using assms(1) by (simp add: word_less_nat_alt not_less)
  then have le: "unat count \<le> 2 ^ 63 - 1" by (simp add: unat_div)
  then have "unat count * unat (2 :: u64) < 2 ^ 64" by simp
  then have "unat (count * 2) = unat count * unat (2 :: u64)" by (rule unat_mult_exact)
  then show "unat (count * 2) = 2 ^ Suc k" using assms(2) by simp
  have "(2 :: nat) ^ k < 2 ^ 63" using le assms(2) by simp
  then show "k < 63" by (rule power_less_imp_less_exp [rotated]) simp
qed

lemma not_big_count:
  assumes "unat count = 2 ^ k" and "k < 63"
  shows "\<not> count > UINT64_MAX div 2"
proof -
  have "(2 :: nat) ^ k \<le> 2 ^ 62" using assms(2) by (intro power_increasing) simp_all
  then have "unat count \<le> 2 ^ 62" by (simp only: assms(1))
  then show ?thesis by (simp add: word_less_nat_alt unat_div not_less)
qed

lemma calibrate_loop_result:
  assumes "unat count = 2 ^ k" and "k \<le> 63"
    and "calibrate_loop B p m target count w = Some (Some (c, s), w')"
  shows "\<exists>j \<ge> k. j \<le> 63 \<and> unat c = 2 ^ j \<and> (target div 8 \<le> s_elapsed_ns s \<or> j = 63) \<and>
    0 < unat (s_elapsed_ns s)"
  using assms
proof (induction "63 - k" arbitrary: k count w)
  case (0 k count w)
  then have k: "k = 63" by simp
  have big: "count > UINT64_MAX div 2"
    using 0(2) double_exact(2) [of count k] k by auto
  have "ofb_run_sample B p count m w = Some (Some s, w') \<and> c = count"
    using 0(4) big
    by (subst (asm) calibrate_loop.simps) (auto split: bind_splits option.splits)
  then show ?case using 0(2) k run_sample_cases(2) by (intro exI [of _ 63]) blast
next
  case (Suc n k count w)
  from Suc(5) obtain s1 w1 where run: "ofb_run_sample B p count m w = Some (Some s1, w1)"
    by (subst (asm) calibrate_loop.simps) (auto split: bind_splits option.splits)
  show ?case
  proof (cases "target div 8 \<le> s_elapsed_ns s1 \<or> count > UINT64_MAX div 2")
    case True
    with Suc(5) run have "c = count \<and> s = s1"
      by (subst (asm) calibrate_loop.simps) auto
    moreover have "target div 8 \<le> s_elapsed_ns s1 \<or> k = 63"
      using True Suc(4) not_big_count [OF Suc(3)] by (cases "k = 63") auto
    ultimately show ?thesis using Suc(3,4) run_sample_cases(2) [OF run] by blast
  next
    case False
    then have nb: "\<not> count > UINT64_MAX div 2" by simp
    from False run Suc(5)
    have "calibrate_loop B p m target (count * 2) w1 = Some (Some (c, s), w')"
      by (subst (asm) calibrate_loop.simps) auto
    moreover have "n = 63 - Suc k" and "Suc k \<le> 63" using Suc(2) by simp_all
    ultimately obtain j where "Suc k \<le> j" "j \<le> 63" "unat c = 2 ^ j"
      "target div 8 \<le> s_elapsed_ns s \<or> j = 63" "0 < unat (s_elapsed_ns s)"
      using Suc(1) [of "Suc k" "count * 2" w1] double_exact(1) [OF nb Suc(3)] by blast
    then show ?thesis by (intro exI [of _ j]) simp
  qed
qed

subsection \<open>Any backend that keeps the contract\<close>

definition streams :: "('s, 'o, 'l) world \<Rightarrow> string \<times> string" where
  "streams w = (w_out w, w_err w)"

lemma streams_reads [simp]: "streams (w\<lparr>w_reads := k\<rparr>) = streams w"
  by (simp add: streams_def)

lemma io_streams: "io w = io w' \<Longrightarrow> streams w = streams w'"
  by (simp add: io_def streams_def)

lemma io_reads: "io w = io w' \<Longrightarrow> w_reads w = w_reads w'"
  by (simp add: io_def)

context bench_backend
begin

lemma run_sample_ok:
  assumes "lib_ok" and "ready w0 p w"
  shows "succeeds (ofb_run_sample B p n m w)
    (\<lambda>(s, w'). ready w0 p w' \<and> streams w' = streams w \<and> w_reads w' \<le> w_reads w + 2)"
proof -
  obtain t where t: "ofb_now_ns w = (t, w\<lparr>w_reads := Suc (w_reads w)\<rparr>)"
    by (rule ofb_now_ns_split)
  have "ready w0 p (w\<lparr>w_reads := Suc (w_reads w)\<rparr>)" using assms(2) by (simp add: ready_reads)
  from run_batch [OF assms(1) this, of n] obtain r w1 where
    run: "op_run_batch B p n (w\<lparr>w_reads := Suc (w_reads w)\<rparr>) = Some (r, w1)"
    and w1: "io w1 = io (w\<lparr>w_reads := Suc (w_reads w)\<rparr>)" "ready w0 p w1"
    by (auto elim: succeedsE)
  have s1: "streams w1 = streams w" "w_reads w1 = Suc (w_reads w)"
    using io_streams [OF w1(1)] io_reads [OF w1(1)] by simp_all
  obtain u where u: "ofb_now_ns w1 = (u, w1\<lparr>w_reads := Suc (w_reads w1)\<rparr>)"
    by (rule ofb_now_ns_split)
  show ?thesis
    using assms(2) run t u w1(2) s1 by (simp add: ofb_run_sample_def ready_reads)
qed

lemma calibrate_loop_ok:
  assumes "lib_ok" and "unat count = 2 ^ k" and "k \<le> 63" and "ready w0 p w"
  shows "succeeds (calibrate_loop B p m target count w)
    (\<lambda>(r, w'). ready w0 p w' \<and> streams w' = streams w \<and>
      w_reads w' \<le> w_reads w + 2 * (64 - k))"
  using assms(2-4)
proof (induction "63 - k" arbitrary: k count w rule: less_induct)
  case less
  from run_sample_ok [OF assms(1) less(4), of count m] obtain s w1 where
    run: "ofb_run_sample B p count m w = Some (s, w1)"
    and w1: "ready w0 p w1" "streams w1 = streams w" "w_reads w1 \<le> w_reads w + 2"
    by (auto elim: succeedsE)
  show ?case
  proof (cases "\<exists>x. s = Some x \<and> \<not> (target div 8 \<le> s_elapsed_ns x \<or> count > UINT64_MAX div 2)")
    case False
    then show ?thesis
      using run w1 less(3) by (subst calibrate_loop.simps) (auto split: option.split)
  next
    case True
    then have "\<not> count > UINT64_MAX div 2" by blast
    note d = double_exact [OF this less(2)]
    have "63 - Suc k < 63 - k" using d(2) by simp
    from less(1) [OF this d(1) _ w1(1)] d(2)
    have "succeeds (calibrate_loop B p m target (count * 2) w1)
      (\<lambda>(r, w'). ready w0 p w' \<and> streams w' = streams w1 \<and>
        w_reads w' \<le> w_reads w1 + 2 * (64 - Suc k))" by simp
    then show ?thesis
      using True run w1 d(2)
      by (subst calibrate_loop.simps) (auto elim!: succeeds_mono)
  qed
qed

text \<open>The calibration returns, after at most 58 samples.\<close>

lemma calibrate_ok:
  assumes "lib_ok" and "ready w0 p w"
  shows "succeeds (ofb_calibrate ldp B p m target w)
    (\<lambda>(n, w'). ready w0 p w' \<and> streams w' = streams w \<and> w_reads w' \<le> w_reads w + 116)"
proof -
  have "unat (64 :: u64) = 2 ^ 6" and "6 \<le> (63 :: nat)" by simp_all
  from calibrate_loop_ok [OF assms(1) this assms(2), of m target] show ?thesis
    by (auto simp: ofb_calibrate_def Let_def split: option.split elim!: succeeds_mono)
qed

end

subsection \<open>What the calibration returns\<close>

text \<open>The count chosen from the last batch that the loop measured.\<close>

lemma scale_loop_result:
  assumes "0 < ldp" and "unat count = 2 ^ k" and "k \<le> 63"
    and "calibrate_loop B p m target count w = Some (Some (c, s), w')"
  shows "unat count \<le> unat c \<and> 0 < unat (s_elapsed_ns s) \<and>
    scale_count ldp c target (s_elapsed_ns s) \<noteq> 0 \<and>
    unat c \<le> unat (scale_count ldp c target (s_elapsed_ns s)) \<and>
    (unat (scale_count ldp c target (s_elapsed_ns s)) \<le> 16 * unat c \<or> unat c = 2 ^ 63)"
proof -
  from calibrate_loop_result [OF assms(2-4)] obtain j where
    j: "k \<le> j" "j \<le> 63" "unat c = 2 ^ j" "target div 8 \<le> s_elapsed_ns s \<or> j = 63"
      "0 < unat (s_elapsed_ns s)" by blast
  note b = scale_count_bounds [OF assms(1) j(3), where target = target and elapsed = "s_elapsed_ns s"]
  have e: "s_elapsed_ns s \<noteq> 0" using j(5) by (auto simp: unat_gt_0)
  have "(2 :: nat) ^ k \<le> 2 ^ j" using j(1) by (intro power_increasing) simp_all
  moreover have "scale_count ldp c target (s_elapsed_ns s) \<noteq> 0" using b(1) by auto
  moreover have "unat (scale_count ldp c target (s_elapsed_ns s)) \<le> 16 * unat c \<or> unat c = 2 ^ 63"
  proof (cases "j = 63")
    case False
    then have "target div 8 \<le> s_elapsed_ns s" using j(4) by simp
    from b(2) [OF e this] show ?thesis by (simp add: j(3))
  qed (simp add: j(3))
  ultimately show ?thesis using b(1) j(3,5) assms(2) by simp
qed

lemma calibrate_measured:
  assumes "0 < ldp" and "ofb_calibrate ldp B p m target w = Some (Some n, w')"
  shows "\<exists>c s. calibrate_loop B p m target 64 w = Some (Some (c, s), w') \<and>
    n = scale_count ldp c target (s_elapsed_ns s) \<and> 64 \<le> unat c \<and> 0 < unat (s_elapsed_ns s) \<and>
    unat c \<le> unat n \<and> (unat n \<le> 16 * unat c \<or> unat c = 2 ^ 63)"
proof -
  from assms(2) obtain c s where
    loop: "calibrate_loop B p m target 64 w = Some (Some (c, s), w')"
    and n: "n = (let k = scale_count ldp c target (s_elapsed_ns s) in if k = 0 then 1 else k)"
    by (auto simp: ofb_calibrate_def Let_def split: bind_splits option.splits if_splits)
  have "unat (64 :: u64) = 2 ^ 6" and "6 \<le> (63 :: nat)" by simp_all
  from scale_loop_result [OF assms(1) this loop] show ?thesis
    using loop n by (intro exI [of _ c] exI [of _ s]) (simp add: Let_def)
qed

lemma calibrate_result:
  assumes "0 < ldp" and "ofb_calibrate ldp B p m target w = Some (Some n, w')"
  shows "64 \<le> unat n"
  using calibrate_measured [OF assms] by fastforce

text \<open>For the examples: a backend that does nothing, under a clock that ticks once a second.\<close>

definition idle_ops :: "(unit, (unit, unit, unit) world) backend_ops" where
  "idle_ops =
     \<lparr>op_info = \<lparr>i_name = ''idle'', i_version = ''1'', i_algorithms = []\<rparr>,
      op_create = (\<lambda>q w. Some (0, NULL, w)), op_verify = (\<lambda>p w. Some (0, w)),
      op_run_batch = (\<lambda>p n w. Some (0, w)), op_destroy = (\<lambda>p w. Some w)\<rparr>"

definition idle_world :: "(unit, unit, unit) world" where
  "idle_world =
     start_world (\<lambda>_. False) (\<lambda>k. Some \<lparr>tv_sec = int k + 1, tv_nsec = 0\<rparr>) ()"

lemma idle_sample:
  "ofb_run_sample idle_ops NULL 64 16 idle_world =
    Some (Some \<lparr>s_iterations = 64, s_elapsed_ns = 1000000000, s_bytes = 1024\<rparr>,
      idle_world\<lparr>w_reads := 2\<rparr>)"
  by (simp add: ofb_run_sample_def ofb_now_ns_def idle_ops_def idle_world_def start_world_def
      UINT64_MAX_def)

lemma idle_calibrate:
  "ofb_calibrate 64 idle_ops NULL 16 1000000000 idle_world = Some (Some 64, idle_world\<lparr>w_reads := 2\<rparr>)"
  by (simp add: ofb_calibrate_def calibrate_loop.simps idle_sample scale_count_def)

text \<open>C9: a sample that is reported has a positive duration and its byte count is the exact
  product of the iterations and the message size: the guard excludes every wrap-around.\<close>

theorem run_sample_exact:
  assumes "ofb_run_sample B p n m w = Some (Some s, w')"
  shows "s_iterations s = n \<and> 0 < unat (s_elapsed_ns s) \<and> unat (s_bytes s) = unat n * unat m"
  using run_sample_cases [OF assms] by blast

theorem run_sample_exact_witness:
  "unat (1024 :: u64) = unat (64 :: u64) * unat (16 :: u64) \<and> 0 < unat (1000000000 :: u64)"
  using run_sample_exact [OF idle_sample] by simp

text \<open>C8: for every backend, clock and precision of \<^verbatim>\<open>long double\<close>, a successful calibration
  returns the last batch that the loop measured, scaled to the target: at least that batch,
  which has at least 64 iterations, and at most sixteen times it (or the loop has reached
  \<open>2 ^ 63\<close>). The division is by a positive duration, and the code's last test, for a count of
  zero, is never taken.\<close>

theorem calibrate_bounds:
  assumes "0 < ldp" and "ofb_calibrate ldp B p m target w = Some (Some n, w')"
  shows "\<exists>c s. calibrate_loop B p m target 64 w = Some (Some (c, s), w') \<and>
    n = scale_count ldp c target (s_elapsed_ns s) \<and> 64 \<le> unat c \<and> 0 < unat (s_elapsed_ns s) \<and>
    unat c \<le> unat n \<and> (unat n \<le> 16 * unat c \<or> unat c = 2 ^ 63)"
  using calibrate_measured [OF assms] .

theorem calibrate_bounds_witness:
  "\<exists>c s. calibrate_loop idle_ops NULL 16 1000000000 64 idle_world =
      Some (Some (c, s), idle_world\<lparr>w_reads := 2\<rparr>) \<and>
    64 = scale_count 64 c 1000000000 (s_elapsed_ns s) \<and> 64 \<le> unat c \<and> 0 < unat (s_elapsed_ns s) \<and>
    unat c \<le> unat (64 :: u64) \<and> (unat (64 :: u64) \<le> 16 * unat c \<or> unat c = 2 ^ 63)"
  by (rule calibrate_bounds [OF _ idle_calibrate]) simp



end
