(* ===== verification/Aead_Backend.thy ===== *)
theory Aead_Backend
  imports Runner
begin

unbundle bit_operations_syntax

text \<open>
  \<^verbatim>\<open>backends/openssl_aead.c\<close>: the AEAD backend behind the functions of \<^verbatim>\<open>bench.h\<close>. The EVP
  functions of the crypto library are not part of the repository; they are the record \<open>evp_lib\<close>
  that the definitions take as an argument. Each acts on the private state of a cipher context
  and of the library and returns what the call returns, what it stores in \<^verbatim>\<open>*outl\<close>, and the
  bytes it writes through its output pointer. \<open>evp_ok\<close> states the documented sizes of those
  writes for AEAD ciphers, which memory safety rests on.

  The sizes of a backend that was created are at most \<^verbatim>\<open>INT_MAX\<close>, so the casts to \<^verbatim>\<open>int\<close> in
  the calls are the identity and a size is passed as its value. \<^verbatim>\<open>params\<close> and \<^verbatim>\<open>backend\<close> are
  addresses of local variables in every call of the program, so the model has no \<^verbatim>\<open>NULL\<close> for
  them.
\<close>

subsection \<open>The library\<close>

record ('k, 'c, 'l) evp_lib =
  openssl_version :: string
  evp_aes_128_gcm :: "'k option"
  evp_aes_256_gcm :: "'k option"
  evp_chacha20_poly1305 :: "'k option"
  evp_ctx_new :: "'l \<Rightarrow> 'c option \<times> 'l"
  evp_ctx_free :: "'c \<Rightarrow> 'l \<Rightarrow> 'l"
  evp_enc_init :: "'k option \<Rightarrow> bytes option \<Rightarrow> bytes option \<Rightarrow> 'c \<Rightarrow> 'l \<Rightarrow> int \<times> 'c \<times> 'l"
  evp_dec_init :: "'k option \<Rightarrow> bytes option \<Rightarrow> bytes option \<Rightarrow> 'c \<Rightarrow> 'l \<Rightarrow> int \<times> 'c \<times> 'l"
  evp_set_ivlen :: "nat \<Rightarrow> 'c \<Rightarrow> 'l \<Rightarrow> int \<times> 'c \<times> 'l"
  evp_enc_update :: "bool \<Rightarrow> bytes \<Rightarrow> 'c \<Rightarrow> 'l \<Rightarrow> (int \<times> int \<times> bytes) \<times> 'c \<times> 'l"
  evp_dec_update :: "bool \<Rightarrow> bytes \<Rightarrow> 'c \<Rightarrow> 'l \<Rightarrow> (int \<times> int \<times> bytes) \<times> 'c \<times> 'l"
  evp_enc_final :: "'c \<Rightarrow> 'l \<Rightarrow> (int \<times> int \<times> bytes) \<times> 'c \<times> 'l"
  evp_dec_final :: "'c \<Rightarrow> 'l \<Rightarrow> (int \<times> int \<times> bytes) \<times> 'c \<times> 'l"
  evp_get_tag :: "nat \<Rightarrow> 'c \<Rightarrow> 'l \<Rightarrow> (int \<times> bytes) \<times> 'c \<times> 'l"
  evp_set_tag :: "bytes \<Rightarrow> 'c \<Rightarrow> 'l \<Rightarrow> int \<times> 'c \<times> 'l"
  crypto_memcmp :: "bytes \<Rightarrow> bytes \<Rightarrow> int"

text \<open>
  An update of a stream cipher writes one byte for each byte of input, its final call writes
  none, and the tag has the size asked for.
\<close>

definition update_ok :: "(bool \<Rightarrow> bytes \<Rightarrow> 'c \<Rightarrow> 'l \<Rightarrow> (int \<times> int \<times> bytes) \<times> 'c \<times> 'l) \<Rightarrow> bool" where
  "update_ok f \<longleftrightarrow> (\<forall>inp x l r outl bs x' l'. f True inp x l = ((r, outl, bs), x', l') \<longrightarrow>
     length bs \<le> length inp \<and> (r = 1 \<longrightarrow> outl = int (length bs) \<and> length bs = length inp))"

definition final_ok :: "('c \<Rightarrow> 'l \<Rightarrow> (int \<times> int \<times> bytes) \<times> 'c \<times> 'l) \<Rightarrow> bool" where
  "final_ok f \<longleftrightarrow> (\<forall>x l r outl bs x' l'. f x l = ((r, outl, bs), x', l') \<longrightarrow> bs = [])"

definition evp_ok :: "('k, 'c, 'l) evp_lib \<Rightarrow> bool" where
  "evp_ok L \<longleftrightarrow>
     update_ok (evp_enc_update L) \<and> update_ok (evp_dec_update L) \<and>
     final_ok (evp_enc_final L) \<and> final_ok (evp_dec_final L) \<and>
     (\<forall>n x l r bs x' l'. evp_get_tag L n x l = ((r, bs), x', l') \<longrightarrow>
        length bs \<le> n \<and> (r = 1 \<longrightarrow> length bs = n)) \<and>
     (\<forall>a b. length a = length b \<longrightarrow> (crypto_memcmp L a b = 0 \<longleftrightarrow> a = b))"

subsection \<open>State\<close>

definition OFB_TAG_SIZE :: nat where
  "OFB_TAG_SIZE = 16"

definition OFB_NONCE_SIZE :: nat where
  "OFB_NONCE_SIZE = 12"

record 'k ofb_backend =
  b_cipher :: "'k option"
  b_ctx :: ptr
  b_operation :: ofb_operation
  b_key :: bytes
  b_nonce :: bytes
  b_tag :: bytes
  b_aad :: ptr
  b_plaintext :: ptr
  b_ciphertext :: ptr
  b_output :: ptr
  b_aad_size :: u64
  b_message_size :: u64
  b_checksum :: u8

type_synonym ('k, 'c, 'l) aead_world = "('k ofb_backend, 'c, 'l) world"

text \<open>What \<^verbatim>\<open>calloc(1, sizeof *state)\<close> leaves in the structure.\<close>

definition zero_backend :: "'k ofb_backend" where
  "zero_backend = \<lparr>b_cipher = None, b_ctx = NULL, b_operation = OFB_SEAL,
     b_key = replicate 32 0, b_nonce = replicate OFB_NONCE_SIZE 0, b_tag = replicate OFB_TAG_SIZE 0,
     b_aad = NULL, b_plaintext = NULL, b_ciphertext = NULL, b_output = NULL,
     b_aad_size = 0, b_message_size = 0, b_checksum = 0\<rparr>"

definition algorithms :: "string list" where
  "algorithms = [''AES-128-GCM'', ''AES-256-GCM'', ''CHACHA20-POLY1305'']"

definition find_cipher :: "('k, 'c, 'l) evp_lib \<Rightarrow> string \<Rightarrow> 'k option" where
  "find_cipher L name =
     (if name = ''AES-128-GCM'' then evp_aes_128_gcm L
      else if name = ''AES-256-GCM'' then evp_aes_256_gcm L
      else if name = ''CHACHA20-POLY1305'' then evp_chacha20_poly1305 L
      else None)"

text \<open>The backend's name is a macro of the build, so it is an argument.\<close>

definition ofb_backend_info :: "string \<Rightarrow> ('k, 'c, 'l) evp_lib \<Rightarrow> ofb_backend_info" where
  "ofb_backend_info backend_name L =
     \<lparr>i_name = backend_name, i_version = openssl_version L, i_algorithms = algorithms\<rparr>"

subsection \<open>Calls on contexts\<close>

definition EVP_CIPHER_CTX_new ::
  "('k, 'c, 'l) evp_lib \<Rightarrow> ('k, 'c, 'l) aead_world \<Rightarrow> ptr \<times> ('k, 'c, 'l) aead_world" where
  "EVP_CIPHER_CTX_new L w =
     (let (x, l) = evp_ctx_new L (w_lib w) in new_obj x (w\<lparr>w_lib := l\<rparr>))"

definition EVP_CIPHER_CTX_free ::
  "('k, 'c, 'l) evp_lib \<Rightarrow> ptr \<Rightarrow> ('k, 'c, 'l) aead_world \<Rightarrow> ('k, 'c, 'l) aead_world option" where
  "EVP_CIPHER_CTX_free L c w =
     (case get_obj c w of
        None \<Rightarrow> free_obj c w
      | Some x \<Rightarrow> free_obj c (w\<lparr>w_lib := evp_ctx_free L x (w_lib w)\<rparr>))"

text \<open>An update or final call whose output pointer is \<open>dst + off\<close>.\<close>

definition call_writing ::
  "ptr \<Rightarrow> ptr \<Rightarrow> int \<Rightarrow> ('c \<Rightarrow> 'l \<Rightarrow> (int \<times> int \<times> bytes) \<times> 'c \<times> 'l) \<Rightarrow> ('k, 'c, 'l) aead_world \<Rightarrow>
   (int \<times> int \<times> ('k, 'c, 'l) aead_world) option" where
  "call_writing c dst off f w = do {
     ((r, outl, bs), w) \<leftarrow> on_obj c f w;
     w \<leftarrow> store dst off bs w;
     Some (r, outl, w)
   }"

text \<open>
  The seven calls that seal a message with the context \<open>c\<close> into \<open>dst\<close>, as they stand in
  \<^verbatim>\<open>encrypt_once\<close> and in the batch loop: the result says whether every call returned 1, and
  which bytes were written to the tag.
\<close>

definition seal_calls ::
  "('k, 'c, 'l) evp_lib \<Rightarrow> 'k ofb_backend \<Rightarrow> ptr \<Rightarrow> ptr \<Rightarrow> ('k, 'c, 'l) aead_world \<Rightarrow>
   (bool \<times> bytes \<times> ('k, 'c, 'l) aead_world) option" where
  "seal_calls L st c dst w = do {
     (r, w) \<leftarrow> on_obj c (evp_enc_init L (b_cipher st) None None) w;
     if r \<noteq> 1 then Some (False, [], w) else do {
     (r, w) \<leftarrow> on_obj c (evp_set_ivlen L OFB_NONCE_SIZE) w;
     if r \<noteq> 1 then Some (False, [], w) else do {
     (r, w) \<leftarrow> on_obj c (evp_enc_init L None (Some (b_key st)) (Some (b_nonce st))) w;
     if r \<noteq> 1 then Some (False, [], w) else do {
     aad \<leftarrow> load (b_aad st) 0 (unat (b_aad_size st)) w;
     ((r, _, _), w) \<leftarrow> on_obj c (evp_enc_update L False aad) w;
     if r \<noteq> 1 then Some (False, [], w) else do {
     plaintext \<leftarrow> load (b_plaintext st) 0 (unat (b_message_size st)) w;
     (r, len, w) \<leftarrow> call_writing c dst 0 (evp_enc_update L True plaintext) w;
     if r \<noteq> 1 then Some (False, [], w) else do {
     (r, _, w) \<leftarrow> call_writing c dst len (evp_enc_final L) w;
     if r \<noteq> 1 then Some (False, [], w) else do {
     ((r, tag), w) \<leftarrow> on_obj c (evp_get_tag L OFB_TAG_SIZE) w;
     Some (r = 1, tag, w)
   }}}}}}}"

definition open_calls ::
  "('k, 'c, 'l) evp_lib \<Rightarrow> 'k ofb_backend \<Rightarrow> ptr \<Rightarrow> ptr \<Rightarrow> bytes \<Rightarrow> ptr \<Rightarrow> ('k, 'c, 'l) aead_world \<Rightarrow>
   (bool \<times> ('k, 'c, 'l) aead_world) option" where
  "open_calls L st c src tag dst w = do {
     (r, w) \<leftarrow> on_obj c (evp_dec_init L (b_cipher st) None None) w;
     if r \<noteq> 1 then Some (False, w) else do {
     (r, w) \<leftarrow> on_obj c (evp_set_ivlen L OFB_NONCE_SIZE) w;
     if r \<noteq> 1 then Some (False, w) else do {
     (r, w) \<leftarrow> on_obj c (evp_dec_init L None (Some (b_key st)) (Some (b_nonce st))) w;
     if r \<noteq> 1 then Some (False, w) else do {
     aad \<leftarrow> load (b_aad st) 0 (unat (b_aad_size st)) w;
     ((r, _, _), w) \<leftarrow> on_obj c (evp_dec_update L False aad) w;
     if r \<noteq> 1 then Some (False, w) else do {
     ciphertext \<leftarrow> load src 0 (unat (b_message_size st)) w;
     (r, len, w) \<leftarrow> call_writing c dst 0 (evp_dec_update L True ciphertext) w;
     if r \<noteq> 1 then Some (False, w) else do {
     (r, w) \<leftarrow> on_obj c (evp_set_tag L tag) w;
     if r \<noteq> 1 then Some (False, w) else do {
     (r, _, w) \<leftarrow> call_writing c dst len (evp_dec_final L) w;
     Some (r = 1, w)
   }}}}}}}"

text \<open>Bytes written to an array of fixed size; past its end is undefined.\<close>

definition array_write :: "bytes \<Rightarrow> bytes \<Rightarrow> bytes option" where
  "array_write bs old = (if length bs \<le> length old then Some (bs @ drop (length bs) old) else None)"

definition encrypt_once ::
  "('k, 'c, 'l) evp_lib \<Rightarrow> ptr \<Rightarrow> ptr \<Rightarrow> ('k, 'c, 'l) aead_world \<Rightarrow>
   (int \<times> bytes \<times> ('k, 'c, 'l) aead_world) option" where
  "encrypt_once L state ciphertext w = do {
     st \<leftarrow> get_struct state w;
     let (ctx, w) = EVP_CIPHER_CTX_new L w;
     (ok, tag, w) \<leftarrow> (if ctx = NULL then Some (False, [], w) else seal_calls L st ctx ciphertext w);
     w \<leftarrow> EVP_CIPHER_CTX_free L ctx w;
     Some (if ok then 0 else -1, tag, w)
   }"

definition decrypt_once ::
  "('k, 'c, 'l) evp_lib \<Rightarrow> ptr \<Rightarrow> ptr \<Rightarrow> bytes \<Rightarrow> ptr \<Rightarrow> ('k, 'c, 'l) aead_world \<Rightarrow>
   (int \<times> ('k, 'c, 'l) aead_world) option" where
  "decrypt_once L state ciphertext tag plaintext w = do {
     st \<leftarrow> get_struct state w;
     let (ctx, w) = EVP_CIPHER_CTX_new L w;
     (ok, w) \<leftarrow> (if ctx = NULL then Some (False, w)
                  else open_calls L st ctx ciphertext tag plaintext w);
     w \<leftarrow> EVP_CIPHER_CTX_free L ctx w;
     Some (if ok then 0 else -1, w)
   }"

subsection \<open>The functions of the interface\<close>

definition ofb_backend_destroy ::
  "('k, 'c, 'l) evp_lib \<Rightarrow> ptr \<Rightarrow> ('k, 'c, 'l) aead_world \<Rightarrow> ('k, 'c, 'l) aead_world option" where
  "ofb_backend_destroy L state w =
     (if state = NULL then Some w
      else do {
        st \<leftarrow> get_struct state w;
        w \<leftarrow> EVP_CIPHER_CTX_free L (b_ctx st) w;
        w \<leftarrow> free (b_aad st) w;
        w \<leftarrow> free (b_plaintext st) w;
        w \<leftarrow> free (b_ciphertext st) w;
        w \<leftarrow> free (b_output st) w;
        free state w
      })"

text \<open>The three fixed fills; the index of the first is a \<^verbatim>\<open>size_t\<close>.\<close>

definition plaintext_fill :: "u64 \<Rightarrow> bytes" where
  "plaintext_fill n = map (\<lambda>i. ucast ((of_nat i :: u64) * 31 + 7)) [0..<unat n]"

definition key_fill :: bytes where
  "key_fill = map (\<lambda>i. ucast ((of_nat i :: u64) + 1)) [0..<32]"

definition nonce_fill :: bytes where
  "nonce_fill = map (\<lambda>i. ucast (0xa0 + (of_nat i :: u64))) [0..<OFB_NONCE_SIZE]"

text \<open>The fields that creation sets before it looks at any of them.\<close>

definition create_blocks ::
  "('k, 'c, 'l) evp_lib \<Rightarrow> ofb_params \<Rightarrow> ('k, 'c, 'l) aead_world \<Rightarrow>
   'k ofb_backend \<times> ('k, 'c, 'l) aead_world" where
  "create_blocks L params w =
     (let (ctx, w) = EVP_CIPHER_CTX_new L w;
          (aad, w) = calloc (if p_aad_size params = 0 then 1 else p_aad_size params) 1 w;
          (plaintext, w) =
            malloc (if p_message_size params = 0 then 1 else p_message_size params) w;
          (ciphertext, w) = malloc (p_message_size params + of_nat OFB_TAG_SIZE) w;
          (output, w) = malloc (p_message_size params + of_nat OFB_TAG_SIZE) w
      in (zero_backend\<lparr>b_cipher := find_cipher L (p_algorithm params), b_ctx := ctx,
            b_operation := p_operation params, b_message_size := p_message_size params,
            b_aad_size := p_aad_size params, b_aad := aad, b_plaintext := plaintext,
            b_ciphertext := ciphertext, b_output := output\<rparr>, w))"

text \<open>The second half of creation: fill the buffers and seal the message once.\<close>

definition create_fill ::
  "('k, 'c, 'l) evp_lib \<Rightarrow> ptr \<Rightarrow> 'k ofb_backend \<Rightarrow> ('k, 'c, 'l) aead_world \<Rightarrow>
   (int \<times> ptr \<times> ('k, 'c, 'l) aead_world) option" where
  "create_fill L state st w = do {
     w \<leftarrow> store (b_plaintext st) 0 (plaintext_fill (b_message_size st)) w;
     let st = st\<lparr>b_key := key_fill, b_nonce := nonce_fill\<rparr>;
     w \<leftarrow> put_struct state st w;
     (r, tag, w) \<leftarrow> encrypt_once L state (b_ciphertext st) w;
     tag \<leftarrow> array_write tag (b_tag st);
     w \<leftarrow> put_struct state (st\<lparr>b_tag := tag\<rparr>) w;
     if r \<noteq> 0 then do { w \<leftarrow> ofb_backend_destroy L state w; Some (-1, NULL, w) }
     else Some (0, state, w)
   }"

definition ofb_backend_create ::
  "('k, 'c, 'l) evp_lib \<Rightarrow> ofb_params \<Rightarrow> ('k, 'c, 'l) aead_world \<Rightarrow>
   (int \<times> ptr \<times> ('k, 'c, 'l) aead_world) option" where
  "ofb_backend_create L params w =
     (if p_message_size params > INT_MAX \<or> p_aad_size params > INT_MAX then Some (-1, NULL, w)
      else do {
        let (state, w) = alloc (Struct zero_backend) w;
        if state = NULL then Some (-1, NULL, w)
        else do {
          let (st, w) = create_blocks L params w;
          w \<leftarrow> put_struct state st w;
          if b_cipher st = None \<or> b_ctx st = NULL \<or> b_aad st = NULL \<or> b_plaintext st = NULL \<or>
             b_ciphertext st = NULL \<or> b_output st = NULL
          then do { w \<leftarrow> ofb_backend_destroy L state w; Some (-1, NULL, w) }
          else create_fill L state st w
        }
      })"

definition ofb_backend_verify ::
  "('k, 'c, 'l) evp_lib \<Rightarrow> ptr \<Rightarrow> ('k, 'c, 'l) aead_world \<Rightarrow>
   (int \<times> ('k, 'c, 'l) aead_world) option" where
  "ofb_backend_verify L state w = do {
     st \<leftarrow> get_struct state w;
     let n = unat (b_message_size st);
     (r, written, w) \<leftarrow> encrypt_once L state (b_output st) w;
     tag \<leftarrow> cells_write 0 written (replicate OFB_TAG_SIZE None);
     if r \<noteq> 0 then Some (-1, w) else do {
     output \<leftarrow> load (b_output st) 0 n w;
     ciphertext \<leftarrow> load (b_ciphertext st) 0 n w;
     if crypto_memcmp L output ciphertext \<noteq> 0 then Some (-1, w) else do {
     tag \<leftarrow> cells_read 0 OFB_TAG_SIZE tag;
     if crypto_memcmp L tag (b_tag st) \<noteq> 0 then Some (-1, w) else do {
     (r, w) \<leftarrow> decrypt_once L state (b_ciphertext st) (b_tag st) (b_output st) w;
     if r \<noteq> 0 then Some (-1, w) else do {
     output \<leftarrow> load (b_output st) 0 n w;
     plaintext \<leftarrow> load (b_plaintext st) 0 n w;
     if crypto_memcmp L output plaintext \<noteq> 0 then Some (-1, w) else Some (0, w)
   }}}}}"

fun batch_loop ::
  "('k, 'c, 'l) evp_lib \<Rightarrow> ptr \<Rightarrow> nat \<Rightarrow> ('k, 'c, 'l) aead_world \<Rightarrow>
   (int \<times> ('k, 'c, 'l) aead_world) option" where
  "batch_loop L state 0 w = Some (0, w)"
| "batch_loop L state (Suc n) w = do {
     st \<leftarrow> get_struct state w;
     if b_operation st = OFB_SEAL then do {
       (ok, tag, w) \<leftarrow> seal_calls L st (b_ctx st) (b_output st) w;
       tag \<leftarrow> array_write tag (b_tag st);
       w \<leftarrow> put_struct state (st\<lparr>b_tag := tag\<rparr>) w;
       if ok then batch_loop L state n w else Some (-1, w)
     } else do {
       (ok, w) \<leftarrow> open_calls L st (b_ctx st) (b_ciphertext st) (b_tag st) (b_output st) w;
       if ok then batch_loop L state n w else Some (-1, w)
     }
   }"

definition ofb_backend_run_batch ::
  "('k, 'c, 'l) evp_lib \<Rightarrow> ptr \<Rightarrow> u64 \<Rightarrow> ('k, 'c, 'l) aead_world \<Rightarrow>
   (int \<times> ('k, 'c, 'l) aead_world) option" where
  "ofb_backend_run_batch L state iterations w = do {
     (r, w) \<leftarrow> batch_loop L state (unat iterations) w;
     if r \<noteq> 0 then Some (-1, w)
     else do {
       st \<leftarrow> get_struct state w;
       last \<leftarrow> load (b_output st)
         (if b_message_size st = 0 then 0 else unat (b_message_size st - 1)) 1 w;
       w \<leftarrow> put_struct state (st\<lparr>b_checksum := b_checksum st XOR hd last\<rparr>) w;
       Some (0, w)
     }
   }"

definition aead_ops ::
  "string \<Rightarrow> ('k, 'c, 'l) evp_lib \<Rightarrow> (ofb_params, ('k, 'c, 'l) aead_world) backend_ops" where
  "aead_ops backend_name L =
     \<lparr>op_info = ofb_backend_info backend_name L, op_create = ofb_backend_create L,
      op_verify = ofb_backend_verify L, op_run_batch = ofb_backend_run_batch L,
      op_destroy = ofb_backend_destroy L\<rparr>"

end
