(* ===== verification/C_Text.thy ===== *)
theory C_Text
  imports Long_Double
begin

text \<open>
  What the programs use of \<^verbatim>\<open><stdlib.h>\<close> and \<^verbatim>\<open><stdio.h>\<close> on text: \<^verbatim>\<open>strtoull\<close> in base 10
  and the conversions of \<^verbatim>\<open>printf\<close> that occur in the format strings (\<^verbatim>\<open>%zu\<close>, \<^verbatim>\<open>%u\<close>,
  \<^verbatim>\<open>PRIu64\<close>, \<^verbatim>\<open>%s\<close> with field widths, \<^verbatim>\<open>%.3Lf\<close>). A C string is the list of its characters
  up to the terminating null character, so \<open>*end = 0\<close> is the empty rest.
\<close>

subsection \<open>Reading decimal numbers\<close>

definition is_space :: "char \<Rightarrow> bool" where
  "is_space c \<longleftrightarrow> (let n = of_char c :: nat in n = 32 \<or> 9 \<le> n \<and> n \<le> 13)"

definition is_digit :: "char \<Rightarrow> bool" where
  "is_digit c \<longleftrightarrow> (let n = of_char c :: nat in 48 \<le> n \<and> n \<le> 57)"

definition digit_val :: "char \<Rightarrow> nat" where
  "digit_val c = of_char c - 48"

definition digits_val :: "string \<Rightarrow> nat" where
  "digits_val ds = foldl (\<lambda>a c. 10 * a + digit_val c) 0 ds"

definition sign_split :: "string \<Rightarrow> bool \<times> string" where
  "sign_split s =
     (case s of
        [] \<Rightarrow> (False, [])
      | c # cs \<Rightarrow>
          if c = CHR ''-'' then (True, cs) else if c = CHR ''+'' then (False, cs) else (False, s))"

text \<open>
  The result is the value, the text \<^verbatim>\<open>*endptr\<close> points at, and whether \<^verbatim>\<open>errno\<close> is set. Without
  digits nothing is converted and \<^verbatim>\<open>*endptr\<close> is the whole text; a value out of range is
  \<^verbatim>\<open>ULLONG_MAX\<close> with \<^verbatim>\<open>ERANGE\<close>; a minus sign negates in the unsigned type.
\<close>

definition strtoull :: "string \<Rightarrow> u64 \<times> string \<times> bool" where
  "strtoull text =
     (let (neg, s) = sign_split (dropWhile is_space text);
          ds = takeWhile is_digit s;
          rest = dropWhile is_digit s
      in if ds = [] then (0, text, False)
         else if 2 ^ 64 \<le> digits_val ds then (UINT64_MAX, rest, True)
         else (if neg then - of_nat (digits_val ds) else of_nat (digits_val ds), rest, False))"

subsection \<open>Printing numbers\<close>

definition digit_char :: "nat \<Rightarrow> char" where
  "digit_char d = char_of (48 + d)"

fun dec :: "nat \<Rightarrow> string" where
  "dec n = (if n < 10 then [digit_char n] else dec (n div 10) @ [digit_char (n mod 10)])"

declare dec.simps [simp del]

definition pad_left :: "nat \<Rightarrow> char \<Rightarrow> string \<Rightarrow> string" where
  "pad_left k c s = replicate (k - length s) c @ s"

definition pad_right :: "nat \<Rightarrow> string \<Rightarrow> string" where
  "pad_right k s = s @ replicate (k - length s) CHR '' ''"

text \<open>\<^verbatim>\<open>%.kLf\<close> of a non-negative number: its exact value rounded to \<open>k\<close> decimals.\<close>

definition fixed :: "nat \<Rightarrow> rat \<Rightarrow> string" where
  "fixed k r =
     (let n = nat (rne (r * 10 ^ k))
      in dec (n div 10 ^ k) @ ''.'' @ pad_left k CHR ''0'' (dec (n mod 10 ^ k)))"

definition newline :: string where
  "newline = [CHR 0x0A]"

subsection \<open>Digits\<close>

lemma of_char_digit_char: "d < 10 \<Longrightarrow> of_char (digit_char d) = (48 + d :: nat)"
  by (simp add: digit_char_def)

lemma is_digit_digit_char [simp]: "d < 10 \<Longrightarrow> is_digit (digit_char d)"
  by (simp add: is_digit_def Let_def of_char_digit_char)

lemma digit_val_digit_char [simp]: "d < 10 \<Longrightarrow> digit_val (digit_char d) = d"
  by (simp add: digit_val_def of_char_digit_char)

lemma digits_val_Nil [simp]: "digits_val [] = 0"
  by (simp add: digits_val_def)

lemma digits_val_snoc [simp]: "digits_val (ds @ [c]) = 10 * digits_val ds + digit_val c"
  by (simp add: digits_val_def)

lemma dec_digits: "list_all is_digit (dec n)"
proof (induction n rule: dec.induct)
  case (1 n)
  then show ?case by (cases "n < 10") (simp_all add: dec.simps [of n])
qed

lemma dec_not_Nil [simp]: "dec n \<noteq> []"
  by (subst dec.simps) simp

lemma digits_val_dec [simp]: "digits_val (dec n) = n"
proof (induction n rule: dec.induct)
  case (1 n)
  show ?case
  proof (cases "n < 10")
    case True
    then show ?thesis using digits_val_snoc [of "[]"] by (simp add: dec.simps [of n])
  next
    case False
    with 1 show ?thesis by (simp add: dec.simps [of n])
  qed
qed

lemma dec_inject: "dec m = dec n \<longleftrightarrow> m = n"
  by (metis digits_val_dec)

lemma is_digit_not_space: "is_digit c \<Longrightarrow> \<not> is_space c"
  by (auto simp: is_digit_def is_space_def Let_def)

lemma is_digit_not_sign: "is_digit c \<Longrightarrow> c \<noteq> CHR ''-'' \<and> c \<noteq> CHR ''+''"
  by (auto simp: is_digit_def)

lemma sign_not_space: "\<not> is_space CHR ''-''" "\<not> is_space CHR ''+''"
  by (simp_all add: is_space_def)

lemma sign_split_digit: "is_digit c \<Longrightarrow> sign_split (c # s) = (False, c # s)"
  using is_digit_not_sign [of c] by (simp add: sign_split_def)

end
