(* ===== verification/Aead_Main.thy ===== *)
theory Aead_Main
  imports Aead_Backend C_Text
begin

text \<open>
  \<^verbatim>\<open>src/main.c\<close>: the command line of the AEAD benchmark. Options are parsed from the argument
  list after the program name, checked, and turned into nested loops over algorithms, sizes
  and operations, each case creating, verifying, calibrating and timing a backend. The results
  go to the standard output, as one JSON object or one line of text for each sample.

  The name of the architecture is a macro of the build, so it is an argument, as is the
  precision \<open>ldp\<close> of \<^verbatim>\<open>long double\<close>. The sum type \<open>int + options\<close> is the outcome of parsing:
  the exit code of the program, or the options it goes on with.
\<close>

record options =
  o_algorithm :: string
  o_operation :: string
  o_format :: string
  o_size :: u64
  o_aad_size :: u64
  o_samples :: u32
  o_sample_ns :: u64
  o_size_set :: bool

definition default_options :: options where
  "default_options =
     \<lparr>o_algorithm = ''all'', o_operation = ''all'', o_format = ''jsonl'', o_size = 0,
      o_aad_size = 13, o_samples = 7, o_sample_ns = 250000000, o_size_set = False\<rparr>"

definition usage :: "string \<Rightarrow> string" where
  "usage program =
     ''Usage: '' @ program @ '' [options]'' @ newline @
     ''  --algorithm NAME    algorithm or 'all' (default: all)'' @ newline @
     ''  --operation NAME    seal, open, or all (default: all)'' @ newline @
     ''  --size BYTES        message size (default: 64, 1024, 16384)'' @ newline @
     ''  --aad-size BYTES    additional data size (default: 13)'' @ newline @
     ''  --samples COUNT     samples per case (default: 7)'' @ newline @
     ''  --sample-ms MS      target duration per sample (default: 250)'' @ newline @
     ''  --format FORMAT     jsonl or text (default: jsonl)'' @ newline @
     ''  --list              list algorithms'' @ newline @
     ''  --help              show this help'' @ newline"

definition parse_u64 :: "string \<Rightarrow> u64 option" where
  "parse_u64 text =
     (let (parsed, rest, range) = strtoull text
      in if range \<or> text = [] \<or> rest \<noteq> [] then None else Some parsed)"

definition algorithm_selected :: "options \<Rightarrow> string \<Rightarrow> bool" where
  "algorithm_selected options algorithm \<longleftrightarrow>
     o_algorithm options = ''all'' \<or> o_algorithm options = algorithm"

subsection \<open>One case\<close>

definition operation_name :: "ofb_operation \<Rightarrow> string" where
  "operation_name operation = (if operation = OFB_SEAL then ''seal'' else ''open'')"

definition case_name :: "string \<Rightarrow> ofb_operation \<Rightarrow> u64 \<Rightarrow> string" where
  "case_name algorithm operation message_size =
     algorithm @ ''/'' @ operation_name operation @ ''/'' @ dec (unat message_size) @ newline"

definition mib_per_second :: "nat \<Rightarrow> ofb_sample \<Rightarrow> rat" where
  "mib_per_second ldp s =
     ld_round ldp (ld_round ldp (ld_round ldp (ld_of ldp (s_bytes s) * 1000000000) /
       ld_of ldp (s_elapsed_ns s)) / 1048576)"

definition jsonl_line ::
  "nat \<Rightarrow> string \<Rightarrow> ofb_backend_info \<Rightarrow> options \<Rightarrow> string \<Rightarrow> ofb_operation \<Rightarrow> u64 \<Rightarrow> nat \<Rightarrow>
   ofb_sample \<Rightarrow> string" where
  "jsonl_line ldp arch info options algorithm operation message_size i s =
     ''{\"schema_version\":1,\"architecture\":\"'' @ arch @ ''\",'' @
     ''\"backend\":\"'' @ i_name info @ ''\",\"version\":\"'' @ i_version info @ ''\",'' @
     ''\"algorithm\":\"'' @ algorithm @ ''\",\"operation\":\"'' @ operation_name operation @ ''\",'' @
     ''\"message_bytes\":'' @ dec (unat message_size) @
     '',\"aad_bytes\":'' @ dec (unat (o_aad_size options)) @ '',\"sample\":'' @ dec i @ '','' @
     ''\"iterations\":'' @ dec (unat (s_iterations s)) @
     '',\"elapsed_ns\":'' @ dec (unat (s_elapsed_ns s)) @ '','' @
     ''\"bytes\":'' @ dec (unat (s_bytes s)) @
     '',\"mib_per_second\":'' @ fixed 3 (mib_per_second ldp s) @ ''}'' @ newline"

definition text_line ::
  "nat \<Rightarrow> string \<Rightarrow> ofb_operation \<Rightarrow> u64 \<Rightarrow> nat \<Rightarrow> ofb_sample \<Rightarrow> string" where
  "text_line ldp algorithm operation message_size i s =
     pad_right 20 algorithm @ '' '' @ pad_right 4 (operation_name operation) @ '' '' @
     pad_left 7 CHR '' '' (dec (unat message_size)) @ '' bytes  sample='' @ dec i @ ''  '' @
     pad_left 10 CHR '' '' (fixed 2 (mib_per_second ldp s)) @ '' MiB/s'' @ newline"

definition sample_line ::
  "nat \<Rightarrow> string \<Rightarrow> ofb_backend_info \<Rightarrow> options \<Rightarrow> string \<Rightarrow> ofb_operation \<Rightarrow> u64 \<Rightarrow> nat \<Rightarrow>
   ofb_sample \<Rightarrow> string" where
  "sample_line ldp arch info options algorithm operation message_size i s =
     (if o_format options = ''jsonl''
      then jsonl_line ldp arch info options algorithm operation message_size i s
      else text_line ldp algorithm operation message_size i s)"

text \<open>The three lines every failure of a case ends with.\<close>

definition fail_case ::
  "('p, ('s, 'o, 'l) world) backend_ops \<Rightarrow> ptr \<Rightarrow> string \<Rightarrow> ('s, 'o, 'l) world \<Rightarrow>
   (int \<times> ('s, 'o, 'l) world) option" where
  "fail_case B backend message w = do {
     w \<leftarrow> op_destroy B backend (print_err message w);
     Some (-1, w)
   }"

text \<open>The sampling loop from sample number \<open>i\<close> on, \<open>k\<close> samples before its end.\<close>

fun sample_loop ::
  "nat \<Rightarrow> string \<Rightarrow> (ofb_params, ('s, 'o, 'l) world) backend_ops \<Rightarrow> options \<Rightarrow> string \<Rightarrow>
   ofb_operation \<Rightarrow> u64 \<Rightarrow> ptr \<Rightarrow> u64 \<Rightarrow> nat \<Rightarrow> nat \<Rightarrow> ('s, 'o, 'l) world \<Rightarrow>
   (int \<times> ('s, 'o, 'l) world) option" where
  "sample_loop ldp arch B options algorithm operation message_size backend iterations i 0 w =
     Some (0, w)"
| "sample_loop ldp arch B options algorithm operation message_size backend iterations i (Suc k) w =
     do {
       (s, w) \<leftarrow> ofb_run_sample B backend iterations message_size w;
       case s of
         None \<Rightarrow> fail_case B backend
           (''benchmark run failed: '' @ case_name algorithm operation message_size) w
       | Some sample \<Rightarrow>
           sample_loop ldp arch B options algorithm operation message_size backend iterations
             (Suc i) k (print_out
               (sample_line ldp arch (op_info B) options algorithm operation message_size i sample)
               w)
     }"

definition run_case ::
  "nat \<Rightarrow> string \<Rightarrow> (ofb_params, ('s, 'o, 'l) world) backend_ops \<Rightarrow> options \<Rightarrow> string \<Rightarrow>
   ofb_operation \<Rightarrow> u64 \<Rightarrow> ('s, 'o, 'l) world \<Rightarrow> (int \<times> ('s, 'o, 'l) world) option" where
  "run_case ldp arch B options algorithm operation message_size w = do {
     let params = \<lparr>p_algorithm = algorithm, p_operation = operation,
                   p_message_size = message_size, p_aad_size = o_aad_size options\<rparr>;
     (r, backend, w) \<leftarrow> op_create B params w;
     if r \<noteq> 0
     then fail_case B backend
       (''backend creation failed: '' @ case_name algorithm operation message_size) w
     else do {
       (r, w) \<leftarrow> op_verify B backend w;
       if r \<noteq> 0
       then fail_case B backend
         (''correctness verification failed: '' @ case_name algorithm operation message_size) w
       else do {
         (c, w) \<leftarrow> ofb_calibrate ldp B backend message_size (o_sample_ns options) w;
         case c of
           None \<Rightarrow> fail_case B backend
             (''calibration failed: '' @ case_name algorithm operation message_size) w
         | Some iterations \<Rightarrow> do {
             (r, w) \<leftarrow> sample_loop ldp arch B options algorithm operation message_size backend
               iterations 0 (unat (o_samples options)) w;
             if r \<noteq> 0 then Some (-1, w)
             else do { w \<leftarrow> op_destroy B backend w; Some (0, w) }
           }
       }
     }
   }"

subsection \<open>The program\<close>

definition puts :: "string \<Rightarrow> string" where
  "puts s = s @ newline"

text \<open>
  An option with its value: the new options, or the text printed before the exit with code 2.
\<close>

definition set_option :: "string \<Rightarrow> string \<Rightarrow> string \<Rightarrow> options \<Rightarrow> string + options" where
  "set_option program arg val options =
     (if arg = ''--algorithm'' then Inr (options\<lparr>o_algorithm := val\<rparr>)
      else if arg = ''--operation'' then Inr (options\<lparr>o_operation := val\<rparr>)
      else if arg = ''--format'' then Inr (options\<lparr>o_format := val\<rparr>)
      else if arg = ''--size''
      then (case parse_u64 val of
              None \<Rightarrow> Inl (''invalid --size'' @ newline)
            | Some parsed \<Rightarrow>
                if parsed = 0 \<or> parsed > SIZE_MAX then Inl (''invalid --size'' @ newline)
                else Inr (options\<lparr>o_size := parsed, o_size_set := True\<rparr>))
      else if arg = ''--aad-size''
      then (case parse_u64 val of
              None \<Rightarrow> Inl (''invalid --aad-size'' @ newline)
            | Some parsed \<Rightarrow>
                if parsed > SIZE_MAX then Inl (''invalid --aad-size'' @ newline)
                else Inr (options\<lparr>o_aad_size := parsed\<rparr>))
      else if arg = ''--samples''
      then (case parse_u64 val of
              None \<Rightarrow> Inl (''invalid --samples'' @ newline)
            | Some parsed \<Rightarrow>
                if parsed = 0 \<or> parsed > UINT_MAX then Inl (''invalid --samples'' @ newline)
                else Inr (options\<lparr>o_samples := ucast parsed\<rparr>))
      else if arg = ''--sample-ms''
      then (case parse_u64 val of
              None \<Rightarrow> Inl (''invalid --sample-ms'' @ newline)
            | Some parsed \<Rightarrow>
                if parsed = 0 \<or> parsed > UINT64_MAX div 1000000
                then Inl (''invalid --sample-ms'' @ newline)
                else Inr (options\<lparr>o_sample_ns := parsed * 1000000\<rparr>))
      else Inl (''unknown option: '' @ arg @ newline @ usage program))"

fun parse_args ::
  "('p, ('s, 'o, 'l) world) backend_ops \<Rightarrow> string \<Rightarrow> string list \<Rightarrow> options \<Rightarrow>
   ('s, 'o, 'l) world \<Rightarrow> (int + options) \<times> ('s, 'o, 'l) world" where
  "parse_args B program [] options w = (Inr options, w)"
| "parse_args B program (arg # rest) options w =
     (if arg = ''--help'' then (Inl 0, print_out (usage program) w)
      else if arg = ''--list''
      then (Inl 0, print_out (concat (map puts (i_algorithms (op_info B)))) w)
      else case rest of
        [] \<Rightarrow> (Inl 2, print_err (usage program) w)
      | val # rest' \<Rightarrow>
          (case set_option program arg val options of
             Inl message \<Rightarrow> (Inl 2, print_err message w)
           | Inr options \<Rightarrow> parse_args B program rest' options w))"

definition invalid :: "string \<Rightarrow> ('s, 'o, 'l) world \<Rightarrow> (int + options) \<times> ('s, 'o, 'l) world" where
  "invalid message w = (Inl 2, print_err (message @ newline) w)"

definition check_options ::
  "options \<Rightarrow> ('s, 'o, 'l) world \<Rightarrow> (int + options) \<times> ('s, 'o, 'l) world" where
  "check_options options w =
     (if o_operation options \<noteq> ''all'' \<and> o_operation options \<noteq> ''seal'' \<and>
         o_operation options \<noteq> ''open''
      then invalid ''--operation must be seal, open, or all'' w
      else if o_format options \<noteq> ''jsonl'' \<and> o_format options \<noteq> ''text''
      then invalid ''--format must be jsonl or text'' w
      else (Inr options, w))"

definition default_sizes :: "u64 list" where
  "default_sizes = [64, 1024, 16384]"

text \<open>
  The body of the loop over the sizes; the result 1 is the early return of \<^verbatim>\<open>main\<close>.
\<close>

definition run_size ::
  "nat \<Rightarrow> string \<Rightarrow> (ofb_params, ('s, 'o, 'l) world) backend_ops \<Rightarrow> options \<Rightarrow> string \<Rightarrow>
   u64 \<Rightarrow> ('s, 'o, 'l) world \<Rightarrow> (int \<times> ('s, 'o, 'l) world) option" where
  "run_size ldp arch B options algorithm n w = do {
     (r, w) \<leftarrow> (if o_operation options = ''all'' \<or> o_operation options = ''seal''
                 then run_case ldp arch B options algorithm OFB_SEAL n w else Some (0, w));
     if r \<noteq> 0 then Some (1, w)
     else do {
       (r, w) \<leftarrow> (if o_operation options = ''all'' \<or> o_operation options = ''open''
                   then run_case ldp arch B options algorithm OFB_OPEN n w else Some (0, w));
       if r \<noteq> 0 then Some (1, w) else Some (0, w)
     }
   }"

fun run_sizes ::
  "nat \<Rightarrow> string \<Rightarrow> (ofb_params, ('s, 'o, 'l) world) backend_ops \<Rightarrow> options \<Rightarrow> string \<Rightarrow>
   u64 list \<Rightarrow> ('s, 'o, 'l) world \<Rightarrow> (int \<times> ('s, 'o, 'l) world) option" where
  "run_sizes ldp arch B options algorithm [] w = Some (0, w)"
| "run_sizes ldp arch B options algorithm (n # sizes) w = do {
     (r, w) \<leftarrow> run_size ldp arch B options algorithm n w;
     if r \<noteq> 0 then Some (r, w) else run_sizes ldp arch B options algorithm sizes w
   }"

fun run_algorithms ::
  "nat \<Rightarrow> string \<Rightarrow> (ofb_params, ('s, 'o, 'l) world) backend_ops \<Rightarrow> options \<Rightarrow> string list \<Rightarrow>
   ('s, 'o, 'l) world \<Rightarrow> (int \<times> ('s, 'o, 'l) world) option" where
  "run_algorithms ldp arch B options [] w = Some (0, w)"
| "run_algorithms ldp arch B options (algorithm # rest) w =
     (if \<not> algorithm_selected options algorithm then run_algorithms ldp arch B options rest w
      else do {
        (r, w) \<leftarrow> run_sizes ldp arch B options algorithm
          (if o_size_set options then [o_size options] else default_sizes) w;
        if r \<noteq> 0 then Some (r, w) else run_algorithms ldp arch B options rest w
      })"

definition main ::
  "nat \<Rightarrow> string \<Rightarrow> (ofb_params, ('s, 'o, 'l) world) backend_ops \<Rightarrow> string \<Rightarrow> string list \<Rightarrow>
   ('s, 'o, 'l) world \<Rightarrow> (int \<times> ('s, 'o, 'l) world) option" where
  "main ldp arch B program args w =
     (case parse_args B program args default_options w of
        (Inl code, w) \<Rightarrow> Some (code, w)
      | (Inr options, w) \<Rightarrow>
          (case check_options options w of
             (Inl code, w) \<Rightarrow> Some (code, w)
           | (Inr options, w) \<Rightarrow> do {
               (r, w) \<leftarrow> run_algorithms ldp arch B options (i_algorithms (op_info B)) w;
               if r \<noteq> 0 then Some (r, w)
               else if o_algorithm options \<noteq> ''all''
               then if o_algorithm options \<in> set (i_algorithms (op_info B)) then Some (0, w)
                    else Some (2, print_err
                      (''unsupported algorithm: '' @ o_algorithm options @ newline) w)
               else Some (0, w)
             }))"

end
