(* ===== verification/Aead_Options.thy ===== *)
theory Aead_Options
  imports Aead_Main
begin

text \<open>
  Parsing of numbers and options: what is accepted, what every accepted set of options
  satisfies, and the round trip between options and arguments.
\<close>

subsection \<open>Parsing numbers\<close>

lemma sign_split_cases:
  assumes "sign_split t = (neg, s)"
  obtains sign where "sign \<in> {'''', ''+'', ''-''}" "t = sign @ s" "neg = (sign = ''-'')"
proof -
  consider "t = ''-'' @ s" "neg" | "t = ''+'' @ s" "\<not> neg" | "t = '''' @ s" "\<not> neg"
    using assms by (cases t) (auto simp: sign_split_def split: if_splits)
  then show thesis
  proof cases
    case 1
    then show ?thesis by (intro that [of "''-''"]) simp_all
  next
    case 2
    then show ?thesis by (intro that [of "''+''"]) simp_all
  next
    case 3
    then show ?thesis by (intro that [of "''''"]) simp_all
  qed
qed

lemma dropWhile_space_stop:
  "list_all is_space ws \<Longrightarrow> t = [] \<or> \<not> is_space (hd t) \<Longrightarrow> dropWhile is_space (ws @ t) = t"
  by (induction ws) (cases t; auto)+

lemma all_digits_while:
  "list_all is_digit ds \<Longrightarrow> takeWhile is_digit ds = ds \<and> dropWhile is_digit ds = []"
  by (induction ds) auto

text \<open>The texts that \<open>parse_u64\<close> accepts, and the value of each.\<close>

definition is_number :: "string \<Rightarrow> u64 \<Rightarrow> bool" where
  "is_number text v \<longleftrightarrow> (\<exists>ws sign ds. text = ws @ sign @ ds \<and> list_all is_space ws \<and>
     sign \<in> {'''', ''+'', ''-''} \<and> ds \<noteq> [] \<and> list_all is_digit ds \<and> digits_val ds < 2 ^ 64 \<and>
     v = (if sign = ''-'' then - of_nat (digits_val ds) else of_nat (digits_val ds)))"

lemma strtoull_split:
  assumes "list_all is_space ws" and "sign \<in> {'''', ''+'', ''-''}" and "ds \<noteq> []"
    and "list_all is_digit ds" and "digits_val ds < 2 ^ 64"
  shows "strtoull (ws @ sign @ ds) =
    ((if sign = ''-'' then - of_nat (digits_val ds) else of_nat (digits_val ds)), [], False)"
proof -
  obtain d ds' where ds: "ds = d # ds'" using assms(3) by (cases ds) auto
  have d: "is_digit d" using assms(4) ds by simp
  have "dropWhile is_space (ws @ sign @ ds) = sign @ ds"
    using assms(2) is_digit_not_space [OF d] sign_not_space ds
    by (intro dropWhile_space_stop [OF assms(1)]) auto
  moreover have "sign_split (sign @ ds) = (sign = ''-'', ds)"
    using assms(2) sign_split_digit [OF d] ds by (auto simp: sign_split_def)
  ultimately show ?thesis
    using all_digits_while [OF assms(4)] assms(3,5)
    by (simp add: strtoull_def Let_def del: takeWhile_eq_all_conv dropWhile_eq_Nil_conv)
qed

lemma parse_u64_sound:
  assumes "parse_u64 text = Some v"
  shows "is_number text v"
proof -
  obtain neg s where split: "sign_split (dropWhile is_space text) = (neg, s)"
    by (cases "sign_split (dropWhile is_space text)")
  define ds where "ds = takeWhile is_digit s"
  have *: "ds \<noteq> []" "digits_val ds < 2 ^ 64" "dropWhile is_digit s = []"
    "v = (if neg then - of_nat (digits_val ds) else of_nat (digits_val ds))"
    using assms split unfolding parse_u64_def strtoull_def ds_def
    by (auto simp: Let_def split: if_splits)
  have "ds @ dropWhile is_digit s = s" unfolding ds_def by (rule takeWhile_dropWhile_id)
  then have s: "s = ds" unfolding *(3) by simp
  have digits: "list_all is_digit ds" unfolding ds_def by (auto simp: list_all_iff dest: set_takeWhileD)
  have spaces: "list_all is_space (takeWhile is_space text)"
    by (auto simp: list_all_iff dest: set_takeWhileD)
  from split [unfolded s] obtain sign where
    sign: "sign \<in> {'''', ''+'', ''-''}" "dropWhile is_space text = sign @ ds" "neg = (sign = ''-'')"
    by (rule sign_split_cases)
  define ws where "ws = takeWhile is_space text"
  have "ws @ dropWhile is_space text = text" unfolding ws_def by (rule takeWhile_dropWhile_id)
  then have "text = ws @ sign @ ds" unfolding sign(2) by (rule sym)
  moreover have "v = (if sign = ''-'' then - of_nat (digits_val ds) else of_nat (digits_val ds))"
    using *(4) unfolding sign(3) .
  ultimately show ?thesis
    unfolding is_number_def using digits sign(1) *(1,2) spaces [folded ws_def] by blast
qed

lemma parse_u64_complete: "is_number text v \<Longrightarrow> parse_u64 text = Some v"
  unfolding is_number_def by (elim exE conjE) (simp add: parse_u64_def strtoull_split)

lemma is_number_dec: "is_number (dec (unat n)) n"
  unfolding is_number_def using dec_digits [of "unat n"]
  by (intro exI [of _ "[]"] exI [of _ "dec (unat n)"]) simp

lemma parse_u64_dec [simp]: "parse_u64 (dec (unat n)) = Some n"
  by (rule parse_u64_complete) (rule is_number_dec)

text \<open>C33: \<open>parse_u64\<close> accepts exactly the decimal numerals below \<open>2 ^ 64\<close>, with optional white
  space and a sign before them; a minus sign negates modulo \<open>2 ^ 64\<close>. No other text is accepted:
  not the empty one, not a numeral followed by anything, not a numeral out of range.\<close>

theorem parse_u64_exact: "parse_u64 text = Some v \<longleftrightarrow> is_number text v"
  using parse_u64_sound parse_u64_complete by blast


subsection \<open>Parsing options\<close>

definition options_ok :: "options \<Rightarrow> bool" where
  "options_ok options \<longleftrightarrow>
     (if o_size_set options then o_size options \<noteq> 0 else o_size options = 0) \<and>
     o_samples options \<noteq> 0 \<and> o_sample_ns options \<noteq> 0 \<and>
     1000000 dvd unat (o_sample_ns options)"

lemma default_options_ok: "options_ok default_options"
  by (simp add: options_ok_def default_options_def)

lemma sample_ns_exact:
  assumes "\<not> ms > UINT64_MAX div 1000000"
  shows "unat (ms * 1000000) = unat ms * 1000000"
proof -
  have "unat ms * unat (1000000 :: u64) < 2 ^ 64"
    using assms mult_guard_iff [of 1000000 ms] by simp
  from unat_mult_exact [OF this] show ?thesis by simp
qed

lemma sample_ns_ok:
  assumes "\<not> (ms = 0 \<or> ms > UINT64_MAX div 1000000)"
  shows "ms * 1000000 \<noteq> 0 \<and> 1000000 dvd unat (ms * 1000000)"
proof -
  have e: "unat (ms * 1000000) = unat ms * 1000000" using assms by (simp add: sample_ns_exact)
  moreover have "0 < unat ms" using assms by (simp add: unat_gt_0)
  ultimately have "unat (ms * 1000000) \<noteq> 0" by simp
  then show ?thesis using e by (auto simp: unat_eq_0)
qed

lemma samples_ok:
  assumes "\<not> (n = 0 \<or> n > UINT_MAX)"
  shows "ucast n \<noteq> (0 :: u32)" and "unat (ucast n :: u32) = unat n"
proof -
  have "unat n < 2 ^ 32" using assms by (simp add: UINT_MAX_def word_less_nat_alt not_less)
  then show e: "unat (ucast n :: u32) = unat n"
    by (simp add: unsigned_ucast_eq take_bit_nat_eq_self)
  have "0 < unat n" using assms by (simp add: unat_gt_0)
  then show "ucast n \<noteq> (0 :: u32)" using e by auto
qed

lemma set_option_ok:
  assumes "options_ok options" and "set_option program arg val options = Inr options'"
  shows "options_ok options'"
proof -
  note ok = assms(1)[unfolded options_ok_def]
  show ?thesis
    using assms(2) ok samples_ok sample_ns_ok unfolding set_option_def
    by (auto simp: options_ok_def split: if_split_asm option.split_asm)
qed

lemma parse_args_options_ok:
  "options_ok options \<Longrightarrow> parse_args B program args options w = (Inr options', w') \<Longrightarrow>
   options_ok options' \<and> w' = w"
  by (induction B program args options w rule: parse_args.induct)
    (auto split: if_split_asm list.split_asm sum.split_asm intro: set_option_ok)

text \<open>C10: whatever the arguments, the options the program goes on with are sane: an explicit
  message size is not zero, there is at least one sample, and the target duration is a positive
  whole number of milliseconds, so its product with a million did not wrap around; parsing
  prints nothing in that case.\<close>

theorem parse_args_sane:
  assumes "parse_args B program args default_options w = (Inr options, w')"
  shows "options_ok options \<and> w' = w"
  using parse_args_options_ok [OF default_options_ok assms] .

text \<open>The arguments that describe given options.\<close>

definition args_of :: "options \<Rightarrow> string list" where
  "args_of options =
     [''--algorithm'', o_algorithm options, ''--operation'', o_operation options,
      ''--format'', o_format options, ''--aad-size'', dec (unat (o_aad_size options)),
      ''--samples'', dec (unat (o_samples options)),
      ''--sample-ms'', dec (unat (o_sample_ns options) div 1000000)] @
     (if o_size_set options then [''--size'', dec (unat (o_size options))] else [])"

lemma set_option_text:
  "set_option program ''--algorithm'' v options = Inr (options\<lparr>o_algorithm := v\<rparr>)"
  "set_option program ''--operation'' v options = Inr (options\<lparr>o_operation := v\<rparr>)"
  "set_option program ''--format'' v options = Inr (options\<lparr>o_format := v\<rparr>)"
  by (simp_all add: set_option_def)

lemma set_option_aad:
  "set_option program ''--aad-size'' (dec (unat n)) options = Inr (options\<lparr>o_aad_size := n\<rparr>)"
  by (simp add: set_option_def SIZE_MAX_def word_less_nat_alt not_less del: unat_u64_bound)
    (use unat_u64_bound [of n] in linarith)

lemma set_option_size:
  "n \<noteq> 0 \<Longrightarrow> set_option program ''--size'' (dec (unat n)) options =
    Inr (options\<lparr>o_size := n, o_size_set := True\<rparr>)"
  by (simp add: set_option_def SIZE_MAX_def word_less_nat_alt not_less del: unat_u64_bound)
    (use unat_u64_bound [of n] in linarith)

lemma set_option_samples:
  assumes "n \<noteq> 0"
  shows "set_option program ''--samples'' (dec (unat n)) options = Inr (options\<lparr>o_samples := n\<rparr>)"
proof -
  have n: "unat (ucast n :: u64) = unat n"
    using unsigned_less [of n, where ?'a = nat]
    by (simp add: unsigned_ucast_eq take_bit_nat_eq_self)
  have "parse_u64 (dec (unat n)) = Some (ucast n)" by (simp flip: n)
  moreover have "ucast n \<noteq> (0 :: u64)" using assms by (metis n unat_0 unat_eq_0)
  moreover have "\<not> UINT_MAX < ucast n"
    using n unsigned_less [of n, where ?'a = nat] by (simp add: word_less_nat_alt)
  moreover from calculation(2,3) have "ucast (ucast n :: u64) = n"
    using samples_ok(2) [of "ucast n"] by (simp add: word_unat_eq_iff n)
  ultimately show ?thesis by (simp add: set_option_def)
qed

lemma set_option_sample_ns:
  assumes "n \<noteq> 0" and "1000000 dvd unat n"
  shows "set_option program ''--sample-ms'' (dec (unat n div 1000000)) options =
    Inr (options\<lparr>o_sample_ns := n\<rparr>)"
proof -
  define ms where "ms = n div 1000000"
  have ms: "unat ms = unat n div 1000000" by (simp add: ms_def unat_div)
  then have e: "unat ms * 1000000 = unat n" using assms(2) by simp
  have "parse_u64 (dec (unat n div 1000000)) = Some ms" by (simp flip: ms)
  moreover have nz: "ms \<noteq> 0" using e assms(1) by (metis mult_zero_left unat_0 unat_eq_0)
  moreover have "\<not> UINT64_MAX div 1000000 < ms"
    using mult_guard_iff [of 1000000 ms] e unat_u64_less [of n] by simp
  moreover from sample_ns_exact [OF this] have "ms * 1000000 = n" using e
    by (simp add: word_unat_eq_iff)
  ultimately show ?thesis by (simp add: set_option_def)
qed

text \<open>C24: every set of sane options can be given on the command line: printing it as arguments
  and parsing them gives the options back.\<close>

theorem parse_args_round_trip:
  assumes "options_ok options"
  shows "parse_args B program (args_of options) default_options w = (Inr options, w)"
proof -
  note ok = assms [unfolded options_ok_def]
  have "\<lparr>o_algorithm = o_algorithm options, o_operation = o_operation options,
      o_format = o_format options, o_size = o_size options, o_aad_size = o_aad_size options,
      o_samples = o_samples options, o_sample_ns = o_sample_ns options,
      o_size_set = o_size_set options\<rparr> = options"
    by simp
  then show ?thesis
    using ok by (auto simp: args_of_def default_options_def set_option_text set_option_aad
        set_option_size set_option_samples set_option_sample_ns)
qed

end
