(* ===== verification/Aead_Calls.thy ===== *)
theory Aead_Calls
  imports Aead_Backend
begin

text \<open>
  The sequences of library calls that seal and open a message stay inside their buffers, with a
  context of the backend or with one that lives for a single message.
\<close>

subsection \<open>The call sequences\<close>

lemma step_update:
  assumes "update_ok f" and "has_obj c w" and "has_room dst m w" and "touched S w w1"
    and "c \<in> S" and "dst \<in> S" and "length inp \<le> m"
    and "\<And>r len w2. touched S w w2 \<Longrightarrow> touched S w1 w2 \<Longrightarrow>
      (r = 1 \<Longrightarrow> len = int (length inp) \<and> has_bytes dst (length inp) w2) \<Longrightarrow> Q (r, len, w2)"
  shows "succeeds (call_writing c dst 0 (f True inp) w1) Q"
  unfolding call_writing_def succeeds_bind
proof (rule step_obj [OF assms(2,4,5)], clarsimp)
  fix r outl bs w2 x l x' l'
  assume t: "touched S w w2" "touched S w1 w2" and f: "f True inp x l = ((r, outl, bs), x', l')"
  from assms(1) f have b: "length bs \<le> length inp"
    "r = 1 \<Longrightarrow> outl = int (length bs) \<and> length bs = length inp"
    unfolding update_ok_def by blast+
  show "succeeds (store dst 0 bs w2) (\<lambda>w. Q (r, outl, w))"
  proof (rule step_store [OF assms(3) t(1) assms(6)])
    show "(0 :: int) \<le> 0" and "nat 0 + length bs \<le> m" using b(1) assms(7) by simp_all
    fix w3 cs
    assume t3: "touched S w w3" "touched S w2 w3"
      and cs: "lookup dst w2 = Some (Bytes cs)"
        "\<And>cs'. cells_write 0 bs cs = Some cs' \<Longrightarrow> lookup dst w3 = Some (Bytes cs')"
    have room: "length bs \<le> length cs"
      using has_room_touched [OF assms(3) t(1)] cs(1) b(1) assms(7) by (auto simp: has_room_def)
    have "has_bytes dst (length bs) w3"
      using cs(2) room by (auto simp: has_bytes_def)
    with b(2) have "r = 1 \<Longrightarrow> outl = int (length inp) \<and> has_bytes dst (length inp) w3" by simp
    from assms(8) [OF t3(1) touched_trans [OF t(2) t3(2)] this] show "Q (r, outl, w3)" .
  qed
qed

lemma step_final:
  assumes "final_ok f" and "has_obj c w" and "has_room dst m w" and "touched S w w1"
    and "c \<in> S" and "dst \<in> S" and "0 \<le> off" and "nat off \<le> m"
    and "\<And>r len w2. touched S w w2 \<Longrightarrow> touched S w1 w2 \<Longrightarrow> Q (r, len, w2)"
  shows "succeeds (call_writing c dst off f w1) Q"
  unfolding call_writing_def succeeds_bind
proof (rule step_obj [OF assms(2,4,5)], clarsimp)
  fix r outl bs w2 x l x' l'
  assume t: "touched S w w2" "touched S w1 w2" and f: "f x l = ((r, outl, bs), x', l')"
  from assms(1) f have b: "bs = []" unfolding final_ok_def by blast
  show "succeeds (store dst off bs w2) (\<lambda>w. Q (r, outl, w))"
  proof (rule step_store [OF assms(3) t(1) assms(6,7)])
    show "nat off + length bs \<le> m" using assms(8) b by simp
    fix w3 cs
    assume "touched S w w3" "touched S w2 w3"
    from assms(9) [OF this(1) touched_trans [OF t(2) this(2)]] show "Q (r, outl, w3)" .
  qed
qed

lemma bind_update:
  assumes "update_ok f" and "has_obj c w" and "has_room dst m w" and "touched S w w1"
    and "c \<in> S" and "dst \<in> S" and "length inp \<le> m"
    and "\<And>w2. touched S w w2 \<Longrightarrow> Q (fail w2)"
    and "\<And>w2. touched S w w2 \<Longrightarrow> has_bytes dst (length inp) w2 \<Longrightarrow>
      succeeds (g (int (length inp)) w2) Q"
  shows "succeeds (call_writing c dst 0 (f True inp) w1 \<bind>
    (\<lambda>(r, len, w). if r \<noteq> (1 :: int) then Some (fail w) else g len w)) Q"
  unfolding succeeds_bind by (rule step_update [where f = f, OF assms(1-7)]) (simp add: assms(8,9))

lemma bind_final:
  assumes "final_ok f" and "has_obj c w" and "has_room dst m w" and "touched S w w1"
    and "c \<in> S" and "dst \<in> S" and "0 \<le> off" and "nat off \<le> m"
    and "\<And>w2. touched S w w2 \<Longrightarrow> Q (fail w2)"
    and "\<And>w2. touched S w w2 \<Longrightarrow> touched S w1 w2 \<Longrightarrow> succeeds (g w2) Q"
  shows "succeeds (call_writing c dst off f w1 \<bind>
    (\<lambda>(r, _, w). if r \<noteq> (1 :: int) then Some (fail w) else g w)) Q"
  unfolding succeeds_bind by (rule step_final [OF assms(1-8)]) (simp add: assms(9,10))

lemma evp_okD:
  assumes "evp_ok L"
  shows "update_ok (evp_enc_update L)" "update_ok (evp_dec_update L)"
    "final_ok (evp_enc_final L)" "final_ok (evp_dec_final L)"
    "evp_get_tag L n x l = ((r, bs), x', l') \<Longrightarrow> length bs \<le> n"
    "evp_get_tag L n x l = ((1, bs), x', l') \<Longrightarrow> length bs = n"
    "length a = length b \<Longrightarrow> crypto_memcmp L a b = 0 \<longleftrightarrow> a = b"
  using assms unfolding evp_ok_def by blast+

lemma seal_calls_ok:
  assumes "evp_ok L" and "has_obj c w" and "has_bytes (b_aad st) (unat (b_aad_size st)) w"
    and "has_bytes (b_plaintext st) (unat (b_message_size st)) w"
    and "has_room dst (unat (b_message_size st)) w"
  shows "succeeds (seal_calls L st c dst w) (\<lambda>(ok, tag, w').
    touched {c, dst} w w' \<and> length tag \<le> OFB_TAG_SIZE \<and>
    (ok \<longrightarrow> length tag = OFB_TAG_SIZE \<and> has_bytes dst (unat (b_message_size st)) w'))"
proof -
  note obj = bind_obj [OF assms(2), where S = "{c, dst}"]
    and obj3 = bind_obj3 [OF assms(2), where S = "{c, dst}"]
    and update = bind_update [OF evp_okD(1) [OF assms(1)] assms(2,5), where S = "{c, dst}"]
    and final = bind_final [OF evp_okD(3) [OF assms(1)] assms(2,5), where S = "{c, dst}"]
    and tag = step_obj [OF assms(2), where S = "{c, dst}"]
  show ?thesis
    unfolding seal_calls_def
    apply (rule obj [OF touched_refl], simp, simp)
    apply (rule obj, assumption, simp, simp)
    apply (rule obj, assumption, simp, simp)
    apply (rule bind_load [OF assms(3)], assumption, simp)
    apply (rule obj3, assumption, simp, simp)
    apply (rule bind_load [OF assms(4)], assumption, simp)
    apply (rule update, assumption, simp, simp, simp, simp)
    apply (rule final, assumption, simp, simp, simp, simp, simp)
    apply (unfold succeeds_bind, rule tag, assumption, simp)
    apply (clarsimp, intro conjI impI)
      apply (blast dest: evp_okD(5) [OF assms(1)])
     apply (blast dest: evp_okD(6) [OF assms(1)])
    apply (blast intro: has_bytes_touched)
    done
qed

lemma open_calls_ok:
  assumes "evp_ok L" and "has_obj c w" and "has_bytes (b_aad st) (unat (b_aad_size st)) w"
    and "has_bytes src (unat (b_message_size st)) w"
    and "has_room dst (unat (b_message_size st)) w"
  shows "succeeds (open_calls L st c src tag dst w) (\<lambda>(ok, w').
    touched {c, dst} w w' \<and> (ok \<longrightarrow> has_bytes dst (unat (b_message_size st)) w'))"
proof -
  note obj = bind_obj [OF assms(2), where S = "{c, dst}"]
    and obj3 = bind_obj3 [OF assms(2), where S = "{c, dst}"]
    and update = bind_update [OF evp_okD(2) [OF assms(1)] assms(2,5), where S = "{c, dst}"]
    and final = step_final [OF evp_okD(4) [OF assms(1)] assms(2,5), where S = "{c, dst}"]
  show ?thesis
    unfolding open_calls_def
    apply (rule obj [OF touched_refl], simp, simp)
    apply (rule obj, assumption, simp, simp)
    apply (rule obj, assumption, simp, simp)
    apply (rule bind_load [OF assms(3)], assumption, simp)
    apply (rule obj3, assumption, simp, simp)
    apply (rule bind_load [OF assms(4)], assumption, simp)
    apply (rule update, assumption, simp, simp, simp, simp)
    apply (rule obj, assumption, simp, simp)
    apply (unfold succeeds_bind, rule final, assumption, simp, simp, simp, simp)
    apply (auto dest: has_bytes_touched)
    done
qed

subsection \<open>A context for one message\<close>

lemma ctx_new_cases:
  assumes "EVP_CIPHER_CTX_new L w = (c, w1)"
  obtains x l where "new_obj x (w\<lparr>w_lib := l\<rparr>) = (c, w1)"
  using assms by (auto simp: EVP_CIPHER_CTX_new_def split: prod.splits)

lemma ctx_new_ok:
  assumes "EVP_CIPHER_CTX_new L w = (c, w1)" and "owned w0 ps w"
  shows "owned w0 (c # ps) w1" and "c \<noteq> NULL \<Longrightarrow> has_obj c w1"
    and "\<forall>q. q \<noteq> c \<longrightarrow> lookup q w1 = lookup q w" and "lookup c w = None" and "io w1 = io w"
proof -
  obtain x l where new: "new_obj x (w\<lparr>w_lib := l\<rparr>) = (c, w1)" using assms(1) by (rule ctx_new_cases)
  have own: "owned w0 ps (w\<lparr>w_lib := l\<rparr>)" using assms(2) by simp
  note n = owned_new_obj [OF own new]
  show "owned w0 (c # ps) w1" by (rule n(1))
  show "c \<noteq> NULL \<Longrightarrow> has_obj c w1" using n(3) by (auto simp: has_obj_def)
  show "\<forall>q. q \<noteq> c \<longrightarrow> lookup q w1 = lookup q w" "lookup c w = None" "io w1 = io w"
    using n(4-6) by simp_all
qed

lemma ctx_free_ok:
  assumes "owned w0 (c # ps) w" and "c \<noteq> NULL \<longrightarrow> has_obj c w"
  shows "succeeds (EVP_CIPHER_CTX_free L c w) (\<lambda>w'. owned w0 ps w' \<and>
    (\<forall>q \<in> set ps. lookup q w' = lookup q w) \<and> io w' = io w)"
proof -
  have "succeeds (free_obj c (w\<lparr>w_lib := l\<rparr>)) (\<lambda>w'. owned w0 ps w' \<and>
    (\<forall>q \<in> set ps. lookup q w' = lookup q w) \<and> io w' = io w)" for l
    by (rule succeeds_mono [OF owned_free_obj [where w = "w\<lparr>w_lib := l\<rparr>", OF _ _]])
      (use assms in \<open>auto simp: has_obj_def\<close>)
  from this [of "w_lib w"] this show ?thesis
    by (auto simp: EVP_CIPHER_CTX_free_def split: option.split)
qed

lemma ctx_free_heap:
  assumes "EVP_CIPHER_CTX_free L c w = Some w'"
  shows "io w' = io w" and "\<forall>q. lookup q w' = (if q = c then None else lookup q w)"
    and "fresh w \<Longrightarrow> fresh w'"
  using assms
  by (auto simp: EVP_CIPHER_CTX_free_def free_obj_def lookup_def fresh_def
      split: option.splits ptr.splits if_splits)

text \<open>
  A context that lives for one sequence of calls leaves no trace but the written block.
\<close>

lemma ctx_scope:
  assumes "fresh w" and "EVP_CIPHER_CTX_new L w = (c, w1)" and "touched {c, dst} w1 w2"
  shows "succeeds (EVP_CIPHER_CTX_free L c w2) (\<lambda>w3. touched {dst} w w3 \<and>
    (\<forall>q. q \<noteq> c \<longrightarrow> lookup q w3 = lookup q w2))"
proof -
  have new: "owned w [c] w1" "c \<noteq> NULL \<Longrightarrow> has_obj c w1"
    "\<forall>q. q \<noteq> c \<longrightarrow> lookup q w1 = lookup q w" "lookup c w = None" "io w1 = io w"
    using ctx_new_ok [OF assms(2) owned_refl [OF assms(1)]] by blast+
  have obj: "c \<noteq> NULL \<longrightarrow> has_obj c w2" using new(2) has_obj_touched [OF _ assms(3)] by blast
  have "succeeds (EVP_CIPHER_CTX_free L c w2) (\<lambda>_. True)"
    using obj by (cases c)
      (auto simp: EVP_CIPHER_CTX_free_def free_obj_def has_obj_def lookup_def split: option.split)
  then obtain w3 where w3: "EVP_CIPHER_CTX_free L c w2 = Some w3" by (auto elim: succeedsE)
  note f = ctx_free_heap [OF w3]
  have kind: "same_kind (lookup q w) (lookup q w3)" for q
    using f(2) new(3,4) touched_kind [OF assms(3), of q] by (cases "q = c") auto
  have own: "owned w0 ps w3" if "{dst} \<subseteq> set ps" "owned w0 ps w" for w0 ps
  proof -
    have "owned w0 (c # ps) w1" using ctx_new_ok(1) [OF assms(2) that(2)] .
    then have "owned w0 (c # ps) w2"
      using touched_owned [OF assms(3)] that(1) by auto
    from ctx_free_ok [OF this obj, of L] w3 show ?thesis by simp
  qed
  have "touched {dst} w w3"
    unfolding touched_def
    using f new(1,3-5) assms(1) touched_io [OF assms(3)] touched_fresh [OF assms(3) owned_fresh]
      touched_lookup [OF assms(3)] kind own
    by auto
  then show ?thesis using w3 f(2) by simp
qed

lemma encrypt_once_ok:
  assumes "evp_ok L" and "fresh w" and "lookup state w = Some (Struct st)"
    and "has_bytes (b_aad st) (unat (b_aad_size st)) w"
    and "has_bytes (b_plaintext st) (unat (b_message_size st)) w"
    and "has_room dst (unat (b_message_size st)) w"
  shows "succeeds (encrypt_once L state dst w) (\<lambda>(r, tag, w').
    touched {dst} w w' \<and> length tag \<le> OFB_TAG_SIZE \<and>
    (r = 0 \<longrightarrow> length tag = OFB_TAG_SIZE \<and> has_bytes dst (unat (b_message_size st)) w'))"
proof -
  obtain c w1 where c: "EVP_CIPHER_CTX_new L w = (c, w1)" by (cases "EVP_CIPHER_CTX_new L w")
  have new: "c \<noteq> NULL \<Longrightarrow> has_obj c w1" "\<forall>q. q \<noteq> c \<longrightarrow> lookup q w1 = lookup q w" "lookup c w = None"
    using ctx_new_ok [OF c owned_refl [OF assms(2)]] by blast+
  note kept = has_kept [OF new(2,3)]
  have dst: "dst \<noteq> c" using assms(6) new(3) by (auto simp: has_room_def)
  have "succeeds (if c = NULL then Some (False, [], w1) else seal_calls L st c dst w1)
    (\<lambda>(ok, tag, w'). touched {c, dst} w1 w' \<and> length tag \<le> OFB_TAG_SIZE \<and>
    (ok \<longrightarrow> length tag = OFB_TAG_SIZE \<and> has_bytes dst (unat (b_message_size st)) w'))"
  proof (cases "c = NULL")
    case False
    show ?thesis
      using False seal_calls_ok [OF assms(1) new(1) [OF False] kept(1) [OF assms(4)]
          kept(1) [OF assms(5)] kept(2) [OF assms(6)]] by simp
  qed simp
  then obtain ok tag w2 where run:
    "(if c = NULL then Some (False, [], w1) else seal_calls L st c dst w1) = Some (ok, tag, w2)"
    "touched {c, dst} w1 w2" "length tag \<le> OFB_TAG_SIZE"
    "ok \<Longrightarrow> length tag = OFB_TAG_SIZE \<and> has_bytes dst (unat (b_message_size st)) w2"
    by (auto elim!: succeedsE)
  from ctx_scope [OF assms(2) c run(2)] obtain w3 where
    w3: "EVP_CIPHER_CTX_free L c w2 = Some w3" "touched {dst} w w3"
      "\<forall>q. q \<noteq> c \<longrightarrow> lookup q w3 = lookup q w2"
    by (auto elim!: succeedsE)
  have "ok \<Longrightarrow> has_bytes dst (unat (b_message_size st)) w3"
    using run(4) w3(3) dst by (simp add: has_bytes_def)
  then show ?thesis
    using assms(3) c run w3 by (simp add: encrypt_once_def get_struct_def)
qed

lemma decrypt_once_ok:
  assumes "evp_ok L" and "fresh w" and "lookup state w = Some (Struct st)"
    and "has_bytes (b_aad st) (unat (b_aad_size st)) w"
    and "has_bytes src (unat (b_message_size st)) w"
    and "has_room dst (unat (b_message_size st)) w"
  shows "succeeds (decrypt_once L state src tag dst w) (\<lambda>(r, w').
    touched {dst} w w' \<and> (r = 0 \<longrightarrow> has_bytes dst (unat (b_message_size st)) w'))"
proof -
  obtain c w1 where c: "EVP_CIPHER_CTX_new L w = (c, w1)" by (cases "EVP_CIPHER_CTX_new L w")
  have new: "c \<noteq> NULL \<Longrightarrow> has_obj c w1" "\<forall>q. q \<noteq> c \<longrightarrow> lookup q w1 = lookup q w" "lookup c w = None"
    using ctx_new_ok [OF c owned_refl [OF assms(2)]] by blast+
  note kept = has_kept [OF new(2,3)]
  have dst: "dst \<noteq> c" using assms(6) new(3) by (auto simp: has_room_def)
  have "succeeds (if c = NULL then Some (False, w1) else open_calls L st c src tag dst w1)
    (\<lambda>(ok, w'). touched {c, dst} w1 w' \<and> (ok \<longrightarrow> has_bytes dst (unat (b_message_size st)) w'))"
  proof (cases "c = NULL")
    case False
    show ?thesis
      using False open_calls_ok [OF assms(1) new(1) [OF False] kept(1) [OF assms(4)]
          kept(1) [OF assms(5)] kept(2) [OF assms(6)]] by simp
  qed simp
  then obtain ok w2 where run:
    "(if c = NULL then Some (False, w1) else open_calls L st c src tag dst w1) = Some (ok, w2)"
    "touched {c, dst} w1 w2" "ok \<Longrightarrow> has_bytes dst (unat (b_message_size st)) w2"
    by (auto elim!: succeedsE)
  from ctx_scope [OF assms(2) c run(2)] obtain w3 where
    w3: "EVP_CIPHER_CTX_free L c w2 = Some w3" "touched {dst} w w3"
      "\<forall>q. q \<noteq> c \<longrightarrow> lookup q w3 = lookup q w2"
    by (auto elim!: succeedsE)
  have "ok \<Longrightarrow> has_bytes dst (unat (b_message_size st)) w3"
    using run(3) w3(3) dst by (simp add: has_bytes_def)
  then show ?thesis
    using assms(3) c run w3 by (simp add: decrypt_once_def get_struct_def)
qed

end
