(* ===== verification/Aead_Contract.thy ===== *)
theory Aead_Contract
  imports Aead_Calls
begin

unbundle bit_operations_syntax

text \<open>
  The AEAD backend keeps the contract of \<open>bench_backend\<close>: what creation owns, what verification
  establishes, what a batch keeps and what destruction releases; its properties, and a small
  library on which its definitions run.
\<close>

subsection \<open>Creating and destroying\<close>

definition parts :: "ptr \<Rightarrow> 'k ofb_backend \<Rightarrow> ptr list" where
  "parts p st = [b_ctx st, b_aad st, b_plaintext st, b_ciphertext st, b_output st, p]"

lemma destroy_ok:
  assumes "owned w0 (parts p st) w" and "lookup p w = Some (Struct st)"
    and "b_ctx st \<noteq> NULL \<longrightarrow> has_obj (b_ctx st) w"
    and "\<forall>q \<in> {b_aad st, b_plaintext st, b_ciphertext st, b_output st}. \<not> is_obj (lookup q w)"
  shows "succeeds (ofb_backend_destroy L p w) (\<lambda>w'. io w' = io w \<and> owned w0 [] w')"
proof -
  have p: "p \<noteq> NULL" using assms(2) by auto
  from ctx_free_ok [OF assms(1) [unfolded parts_def] assms(3), of L] obtain w1 where
    w1: "EVP_CIPHER_CTX_free L (b_ctx st) w = Some w1" "io w1 = io w"
      "owned w0 [b_aad st, b_plaintext st, b_ciphertext st, b_output st, p] w1"
      "\<forall>q \<in> {b_aad st, b_plaintext st, b_ciphertext st, b_output st, p}. lookup q w1 = lookup q w"
    by (auto elim!: succeedsE)
  from owned_free [OF w1(3)] assms(4) w1(4) obtain w2 where
    w2: "free (b_aad st) w1 = Some w2" "io w2 = io w"
      "owned w0 [b_plaintext st, b_ciphertext st, b_output st, p] w2"
      "\<forall>q \<in> {b_plaintext st, b_ciphertext st, b_output st, p}. lookup q w2 = lookup q w"
    using w1(2) by (auto elim!: succeedsE)
  from owned_free [OF w2(3)] assms(4) w2(4) obtain w3 where
    w3: "free (b_plaintext st) w2 = Some w3" "io w3 = io w"
      "owned w0 [b_ciphertext st, b_output st, p] w3"
      "\<forall>q \<in> {b_ciphertext st, b_output st, p}. lookup q w3 = lookup q w"
    using w2(2) by (auto elim!: succeedsE)
  from owned_free [OF w3(3)] assms(4) w3(4) obtain w4 where
    w4: "free (b_ciphertext st) w3 = Some w4" "io w4 = io w"
      "owned w0 [b_output st, p] w4" "\<forall>q \<in> {b_output st, p}. lookup q w4 = lookup q w"
    using w3(2) by (auto elim!: succeedsE)
  from owned_free [OF w4(3)] assms(4) w4(4) obtain w5 where
    w5: "free (b_output st) w4 = Some w5" "io w5 = io w"
      "owned w0 [p] w5" "lookup p w5 = lookup p w"
    using w4(2) by (auto elim!: succeedsE)
  from owned_free [OF w5(3)] assms(2) w5(2,4) show ?thesis
    using p assms(2) w1(1) w2(1) w3(1) w4(1) w5(1)
    by (auto simp: ofb_backend_destroy_def get_struct_def elim!: succeeds_mono)
qed

text \<open>What the fields of a structure offer after the allocations, each only if not \<open>NULL\<close>.\<close>

definition blocks_ok :: "'k ofb_backend \<Rightarrow> ('k, 'c, 'l) aead_world \<Rightarrow> bool" where
  "blocks_ok st w \<longleftrightarrow>
     (b_ctx st \<noteq> NULL \<longrightarrow> has_obj (b_ctx st) w) \<and>
     (b_aad st \<noteq> NULL \<longrightarrow> has_bytes (b_aad st) (unat (b_aad_size st)) w) \<and>
     (b_plaintext st \<noteq> NULL \<longrightarrow> has_room (b_plaintext st) (unat (b_message_size st)) w) \<and>
     (b_ciphertext st \<noteq> NULL \<longrightarrow> has_room (b_ciphertext st) (unat (b_message_size st)) w) \<and>
     (b_output st \<noteq> NULL \<longrightarrow> has_room (b_output st) (unat (b_message_size st)) w)"

lemma blocks_not_obj:
  assumes "blocks_ok st w"
  shows "\<forall>q \<in> {b_aad st, b_plaintext st, b_ciphertext st, b_output st}. \<not> is_obj (lookup q w)"
  using assms bytes_not_obj [of "b_aad st" "unat (b_aad_size st)" w]
    room_not_obj [of _ "unat (b_message_size st)" w]
  unfolding blocks_ok_def by simp

lemma blocks_ok_touched: "blocks_ok st w \<Longrightarrow> touched S w w' \<Longrightarrow> blocks_ok st w'"
  unfolding blocks_ok_def by (blast intro: has_touched)

lemma create_blocks_ok:
  assumes "owned w0 [p] w" and "lookup p w = Some b" and "\<not> p_message_size q > INT_MAX"
    and "create_blocks L q w = (st, w')"
  shows "owned w0 (parts p st) w'" and "lookup p w' = Some b" and "io w' = io w"
    and "blocks_ok st w'" and "b_message_size st = p_message_size q"
    and "b_aad_size st = p_aad_size q" and "length (b_tag st) = OFB_TAG_SIZE"
    and "b_operation st = p_operation q" and "b_cipher st = find_cipher L (p_algorithm q)"
proof -
  let ?n = "p_message_size q" and ?a = "p_aad_size q"
  let ?n1 = "if ?n = 0 then 1 else ?n" and ?a1 = "if ?a = 0 then 1 else ?a"
  let ?n16 = "?n + of_nat OFB_TAG_SIZE"
  obtain c w1 where c: "EVP_CIPHER_CTX_new L w = (c, w1)" by (cases "EVP_CIPHER_CTX_new L w")
  obtain aad w2 where aad: "calloc ?a1 1 w1 = (aad, w2)" by (cases "calloc ?a1 1 w1")
  obtain pt w3 where pt: "malloc ?n1 w2 = (pt, w3)" by (cases "malloc ?n1 w2")
  obtain ct w4 where ct: "malloc ?n16 w3 = (ct, w4)" by (cases "malloc ?n16 w3")
  obtain out w5 where out: "malloc ?n16 w4 = (out, w5)" by (cases "malloc ?n16 w4")
  have st: "st = zero_backend\<lparr>b_cipher := find_cipher L (p_algorithm q), b_ctx := c,
      b_operation := p_operation q, b_message_size := ?n, b_aad_size := ?a, b_aad := aad,
      b_plaintext := pt, b_ciphertext := ct, b_output := out\<rparr>" and w': "w' = w5"
    using assms(4) by (auto simp: create_blocks_def c aad pt ct out)
  note c' = ctx_new_ok [OF c assms(1)]
  note aad' = calloc_ok [OF c'(1) aad]
  note pt' = malloc_ok [OF aad'(1) pt]
  note ct' = malloc_ok [OF pt'(1) ct]
  note out' = malloc_ok [OF ct'(1) out]
  note k1 = has_kept [OF c'(3,4)] and k2 = has_kept [OF aad'(3,4)] and k3 = has_kept [OF pt'(3,4)]
    and k4 = has_kept [OF ct'(3,4)] and k5 = has_kept [OF out'(3,4)]
  have "unat ?n + 16 < 2 ^ 64" using unat_INT_MAX_le [OF assms(3)] by simp
  then have n16: "unat ?n16 = unat ?n + 16"
    by (simp add: OFB_TAG_SIZE_def unat_add_exact)
  have room: "has_room r (unat ?n1) v \<Longrightarrow> has_room r (unat ?n) v" for r v
    by (auto simp: has_room_def split: if_splits)
  have room16: "has_room r (unat ?n16) v \<Longrightarrow> has_room r (unat ?n) v" for r v
    unfolding n16 by (auto simp: has_room_def)
  have bytes: "has_bytes r (unat ?a1) v \<Longrightarrow> has_bytes r (unat ?a) v" for r v
    by (auto simp: has_bytes_def split: if_splits)
  show "owned w0 (parts p st) w'"
    by (rule owned_reorder [OF out'(1) [folded w']]) (auto simp: parts_def st)
  show "lookup p w' = Some b"
    unfolding w' using assms(2) by (intro k5(4) k4(4) k3(4) k2(4) k1(4))
  show "io w' = io w" by (simp add: w' out'(5) ct'(5) pt'(5) aad'(5) c'(5))
  show "blocks_ok st w'"
    unfolding blocks_ok_def w' st
    using c'(2) aad'(2) pt'(2) ct'(2) out'(2)
    by (auto intro: k5 k4 k3 k2 room room16 bytes)
  show "b_message_size st = ?n" "b_aad_size st = ?a" "length (b_tag st) = OFB_TAG_SIZE"
    "b_operation st = p_operation q" "b_cipher st = find_cipher L (p_algorithm q)"
    by (simp_all add: st zero_backend_def)
qed


text \<open>
  A backend that creation returned, and one that has been verified: its output block holds a
  decrypted message. \<open>aead_valid\<close> is what the command line guarantees of the parameters.
\<close>

definition backend_ok :: "'k ofb_backend \<Rightarrow> ('k, 'c, 'l) aead_world \<Rightarrow> bool" where
  "backend_ok st w \<longleftrightarrow>
     b_message_size st \<noteq> 0 \<and> unat (b_message_size st) < 2 ^ 31 \<and> unat (b_aad_size st) < 2 ^ 31 \<and>
     length (b_tag st) = OFB_TAG_SIZE \<and> has_obj (b_ctx st) w \<and>
     has_bytes (b_aad st) (unat (b_aad_size st)) w \<and>
     has_bytes (b_plaintext st) (unat (b_message_size st)) w \<and>
     has_bytes (b_ciphertext st) (unat (b_message_size st)) w \<and>
     has_room (b_output st) (unat (b_message_size st)) w"

definition backend_at ::
  "('k, 'c, 'l) aead_world \<Rightarrow> ptr \<Rightarrow> 'k ofb_backend \<Rightarrow> ('k, 'c, 'l) aead_world \<Rightarrow> bool" where
  "backend_at w0 p st w \<longleftrightarrow>
     lookup p w = Some (Struct st) \<and> owned w0 (parts p st) w \<and> backend_ok st w"

definition aead_holds ::
  "('k, 'c, 'l) aead_world \<Rightarrow> ptr \<Rightarrow> ('k, 'c, 'l) aead_world \<Rightarrow> bool" where
  "aead_holds w0 p w \<longleftrightarrow> (\<exists>st. backend_at w0 p st w)"

definition aead_ready ::
  "('k, 'c, 'l) aead_world \<Rightarrow> ptr \<Rightarrow> ('k, 'c, 'l) aead_world \<Rightarrow> bool" where
  "aead_ready w0 p w \<longleftrightarrow>
     (\<exists>st. backend_at w0 p st w \<and> has_bytes (b_output st) (unat (b_message_size st)) w)"

definition aead_valid :: "ofb_params \<Rightarrow> bool" where
  "aead_valid q \<longleftrightarrow> p_message_size q \<noteq> 0"

lemma backend_ok_touched: "backend_ok st w \<Longrightarrow> touched S w w' \<Longrightarrow> backend_ok st w'"
  unfolding backend_ok_def by (blast intro: has_touched)

text \<open>Fields that are neither pointers nor sizes may change.\<close>

lemma contents_update [simp]:
  "parts p (st\<lparr>b_tag := t\<rparr>) = parts p st"
  "parts p (st\<lparr>b_key := k, b_nonce := n\<rparr>) = parts p st"
  "parts p (st\<lparr>b_checksum := x\<rparr>) = parts p st"
  "blocks_ok (st\<lparr>b_tag := t\<rparr>) w = blocks_ok st w"
  "blocks_ok (st\<lparr>b_key := k, b_nonce := n\<rparr>) w = blocks_ok st w"
  "backend_ok (st\<lparr>b_checksum := x\<rparr>) w = backend_ok st w"
  "length t = OFB_TAG_SIZE \<Longrightarrow> length (b_tag st) = OFB_TAG_SIZE \<Longrightarrow>
    backend_ok (st\<lparr>b_tag := t\<rparr>) w = backend_ok st w"
  by (simp_all add: parts_def blocks_ok_def backend_ok_def)

lemma array_write_ok:
  "length t \<le> length old \<Longrightarrow> \<exists>t'. array_write t old = Some t' \<and> length t' = length old"
  by (simp add: array_write_def)

lemma blocks_destroy:
  assumes "owned w0 (parts p st) w" and "lookup p w = Some (Struct st)" and "blocks_ok st w"
  shows "succeeds (ofb_backend_destroy L p w) (\<lambda>w'. io w' = io w \<and> owned w0 [] w')"
  using destroy_ok [OF assms(1,2) _ blocks_not_obj [OF assms(3)]] assms(3)
  by (simp add: blocks_ok_def)

lemma plaintext_fill_length [simp]: "length (plaintext_fill n) = unat n"
  by (simp add: plaintext_fill_def)

lemma create_fill_ok:
  assumes "evp_ok L" and "owned w0 (parts p st) w" and "lookup p w = Some (Struct st)"
    and "blocks_ok st w" and "b_message_size st \<noteq> 0" and "length (b_tag st) = OFB_TAG_SIZE"
    and "NULL \<notin> set (parts p st)" and "unat (b_message_size st) < 2 ^ 31"
    and "unat (b_aad_size st) < 2 ^ 31"
  shows "succeeds (create_fill L p st w) (\<lambda>(r, p', w'). io w' = io w \<and>
    (if r = 0 then p' = p \<and> aead_holds w0 p w' else p' = NULL \<and> owned w0 [] w'))"
proof -
  let ?n = "unat (b_message_size st)" and ?st = "st\<lparr>b_key := key_fill, b_nonce := nonce_fill\<rparr>"
  have nn: "b_ctx st \<noteq> NULL" "b_aad st \<noteq> NULL" "b_plaintext st \<noteq> NULL" "b_ciphertext st \<noteq> NULL"
    "b_output st \<noteq> NULL" "p \<noteq> NULL"
    using assms(7) unfolding parts_def by (auto simp del: not_None_eq)
  have b: "has_obj (b_ctx st) w" "has_bytes (b_aad st) (unat (b_aad_size st)) w"
    "has_room (b_plaintext st) ?n w" "has_room (b_ciphertext st) ?n w" "has_room (b_output st) ?n w"
    using assms(4) nn unfolding blocks_ok_def by simp_all
  have sub: "{b_plaintext st} \<subseteq> set (parts p st)" "{b_ciphertext st} \<subseteq> set (parts p st)"
    "{p} \<subseteq> set (parts p st)" by (simp_all add: parts_def)
  obtain w1 where w1: "store (b_plaintext st) 0 (plaintext_fill (b_message_size st)) w = Some w1"
    "touched {b_plaintext st} w w1" "has_bytes (b_plaintext st) ?n w1"
  proof -
    obtain cs where cs: "lookup (b_plaintext st) w = Some (Bytes cs)" "?n \<le> length cs"
      using b(3) by (auto simp: has_room_def)
    from store_ok [OF cs(1), of 0 "plaintext_fill (b_message_size st)"] cs(2) obtain cs' where
      "cells_write 0 (plaintext_fill (b_message_size st)) cs = Some cs'"
      "store (b_plaintext st) 0 (plaintext_fill (b_message_size st)) w =
         Some (replace (b_plaintext st) (Bytes cs') w)"
      "touched {b_plaintext st} w (replace (b_plaintext st) (Bytes cs') w)" by auto
    then show ?thesis using cs nn(3) by (intro that) (auto simp: has_bytes_def)
  qed
  have l1: "lookup p w1 = Some (Struct st)"
    using touched_lookup [OF w1(2)] has_room_not_struct [OF b(3) assms(3)] assms(3) by simp
  define w2 where "w2 = replace p (Struct ?st) w1"
  note w2 = put_struct_ok [OF l1, of ?st, folded w2_def]
  have l2: "lookup p w2 = Some (Struct ?st)" using nn(6) by (simp add: w2_def)
  have own2: "owned w0 (parts p st) w2"
    using touched_owned [OF w2(2) touched_owned [OF w1(2) assms(2) sub(1)] sub(3)] .
  have b2: "has_obj (b_ctx st) w2" "has_bytes (b_aad st) (unat (b_aad_size st)) w2"
    "has_bytes (b_plaintext st) ?n w2" "has_room (b_ciphertext st) ?n w2"
    "has_room (b_output st) ?n w2"
    using b w1(3) by (blast intro: has_touched w1(2) w2(2))+
  have "succeeds (encrypt_once L p (b_ciphertext st) w2) (\<lambda>(r, tag, w').
    touched {b_ciphertext st} w2 w' \<and> length tag \<le> OFB_TAG_SIZE \<and>
    (r = 0 \<longrightarrow> length tag = OFB_TAG_SIZE \<and> has_bytes (b_ciphertext st) ?n w'))"
    using encrypt_once_ok [OF assms(1) owned_fresh [OF own2] l2] b2(2-4) by simp
  then obtain r tag w3 where w3: "encrypt_once L p (b_ciphertext st) w2 = Some (r, tag, w3)"
    "touched {b_ciphertext st} w2 w3" "length tag \<le> OFB_TAG_SIZE"
    "r = 0 \<Longrightarrow> has_bytes (b_ciphertext st) ?n w3"
    by (auto elim!: succeedsE)
  obtain t where t: "array_write tag (b_tag st) = Some t" "length t = OFB_TAG_SIZE"
    using array_write_ok [of tag "b_tag st"] w3(3) assms(6) by auto
  have l3: "lookup p w3 = Some (Struct ?st)"
    using touched_lookup [OF w3(2)] has_room_not_struct [OF b2(4) l2] l2 by simp
  define w4 where "w4 = replace p (Struct (?st\<lparr>b_tag := t\<rparr>)) w3"
  note w4 = put_struct_ok [OF l3, of "?st\<lparr>b_tag := t\<rparr>", folded w4_def]
  have l4: "lookup p w4 = Some (Struct (?st\<lparr>b_tag := t\<rparr>))" using nn(6) by (simp add: w4_def)
  have own4: "owned w0 (parts p st) w4"
    using touched_owned [OF w4(2) touched_owned [OF w3(2) own2 sub(2)] sub(3)] .
  have io: "io w4 = io w"
    using touched_io [OF w1(2)] touched_io [OF w2(2)] touched_io [OF w3(2)] touched_io [OF w4(2)]
    by simp
  have run: "create_fill L p st w = (if r \<noteq> 0 then do { w \<leftarrow> ofb_backend_destroy L p w4; Some (-1, NULL, w) }
     else Some (0, p, w4))"
    using w1(1) w2(1) w3(1) t(1) w4(1) by (simp add: create_fill_def)
  show ?thesis
  proof (cases "r = 0")
    case True
    have "backend_ok (?st\<lparr>b_tag := t\<rparr>) w4"
      unfolding backend_ok_def using assms(5,8,9) t(2) b2 w3(4) [OF True]
      by (auto intro: has_touched w3(2) w4(2))
    then have "aead_holds w0 p w4" using l4 own4 unfolding aead_holds_def backend_at_def by fastforce
    then show ?thesis using True run io by simp
  next
    case False
    have "blocks_ok (?st\<lparr>b_tag := t\<rparr>) w4"
      using blocks_ok_touched [OF blocks_ok_touched [OF blocks_ok_touched [OF blocks_ok_touched
        [OF assms(4) w1(2)] w2(2)] w3(2)] w4(2)] by simp
    then have "succeeds (ofb_backend_destroy L p w4) (\<lambda>w'. io w' = io w4 \<and> owned w0 [] w')"
      using own4 l4 by (intro blocks_destroy [where st = "?st\<lparr>b_tag := t\<rparr>"]) simp_all
    then show ?thesis using False run io by (auto elim!: succeedsE)
  qed
qed

lemma create_ok:
  assumes "evp_ok L" and "aead_valid q" and "fresh w"
  shows "succeeds (ofb_backend_create L q w) (\<lambda>(r, p, w'). io w' = io w \<and>
    (if r = 0 then aead_holds w p w' else p = NULL \<and> owned w [] w'))"
proof (cases "p_message_size q > INT_MAX \<or> p_aad_size q > INT_MAX")
  case True
  then show ?thesis using owned_refl [OF assms(3)] by (auto simp: ofb_backend_create_def)
next
  case sizes: False
  obtain p w1 where p: "alloc (Struct zero_backend) w = (p, w1)"
    by (cases "alloc (Struct zero_backend :: ('a ofb_backend, 'b) block) w")
  note a = owned_alloc [OF owned_refl [OF assms(3)] p]
  show ?thesis
  proof (cases "p = NULL")
    case True
    then show ?thesis using a(1,5) p sizes by (auto simp: ofb_backend_create_def)
  next
    case False
    note l1 = a(2) [OF False]
    obtain st w2 where cb: "create_blocks L q w1 = (st, w2)" by (cases "create_blocks L q w1")
    have "\<not> p_message_size q > INT_MAX" using sizes by simp
    note c = create_blocks_ok [OF a(1) l1 this cb]
    define w3 where "w3 = replace p (Struct st) w2"
    note w3 = put_struct_ok [OF c(2), of st, folded w3_def]
    have l3: "lookup p w3 = Some (Struct st)" using False by (simp add: w3_def)
    have own3: "owned w (parts p st) w3"
      by (rule touched_owned [OF w3(2) c(1)]) (simp add: parts_def)
    note b3 = blocks_ok_touched [OF c(4) w3(2)]
    have io: "io w3 = io w" using touched_io [OF w3(2)] c(3) a(5) by simp
    let ?fail = "b_cipher st = None \<or> b_ctx st = NULL \<or> b_aad st = NULL \<or> b_plaintext st = NULL \<or>
      b_ciphertext st = NULL \<or> b_output st = NULL"
    have run: "ofb_backend_create L q w = (if ?fail
       then do { w \<leftarrow> ofb_backend_destroy L p w3; Some (-1, NULL, w) } else create_fill L p st w3)"
      using sizes p False cb w3(1) by (simp add: ofb_backend_create_def)
    show ?thesis
    proof (cases ?fail)
      case True
      have "ofb_backend_create L q w = do { w \<leftarrow> ofb_backend_destroy L p w3; Some (-1, NULL, w) }"
        using run True by argo
      then show ?thesis using blocks_destroy [OF own3 l3 b3, of L] io
        by (auto elim!: succeedsE)
    next
      case nf: False
      then have "NULL \<notin> set (parts p st)" using False unfolding parts_def by auto
      moreover have "unat (p_message_size q) < 2 ^ 31" "unat (p_aad_size q) < 2 ^ 31"
        using sizes by (intro unat_INT_MAX_le; simp)+
      ultimately
      have "succeeds (create_fill L p st w3) (\<lambda>(r, p', w'). io w' = io w3 \<and>
        (if r = 0 then p' = p \<and> aead_holds w p w' else p' = NULL \<and> owned w [] w'))"
        using create_fill_ok [OF assms(1) own3 l3 b3] c(5-7) assms(2) by (simp add: aead_valid_def)
      moreover have "ofb_backend_create L q w = create_fill L p st w3"
        using run nf by argo
      ultimately show ?thesis using io by (auto elim!: succeeds_mono split: if_splits)
    qed
  qed
qed

subsection \<open>Verifying\<close>

lemma backend_atD:
  assumes "backend_at w0 p st w"
  shows "lookup p w = Some (Struct st)" "owned w0 (parts p st) w" "fresh w"
    "b_message_size st \<noteq> 0" "length (b_tag st) = OFB_TAG_SIZE" "has_obj (b_ctx st) w"
    "has_bytes (b_aad st) (unat (b_aad_size st)) w"
    "has_bytes (b_plaintext st) (unat (b_message_size st)) w"
    "has_bytes (b_ciphertext st) (unat (b_message_size st)) w"
    "has_room (b_output st) (unat (b_message_size st)) w"
  using assms unfolding backend_at_def backend_ok_def by (blast dest: owned_fresh)+

lemma backend_at_touched:
  assumes "backend_at w0 p st w" and "touched {b_ctx st, b_output st} w w'"
  shows "backend_at w0 p st w'"
proof -
  note a = backend_atD [OF assms(1)]
  have "p \<noteq> b_ctx st" "p \<noteq> b_output st"
    using a(1,6,10) by (auto simp: has_obj_def has_room_def)
  then have "lookup p w' = Some (Struct st)" using a(1) touched_lookup [OF assms(2)] by simp
  moreover have "owned w0 (parts p st) w'"
    by (rule touched_owned [OF assms(2) a(2)]) (simp add: parts_def)
  moreover have "backend_ok st w'"
    using assms(1) backend_ok_touched [OF _ assms(2)] by (simp add: backend_at_def)
  ultimately show ?thesis by (simp add: backend_at_def)
qed

lemma backend_at_output:
  "backend_at w0 p st w \<Longrightarrow> touched {b_output st} w w' \<Longrightarrow> backend_at w0 p st w'"
  by (blast intro: backend_at_touched touched_mono)

lemma verify_run:
  assumes "evp_ok L" and "backend_at w0 p st w"
  shows "succeeds (ofb_backend_verify L p w) (\<lambda>(r, w').
    touched {b_output st} w w' \<and> (r = 0 \<longrightarrow> has_bytes (b_output st) (unat (b_message_size st)) w' \<and>
      load (b_output st) 0 (unat (b_message_size st)) w' =
        load (b_plaintext st) 0 (unat (b_message_size st)) w' \<and>
      (\<exists>w1. encrypt_once L p (b_output st) w = Some (0, b_tag st, w1) \<and>
        load (b_output st) 0 (unat (b_message_size st)) w1 =
          load (b_ciphertext st) 0 (unat (b_message_size st)) w1)))"
proof -
  let ?n = "unat (b_message_size st)"
  note a = backend_atD [OF assms(2)]
  from encrypt_once_ok [OF assms(1) a(3,1,7,8,10)] obtain r tag w1 where
    e: "encrypt_once L p (b_output st) w = Some (r, tag, w1)" "touched {b_output st} w w1"
      "length tag \<le> OFB_TAG_SIZE"
      "r = 0 \<Longrightarrow> length tag = OFB_TAG_SIZE \<and> has_bytes (b_output st) ?n w1"
    by (auto elim!: succeedsE)
  let ?tagc = "map Some tag @ replicate (OFB_TAG_SIZE - length tag) (None :: u8 option)"
  have tagc: "cells_write 0 tag (replicate OFB_TAG_SIZE None) = Some ?tagc"
    using e(3) by simp
  note a1 = backend_atD [OF backend_at_output [OF assms(2) e(2)]]
  show ?thesis
  proof (cases "r = 0")
    case False
    then show ?thesis using a(1) e(1,2) tagc
      by (simp add: ofb_backend_verify_def get_struct_def Let_def)
  next
    case True
    note e4 = e(4) [OF True]
    obtain out where out: "load (b_output st) 0 ?n w1 = Some out" "length out = ?n"
      using has_bytes_load [of _ ?n w1 ?n] e4 by blast
    obtain ct where ct: "load (b_ciphertext st) 0 ?n w1 = Some ct" "length ct = ?n"
      using has_bytes_load [OF a1(9)] by blast
    have rd: "cells_read 0 OFB_TAG_SIZE ?tagc = Some tag"
      using e4 cells_read_map_Some [of tag OFB_TAG_SIZE "[]"] by simp
    note cmp1 = evp_okD(7) [OF assms(1), of out ct]
      and cmp2 = evp_okD(7) [OF assms(1), of tag "b_tag st"]
    show ?thesis
    proof (cases "out = ct \<and> tag = b_tag st")
      case False
      then show ?thesis using a(1) e True tagc out ct rd cmp1 cmp2 a(5) e4
        by (auto simp: ofb_backend_verify_def get_struct_def Let_def)
    next
      case same: True
      from decrypt_once_ok [OF assms(1) a1(3,1,7,9,10), of "b_tag st"] obtain r2 w2 where
        d: "decrypt_once L p (b_ciphertext st) (b_tag st) (b_output st) w1 = Some (r2, w2)"
          "touched {b_output st} w1 w2" "r2 = 0 \<Longrightarrow> has_bytes (b_output st) ?n w2"
        by (auto elim!: succeedsE)
      note t2 = touched_trans [OF e(2) d(2)]
      note a2 = backend_atD [OF backend_at_output [OF assms(2) t2]]
      have run: "ofb_backend_verify L p w = (if r2 \<noteq> 0 then Some (-1, w2) else do {
         output \<leftarrow> load (b_output st) 0 ?n w2;
         plaintext \<leftarrow> load (b_plaintext st) 0 ?n w2;
         if crypto_memcmp L output plaintext \<noteq> 0 then Some (-1, w2) else Some (0, w2) })"
        using a(1) e True tagc out ct rd cmp1 cmp2 same a(5) e4 d(1)
        by (simp add: ofb_backend_verify_def get_struct_def Let_def)
      show ?thesis
      proof (cases "r2 = 0")
        case False
        then show ?thesis using run t2 by simp
      next
        case r2: True
        obtain o2 where o2: "load (b_output st) 0 ?n w2 = Some o2" "length o2 = ?n"
          using has_bytes_load [of _ ?n w2 ?n] d(3) [OF r2] by blast
        obtain pt where pt: "load (b_plaintext st) 0 ?n w2 = Some pt" "length pt = ?n"
          using has_bytes_load [OF a2(8)] by blast
        have "crypto_memcmp L o2 pt = 0 \<longleftrightarrow> o2 = pt"
          using evp_okD(7) [OF assms(1)] o2(2) pt(2) by simp
        then show ?thesis
          using run r2 t2 d(3) [OF r2] o2 pt e(1) True same out ct by simp
      qed
    qed
  qed
qed

lemma verify_ok:
  assumes "evp_ok L" and "aead_holds w0 p w"
  shows "succeeds (ofb_backend_verify L p w) (\<lambda>(r, w').
    io w' = io w \<and> aead_holds w0 p w' \<and> (r = 0 \<longrightarrow> aead_ready w0 p w'))"
proof -
  obtain st where st: "backend_at w0 p st w" using assms(2) by (auto simp: aead_holds_def)
  show ?thesis
    by (rule succeeds_mono [OF verify_run [OF assms(1) st]])
      (auto simp: aead_holds_def aead_ready_def touched_io dest: backend_at_output [OF st])
qed

subsection \<open>Running\<close>

lemma batch_loop_ok:
  assumes "evp_ok L" and "aead_ready w0 p w"
  shows "succeeds (batch_loop L p n w) (\<lambda>(r, w'). io w' = io w \<and> aead_ready w0 p w')"
  using assms(2)
proof (induction n arbitrary: w)
  case (Suc n)
  obtain st where st: "backend_at w0 p st w" "has_bytes (b_output st) (unat (b_message_size st)) w"
    using Suc.prems by (auto simp: aead_ready_def)
  note a = backend_atD [OF st(1)]
  show ?case
  proof (cases "b_operation st")
    case OFB_SEAL
    from seal_calls_ok [OF assms(1) a(6,7,8,10)] obtain ok tag w1 where
      s: "seal_calls L st (b_ctx st) (b_output st) w = Some (ok, tag, w1)"
        "touched {b_ctx st, b_output st} w w1" "length tag \<le> OFB_TAG_SIZE"
      by (auto elim!: succeedsE)
    obtain t where t: "array_write tag (b_tag st) = Some t" "length t = OFB_TAG_SIZE"
      using array_write_ok [of tag "b_tag st"] s(3) a(5) by auto
    note st1 = backend_at_touched [OF st(1) s(2)]
    define w2 where "w2 = replace p (Struct (st\<lparr>b_tag := t\<rparr>)) w1"
    note w2 = put_struct_ok [OF backend_atD(1) [OF st1], of "st\<lparr>b_tag := t\<rparr>", folded w2_def]
    have "backend_at w0 p (st\<lparr>b_tag := t\<rparr>) w2"
    proof -
      have "lookup p w2 = Some (Struct (st\<lparr>b_tag := t\<rparr>))"
        using backend_atD(1) [OF st1] by (auto simp: w2_def)
      moreover have "owned w0 (parts p st) w2"
        by (rule touched_owned [OF w2(2) backend_atD(2) [OF st1]]) (simp add: parts_def)
      moreover have "backend_ok st w2"
        using backend_ok_touched [OF _ w2(2)] st1 by (simp add: backend_at_def)
      ultimately show ?thesis using t(2) a(5) by (simp add: backend_at_def)
    qed
    moreover have "has_bytes (b_output st) (unat (b_message_size st)) w2"
      using st(2) by (blast intro: has_touched s(2) w2(2))
    ultimately have "aead_ready w0 p w2" unfolding aead_ready_def by fastforce
    moreover have "io w2 = io w" using touched_io [OF s(2)] touched_io [OF w2(2)] by simp
    ultimately show ?thesis
      using a(1) s(1) t(1) w2(1) Suc.IH [of w2] OFB_SEAL by (simp add: get_struct_def)
  next
    case OFB_OPEN
    from open_calls_ok [OF assms(1) a(6,7,9,10), of "b_tag st"] obtain ok w1 where
      s: "open_calls L st (b_ctx st) (b_ciphertext st) (b_tag st) (b_output st) w = Some (ok, w1)"
        "touched {b_ctx st, b_output st} w w1"
      by (auto elim!: succeedsE)
    have "aead_ready w0 p w1"
      using backend_at_touched [OF st(1) s(2)] has_bytes_touched [OF st(2) s(2)]
      by (auto simp: aead_ready_def)
    then show ?thesis
      using a(1) s(1) touched_io [OF s(2)] Suc.IH [of w1] OFB_OPEN by (simp add: get_struct_def)
  qed
qed simp

lemma run_batch_ok:
  assumes "evp_ok L" and "aead_ready w0 p w"
  shows "succeeds (ofb_backend_run_batch L p n w) (\<lambda>(r, w'). io w' = io w \<and> aead_ready w0 p w')"
proof -
  from batch_loop_ok [OF assms, of "unat n"] obtain r w1 where
    loop: "batch_loop L p (unat n) w = Some (r, w1)" "io w1 = io w" "aead_ready w0 p w1"
    by (auto elim!: succeedsE)
  obtain st where st: "backend_at w0 p st w1" "has_bytes (b_output st) (unat (b_message_size st)) w1"
    using loop(3) by (auto simp: aead_ready_def)
  note a = backend_atD [OF st(1)]
  let ?off = "if b_message_size st = 0 then 0 else unat (b_message_size st - 1)"
  have "unat (b_message_size st - 1) + 1 \<le> unat (b_message_size st)"
    using a(4) unat_minus_one [of "b_message_size st"] by (simp add: unat_gt_0)
  then have off: "?off + 1 \<le> unat (b_message_size st)" using a(4) by simp
  have "\<exists>bs. load (b_output st) ?off 1 w1 = Some bs \<and> length bs = 1"
    using st(2) off by (auto simp: has_bytes_def intro: load_ok)
  then obtain bs where bs: "load (b_output st) ?off 1 w1 = Some bs" by blast
  let ?st = "st\<lparr>b_checksum := b_checksum st XOR hd bs\<rparr>"
  define w2 where "w2 = replace p (Struct ?st) w1"
  note w2 = put_struct_ok [OF a(1), of ?st, folded w2_def]
  have "backend_at w0 p ?st w2"
  proof -
    have "lookup p w2 = Some (Struct ?st)" using a(1) by (auto simp: w2_def)
    moreover have "owned w0 (parts p st) w2"
      by (rule touched_owned [OF w2(2) a(2)]) (simp add: parts_def)
    moreover have "backend_ok st w2"
      using backend_ok_touched [OF _ w2(2)] st(1) by (simp add: backend_at_def)
    ultimately show ?thesis by (simp add: backend_at_def)
  qed
  moreover have "has_bytes (b_output st) (unat (b_message_size st)) w2"
    using st(2) by (blast intro: has_touched w2(2))
  ultimately have "aead_ready w0 p w2" unfolding aead_ready_def by fastforce
  moreover have "io w2 = io w" using touched_io [OF w2(2)] loop(2) by simp
  ultimately show ?thesis
    using loop a(1) bs w2(1) by (auto simp: ofb_backend_run_batch_def get_struct_def)
qed

subsection \<open>The contract\<close>

lemma aead_io_updates [simp]:
  "backend_at w0 p st (w\<lparr>w_reads := k\<rparr>) = backend_at w0 p st w"
  "backend_at w0 p st (w\<lparr>w_out := s\<rparr>) = backend_at w0 p st w"
  "backend_at w0 p st (w\<lparr>w_err := s\<rparr>) = backend_at w0 p st w"
  "has_bytes q n (w\<lparr>w_reads := k\<rparr>) = has_bytes q n w"
  "has_bytes q n (w\<lparr>w_out := s\<rparr>) = has_bytes q n w"
  "has_bytes q n (w\<lparr>w_err := s\<rparr>) = has_bytes q n w"
  by (simp_all add: backend_at_def backend_ok_def has_bytes_def has_room_def has_obj_def)

lemma destroy_holds:
  assumes "aead_holds w0 p w"
  shows "succeeds (ofb_backend_destroy L p w) (\<lambda>w'. io w' = io w \<and> owned w0 [] w')"
proof -
  obtain st where "backend_at w0 p st w" using assms by (auto simp: aead_holds_def)
  note a = backend_atD [OF this]
  show ?thesis
    by (rule destroy_ok [OF a(2,1)]) (use a in \<open>auto simp: has_bytes_def has_room_def\<close>)
qed

interpretation aead: bench_backend "aead_ops name L" aead_holds aead_ready aead_valid "evp_ok L"
  for name :: string and L :: "('k, 'c, 'l) evp_lib"
proof
  fix q and w :: "('k, 'c, 'l) aead_world"
  assume "evp_ok L" "aead_valid q" "fresh w"
  from create_ok [OF this] show "succeeds (op_create (aead_ops name L) q w) (\<lambda>(r, p, w').
    io w' = io w \<and> (if r = 0 then aead_holds w p w' else p = NULL \<and> owned w [] w'))"
    by (simp add: aead_ops_def)
next
  fix w0 p and w :: "('k, 'c, 'l) aead_world"
  assume "evp_ok L" "aead_holds w0 p w"
  from verify_ok [OF this] show "succeeds (op_verify (aead_ops name L) p w) (\<lambda>(r, w').
    io w' = io w \<and> aead_holds w0 p w' \<and> (r = 0 \<longrightarrow> aead_ready w0 p w'))"
    by (simp add: aead_ops_def)
next
  fix w0 p n and w :: "('k, 'c, 'l) aead_world"
  assume "evp_ok L" "aead_ready w0 p w"
  from run_batch_ok [OF this] show "succeeds (op_run_batch (aead_ops name L) p n w) (\<lambda>(r, w').
    io w' = io w \<and> aead_ready w0 p w')"
    by (simp add: aead_ops_def)
next
  fix w0 p and w :: "('k, 'c, 'l) aead_world"
  assume "aead_holds w0 p w"
  from destroy_holds [OF this] show "succeeds (op_destroy (aead_ops name L) p w) (\<lambda>w'.
    io w' = io w \<and> owned w0 [] w')"
    by (simp add: aead_ops_def)
qed (auto simp: aead_ops_def aead_holds_def aead_ready_def ofb_backend_destroy_def)

subsection \<open>A library\<close>

text \<open>
  A small library that keeps \<open>evp_ok\<close>: it adds the first byte of the key to every byte and has
  a constant tag. It shows that the assumption can hold, and runs the definitions.
\<close>

definition demo_update ::
  "(u8 \<Rightarrow> u8 \<Rightarrow> u8) \<Rightarrow> bool \<Rightarrow> bytes \<Rightarrow> u8 \<Rightarrow> unit \<Rightarrow> (int \<times> int \<times> bytes) \<times> u8 \<times> unit" where
  "demo_update f out inp key l =
     ((1, int (length inp), if out then map (f key) inp else []), key, ())"

definition demo_init ::
  "unit option \<Rightarrow> bytes option \<Rightarrow> bytes option \<Rightarrow> u8 \<Rightarrow> unit \<Rightarrow> int \<times> u8 \<times> unit" where
  "demo_init c key nonce x l = (1, case key of None \<Rightarrow> x | Some bs \<Rightarrow> hd bs, ())"

definition demo_lib :: "(unit, u8, unit) evp_lib" where
  "demo_lib =
     \<lparr>openssl_version = ''demo'', evp_aes_128_gcm = Some (), evp_aes_256_gcm = Some (),
      evp_chacha20_poly1305 = Some (), evp_ctx_new = (\<lambda>l. (Some 0, l)), evp_ctx_free = (\<lambda>_ l. l),
      evp_enc_init = demo_init, evp_dec_init = demo_init, evp_set_ivlen = (\<lambda>_ x l. (1, x, l)),
      evp_enc_update = demo_update (+), evp_dec_update = demo_update (\<lambda>k b. b - k),
      evp_enc_final = (\<lambda>x l. ((1, 0, []), x, l)), evp_dec_final = (\<lambda>x l. ((1, 0, []), x, l)),
      evp_get_tag = (\<lambda>n x l. ((1, replicate n x), x, l)), evp_set_tag = (\<lambda>_ x l. (1, x, l)),
      crypto_memcmp = (\<lambda>a b. if a = b then 0 else 1)\<rparr>"

lemma demo_lib_ok: "evp_ok demo_lib"
  by (auto simp: evp_ok_def update_ok_def final_ok_def demo_lib_def demo_update_def)

definition demo_world :: "(unit, u8, unit) aead_world" where
  "demo_world = start_world (\<lambda>_. False) (\<lambda>k. Some \<lparr>tv_sec = int k + 1, tv_nsec = 0\<rparr>) ()"

definition demo_params :: "ofb_operation \<Rightarrow> ofb_params" where
  "demo_params operation =
     \<lparr>p_algorithm = ''AES-128-GCM'', p_operation = operation, p_message_size = 2, p_aad_size = 0\<rparr>"

lemma demo_fill: "plaintext_fill 2 = [7, 38]" "hd key_fill = 1"
  by (simp_all add: plaintext_fill_def key_fill_def upt_rec)

lemmas demo_defs = demo_world_def demo_params_def demo_lib_def demo_init_def demo_update_def

lemmas aead_defs = ofb_backend_create_def create_blocks_def EVP_CIPHER_CTX_new_def
  EVP_CIPHER_CTX_free_def find_cipher_def INT_MAX_def zero_backend_def OFB_TAG_SIZE_def
  OFB_NONCE_SIZE_def create_fill_def encrypt_once_def seal_calls_def call_writing_def
  array_write_def ofb_backend_verify_def decrypt_once_def open_calls_def ofb_backend_run_batch_def

text \<open>The definitions run: a message is sealed, verified and opened once more.\<close>

lemma demo_session:
  "succeeds (do {
     (r, p, w) \<leftarrow> ofb_backend_create demo_lib (demo_params OFB_OPEN) demo_world;
     (v, w) \<leftarrow> ofb_backend_verify demo_lib p w;
     (b, w) \<leftarrow> ofb_backend_run_batch demo_lib p 1 w;
     Some (r, v, b, load (Addr 5) 0 2 w)}) (\<lambda>res. res = (0, 0, 0, Some [7, 38]))"
  by (simp add: demo_defs memory_defs aead_defs demo_fill list_all_iff Let_def
      cong: bind_weak_cong succeeds_weak_cong del: succeeds_bind)

lemma demo_runs:
  obtains p w1 w2 w3 where
    "ofb_backend_create demo_lib (demo_params OFB_OPEN) demo_world = Some (0, p, w1)"
    "ofb_backend_verify demo_lib p w1 = Some (0, w2)"
    "ofb_backend_run_batch demo_lib p 1 w2 = Some (0, w3)"
  using demo_session by (auto simp: succeeds_iff Option.bind_eq_Some_conv)

lemma demo_fresh: "fresh demo_world"
  by (simp add: demo_world_def)

subsection \<open>Properties\<close>

text \<open>C11: creating a backend never has undefined behaviour, whatever the allocator and the library
  do. If it fails, \<^verbatim>\<open>*backend\<close> stays \<^verbatim>\<open>NULL\<close> and all that was allocated has been released; if
  it succeeds, destroying the backend gives back the heap as it was before.\<close>

theorem create_no_leak:
  assumes "evp_ok L" and "p_message_size q \<noteq> 0" and "fresh w"
  shows "\<exists>r p w'. ofb_backend_create L q w = Some (r, p, w') \<and>
    (r \<noteq> 0 \<longrightarrow> p = NULL \<and> w_heap w' = w_heap w) \<and>
    (r = 0 \<longrightarrow> (\<exists>w''. ofb_backend_destroy L p w' = Some w'' \<and> w_heap w'' = w_heap w))"
proof -
  have "aead_valid q" using assms(2) by (simp add: aead_valid_def)
  from aead.create [OF assms(1) this assms(3), of undefined] obtain r p w' where
    c: "ofb_backend_create L q w = Some (r, p, w')"
      "if r = 0 then aead_holds w p w' else p = NULL \<and> owned w [] w'"
    by (auto simp: aead_ops_def elim!: succeedsE)
  have "\<exists>w''. ofb_backend_destroy L p w' = Some w'' \<and> w_heap w'' = w_heap w" if "r = 0"
    using aead.destroy [OF assms(1), of w p w' undefined] c(2) that owned_Nil_heap [OF _ assms(3)]
    by (auto simp: aead_ops_def elim!: succeedsE)
  then show ?thesis using c owned_Nil_heap [OF _ assms(3), of w'] by (auto split: if_splits)
qed

theorem create_no_leak_witness:
  "\<exists>r p w'. ofb_backend_create demo_lib (demo_params OFB_SEAL) demo_world = Some (r, p, w') \<and>
    (r \<noteq> 0 \<longrightarrow> p = NULL \<and> w_heap w' = w_heap demo_world) \<and>
    (r = 0 \<longrightarrow> (\<exists>w''. ofb_backend_destroy demo_lib p w' = Some w'' \<and>
      w_heap w'' = w_heap demo_world))"
  by (rule create_no_leak) (simp_all add: demo_lib_ok demo_fresh demo_params_def)





text \<open>C36: in every backend that was created, the casts of the two sizes to \<^verbatim>\<open>int\<close> keep their value.\<close>

theorem created_sizes_fit:
  assumes "evp_ok L" and "p_message_size q \<noteq> 0" and "fresh w"
    and "ofb_backend_create L q w = Some (0, p, w')"
  shows "\<exists>st. get_struct p w' = Some st \<and>
    sint (ucast (b_message_size st) :: 32 word) = int (unat (b_message_size st)) \<and>
    sint (ucast (b_aad_size st) :: 32 word) = int (unat (b_aad_size st))"
proof -
  have "aead_valid q" using assms(2) by (simp add: aead_valid_def)
  from create_ok [OF assms(1) this assms(3)] assms(4) obtain st where
    st: "backend_at w p st w'" by (auto simp: aead_holds_def)
  have cast: "sint (ucast n :: 32 word) = int (unat n)" if "unat n < 2 ^ 31" for n :: u64
  proof -
    have n: "unat (ucast n :: u32) = unat n"
      using that by (simp add: unsigned_ucast_eq take_bit_nat_eq_self)
    have "sint (ucast n :: u32) = signed_take_bit 31 (int (unat (ucast n :: u32)))"
      by (simp add: sint_uint)
    also have "\<dots> = int (unat n)" unfolding n
    proof (rule signed_take_bit_int_eq_self)
      have "int (unat n) < int (2 ^ 31)" using that by (simp only: of_nat_less_iff)
      then show "int (unat n) < 2 ^ 31" by (simp only: of_nat_power of_nat_numeral)
      show "- (2 ^ 31) \<le> int (unat n)" by (rule order_trans [OF _ of_nat_0_le_iff]) simp
    qed
    finally show ?thesis .
  qed
  show ?thesis
    using st cast by (auto simp: backend_at_def backend_ok_def get_struct_lookup)
qed

theorem created_sizes_fit_witness:
  "\<exists>p w' st. ofb_backend_create demo_lib (demo_params OFB_OPEN) demo_world = Some (0, p, w') \<and>
    get_struct p w' = Some st \<and>
    sint (ucast (b_message_size st) :: 32 word) = int (unat (b_message_size st)) \<and>
    sint (ucast (b_aad_size st) :: 32 word) = int (unat (b_aad_size st))"
proof -
  obtain p w1 w2 w3 where
    run: "ofb_backend_create demo_lib (demo_params OFB_OPEN) demo_world = Some (0, p, w1)"
      "ofb_backend_verify demo_lib p w1 = Some (0, w2)"
      "ofb_backend_run_batch demo_lib p 1 w2 = Some (0, w3)" by (rule demo_runs)
  have "p_message_size (demo_params OFB_OPEN) \<noteq> 0" by (simp add: demo_params_def)
  from created_sizes_fit [OF demo_lib_ok this demo_fresh run(1)] run(1) show ?thesis by blast
qed

text \<open>C37: if the library has the three ciphers, an algorithm can be used exactly if the backend
  advertises it.\<close>

theorem advertised_ciphers:
  assumes "evp_aes_128_gcm L \<noteq> None" and "evp_aes_256_gcm L \<noteq> None"
    and "evp_chacha20_poly1305 L \<noteq> None"
  shows "find_cipher L a \<noteq> None \<longleftrightarrow> a \<in> set (i_algorithms (ofb_backend_info name L))"
  using assms by (auto simp: find_cipher_def ofb_backend_info_def algorithms_def)

theorem advertised_ciphers_witness:
  "find_cipher demo_lib ''AES-256-GCM'' \<noteq> None \<longleftrightarrow>
    ''AES-256-GCM'' \<in> set (i_algorithms (ofb_backend_info ''demo'' demo_lib))"
  by (rule advertised_ciphers) (simp_all add: demo_lib_def)


end
