(* ===== verification/Case_Plan.thy ===== *)
theory Case_Plan
  imports Runner
begin

text \<open>
  What the two command lines have in common, independent of the kind of case \<open>'c\<close> they run: the
  list of cases that the nested loops of \<^verbatim>\<open>main\<close> go through, the lines a case prints for its
  samples, and what a list of cases leaves on the two streams. A program supplies \<open>out_ok c k out\<close>,
  which says that \<open>out\<close> is what case \<open>c\<close> prints with \<open>k\<close> samples, the title \<open>name c\<close> of a
  case in an error message, and the number of samples.
\<close>

subsection \<open>Running cases in order\<close>

text \<open>The cases are run until one fails; the program then returns 1.\<close>

fun run_plan ::
  "('c \<Rightarrow> ('s, 'o, 'l) world \<Rightarrow> (int \<times> ('s, 'o, 'l) world) option) \<Rightarrow> 'c list \<Rightarrow>
   ('s, 'o, 'l) world \<Rightarrow> (int \<times> ('s, 'o, 'l) world) option"
where
  "run_plan run [] w = Some (0, w)"
| "run_plan run (c # cs) w = do {
     (r, w) \<leftarrow> run c w;
     if r \<noteq> 0 then Some (1, w) else run_plan run cs w
   }"

lemma run_plan_append:
  "run_plan run (cs @ ds) w = do {
     (r, w) \<leftarrow> run_plan run cs w;
     if r \<noteq> 0 then Some (r, w) else run_plan run ds w
   }"
proof (induction cs arbitrary: w)
  case (Cons c cs)
  then show ?case by (cases "run c w") (auto cong: if_cong)
qed simp

subsection \<open>The lines of a case\<close>

text \<open>The lines printed for the samples of a case, numbered from \<open>i\<close>.\<close>

definition report :: "(nat \<Rightarrow> 'x \<Rightarrow> string) \<Rightarrow> nat \<Rightarrow> 'x list \<Rightarrow> string" where
  "report line i ss = concat (map (\<lambda>(j, s). line j s) (enumerate i ss))"

lemma report_simps [simp]:
  "report line i [] = []"
  "report line i (s # ss) = line i s @ report line (Suc i) ss"
  by (simp_all add: report_def)

subsection \<open>What a case and a plan leave behind\<close>

definition case_result ::
  "('c \<Rightarrow> nat \<Rightarrow> string \<Rightarrow> bool) \<Rightarrow> ('c \<Rightarrow> string) \<Rightarrow> nat \<Rightarrow> 'c \<Rightarrow> ('s, 'o, 'l) world \<Rightarrow>
   int \<times> ('s, 'o, 'l) world \<Rightarrow> bool" where
  "case_result out_ok name samples c w res \<longleftrightarrow> (case res of (r, w') \<Rightarrow> owned w [] w' \<and>
     (\<exists>k out. out_ok c k out \<and> w_out w' = w_out w @ out \<and>
       (if r = 0 then k = samples \<and> w_err w' = w_err w
        else k < samples \<and> (\<exists>m. w_err w' = w_err w @ m @ name c))))"

lemma case_result_pass:
  "owned w [] w' \<Longrightarrow> out_ok c samples out \<Longrightarrow> w_out w' = w_out w @ out \<Longrightarrow> w_err w' = w_err w \<Longrightarrow>
   case_result out_ok name samples c w (0, w')"
  by (auto simp: case_result_def)

lemma case_result_fail:
  "r \<noteq> 0 \<Longrightarrow> owned w [] w' \<Longrightarrow> out_ok c k out \<Longrightarrow> k < samples \<Longrightarrow> w_out w' = w_out w @ out \<Longrightarrow>
   w_err w' = w_err w @ m @ name c \<Longrightarrow> case_result out_ok name samples c w (r, w')"
  by (auto simp: case_result_def)

text \<open>
  What a list of cases prints on the two streams, with its result: each case prints all its
  samples, until one fails, which is named on the error stream.
\<close>

inductive plan_trace ::
  "('c \<Rightarrow> nat \<Rightarrow> string \<Rightarrow> bool) \<Rightarrow> ('c \<Rightarrow> string) \<Rightarrow> nat \<Rightarrow> 'c list \<Rightarrow> string \<Rightarrow> string \<Rightarrow> int \<Rightarrow> bool"
  for out_ok name samples where
  finished: "plan_trace out_ok name samples [] [] [] 0"
| passed:
    "out_ok c samples out \<Longrightarrow> plan_trace out_ok name samples cs outs errs r \<Longrightarrow>
     plan_trace out_ok name samples (c # cs) (out @ outs) errs r"
| failed:
    "k < samples \<Longrightarrow> out_ok c k out \<Longrightarrow>
     plan_trace out_ok name samples (c # cs) out (m @ name c) 1"

inductive_simps plan_trace_Nil: "plan_trace out_ok name samples [] outs errs r"
inductive_cases plan_trace_ConsE: "plan_trace out_ok name samples (c # cs) outs errs r"

lemma plan_trace_code: "plan_trace out_ok name samples cs outs errs r \<Longrightarrow> r = 0 \<or> r = 1"
  by (induction rule: plan_trace.induct) simp_all

text \<open>A run prints on the error stream exactly if it fails, provided that titles are not empty.\<close>

lemma plan_trace_silent:
  "plan_trace out_ok name samples cs outs errs r \<Longrightarrow> (\<And>c. name c \<noteq> []) \<Longrightarrow> r = 0 \<longleftrightarrow> errs = []"
  by (induction rule: plan_trace.induct) simp_all

definition plan_result ::
  "('c \<Rightarrow> nat \<Rightarrow> string \<Rightarrow> bool) \<Rightarrow> ('c \<Rightarrow> string) \<Rightarrow> nat \<Rightarrow> 'c list \<Rightarrow> ('s, 'o, 'l) world \<Rightarrow>
   int \<times> ('s, 'o, 'l) world \<Rightarrow> bool" where
  "plan_result out_ok name samples cs w res \<longleftrightarrow> (case res of (r, w') \<Rightarrow> owned w [] w' \<and>
     (\<exists>outs errs. w_out w' = w_out w @ outs \<and> w_err w' = w_err w @ errs \<and>
       plan_trace out_ok name samples cs outs errs r))"

lemma owned_Nil_trans:
  assumes "fresh w" and "owned w [] w1" and "owned w1 [] w2"
  shows "owned w [] w2"
  using assms owned_Nil_heap [OF assms(2,1)] owned_Nil_heap [OF assms(3) owned_fresh [OF assms(2)]]
  by (simp add: owned_def)

lemma plan_result_Cons:
  assumes "fresh w" and "case_result out_ok name samples c w (0, w1)"
    and "plan_result out_ok name samples cs w1 res"
  shows "plan_result out_ok name samples (c # cs) w res"
proof -
  obtain r w2 where res: "res = (r, w2)" by (cases res)
  obtain out where c: "owned w [] w1" "w_out w1 = w_out w @ out" "w_err w1 = w_err w"
    "out_ok c samples out"
    using assms(2) by (auto simp: case_result_def)
  have own: "owned w [] w2"
    using assms(3) owned_Nil_trans [OF assms(1) c(1)] by (simp add: plan_result_def res)
  obtain outs errs where "w_out w2 = w_out w1 @ outs" "w_err w2 = w_err w1 @ errs"
    "plan_trace out_ok name samples cs outs errs r"
    using assms(3) by (auto simp: plan_result_def res)
  then have "plan_trace out_ok name samples (c # cs) (out @ outs) errs r"
    and "w_out w2 = w_out w @ (out @ outs)" and "w_err w2 = w_err w @ errs"
    using c passed [of out_ok c samples out name cs outs errs r] by simp_all
  then show ?thesis unfolding plan_result_def res using own by blast
qed

lemma plan_result_stop:
  assumes "r \<noteq> 0" and "case_result out_ok name samples c w (r, w1)"
  shows "plan_result out_ok name samples (c # cs) w (1, w1)"
proof -
  obtain k out m where "owned w [] w1" "k < samples" "out_ok c k out" "w_out w1 = w_out w @ out"
    "w_err w1 = w_err w @ m @ name c"
    using assms unfolding case_result_def by auto
  then show ?thesis
    using failed [of k samples out_ok c out name cs m] unfolding plan_result_def
    by (intro case_prodI conjI exI [of _ out] exI [of _ "m @ name c"])
qed

text \<open>If every case keeps its contract, so does the plan.\<close>

lemma run_plan_ok:
  assumes "\<And>c w. c \<in> set cs \<Longrightarrow> fresh w \<Longrightarrow> succeeds (run c w) (case_result out_ok name samples c w)"
    and "fresh w"
  shows "succeeds (run_plan run cs w) (plan_result out_ok name samples cs w)"
  using assms
proof (induction cs arbitrary: w)
  case Nil
  then show ?case by (simp add: plan_result_def owned_refl finished)
next
  case (Cons c cs)
  from Cons.prems(1) [of c w] Cons.prems(2) obtain r w1 where
    run: "run c w = Some (r, w1)" "case_result out_ok name samples c w (r, w1)"
    by (auto elim!: succeedsE)
  show ?case
  proof (cases "r = 0")
    case True
    have "fresh w1" using run(2) by (auto simp: case_result_def dest: owned_fresh)
    then have "succeeds (run_plan run cs w1) (plan_result out_ok name samples cs w1)"
      using Cons by simp
    then show ?thesis
      using run(1) True plan_result_Cons [OF Cons.prems(2) run(2) [unfolded True]]
      by (auto elim!: succeeds_mono)
  next
    case False
    then show ?thesis using run plan_result_stop [OF False run(2)] by simp
  qed
qed

subsection \<open>Leaving a failed case\<close>

context bench_backend
begin

lemma destroy_message:
  assumes "lib_ok" and "holds w0 p w"
  obtains w' where "op_destroy B p (print_err m w) = Some w'" "owned w0 [] w'" "w_out w' = w_out w"
    "w_err w' = w_err w @ m"
proof -
  have "holds w0 p (print_err m w)" using assms(2) by (simp add: print_err_def holds_err)
  from destroy [OF assms(1) this] obtain w' where
    "op_destroy B p (print_err m w) = Some w'" "io w' = io (print_err m w)" "owned w0 [] w'"
    by (auto elim: succeedsE)
  then show thesis by (intro that [of w']) (simp_all add: print_err_def io_def)
qed

end

end
