(* ===== verification/Aead_Program.thy ===== *)
theory Aead_Program
  imports Aead_Options Aead_Contract Case_Plan "HOL-Library.Product_Lexorder"
begin

text \<open>
  The whole program: its nested loops run a plan of cases; a case and the program are safe and
  print what they should over every backend that keeps the contract, and so over the AEAD
  backend.
\<close>

subsection \<open>The plan of a run\<close>

text \<open>What the nested loops of \<^verbatim>\<open>main\<close> do, as a list: the cases in their order.\<close>

type_synonym aead_case = "string \<times> ofb_operation \<times> u64"

definition sizes_of :: "options \<Rightarrow> u64 list" where
  "sizes_of options = (if o_size_set options then [o_size options] else default_sizes)"

definition operations_of :: "options \<Rightarrow> ofb_operation list" where
  "operations_of options =
     (if o_operation options = ''seal'' then [OFB_SEAL]
      else if o_operation options = ''open'' then [OFB_OPEN]
      else if o_operation options = ''all'' then [OFB_SEAL, OFB_OPEN] else [])"

definition plan :: "options \<Rightarrow> string list \<Rightarrow> aead_case list" where
  "plan options algs =
     [(a, operation, n). a \<leftarrow> filter (algorithm_selected options) algs,
        n \<leftarrow> sizes_of options, operation \<leftarrow> operations_of options]"

definition exec_case ::
  "nat \<Rightarrow> string \<Rightarrow> (ofb_params, ('s, 'o, 'l) world) backend_ops \<Rightarrow> options \<Rightarrow> aead_case \<Rightarrow>
   ('s, 'o, 'l) world \<Rightarrow> (int \<times> ('s, 'o, 'l) world) option" where
  "exec_case ldp arch B options c w =
     (case c of (a, operation, n) \<Rightarrow> run_case ldp arch B options a operation n w)"

lemma exec_case_simp [simp]:
  "exec_case ldp arch B options (a, operation, n) = run_case ldp arch B options a operation n"
  by (simp add: exec_case_def fun_eq_iff)

lemma run_size_plan:
  "run_size ldp arch B options a n w =
    run_plan (exec_case ldp arch B options)
      (map (\<lambda>operation. (a, operation, n)) (operations_of options)) w"
  by (auto simp: run_size_def operations_of_def cong: if_cong)

lemma run_sizes_plan:
  "run_sizes ldp arch B options a ns w = run_plan (exec_case ldp arch B options)
    (concat (map (\<lambda>n. map (\<lambda>operation. (a, operation, n)) (operations_of options)) ns)) w"
  by (induction ns arbitrary: w) (simp_all add: run_plan_append run_size_plan cong: if_cong)

lemma plan_Cons:
  "plan options (a # algs) = (if algorithm_selected options a
    then concat (map (\<lambda>n. map (\<lambda>operation. (a, operation, n)) (operations_of options))
      (sizes_of options)) else []) @ plan options algs"
  by (simp add: plan_def)

lemma run_algorithms_plan:
  "run_algorithms ldp arch B options algs w =
    run_plan (exec_case ldp arch B options) (plan options algs) w"
proof (induction algs arbitrary: w)
  case (Cons a algs)
  then show ?case
    by (simp add: plan_Cons run_plan_append run_sizes_plan sizes_of_def cong: if_cong)
qed (simp add: plan_def)

text \<open>C18: the nested loops of \<^verbatim>\<open>main\<close> over algorithms, sizes and operations run exactly the cases
  of the plan in its order, and stop with code 1 at the first case that fails.\<close>

theorem main_follows_plan:
  "run_algorithms ldp arch B options algs w =
    run_plan (\<lambda>(a, operation, n). run_case ldp arch B options a operation n) (plan options algs) w"
proof -
  have "exec_case ldp arch B options = (\<lambda>(a, operation, n). run_case ldp arch B options a operation n)"
    by (auto simp: fun_eq_iff)
  then show ?thesis by (simp only: run_algorithms_plan)
qed






subsection \<open>The printed rate\<close>





subsection \<open>A case, over any backend\<close>

definition sample_ok :: "u64 \<Rightarrow> u64 \<Rightarrow> ofb_sample \<Rightarrow> bool" where
  "sample_ok iterations n s \<longleftrightarrow> s_iterations s = iterations \<and> 0 < unat (s_elapsed_ns s) \<and>
     unat (s_bytes s) = unat iterations * unat n"

text \<open>What a case prints that gets as far as \<open>k\<close> samples.\<close>

definition case_output ::
  "nat \<Rightarrow> string \<Rightarrow> ofb_backend_info \<Rightarrow> options \<Rightarrow> aead_case \<Rightarrow> nat \<Rightarrow> string \<Rightarrow> bool" where
  "case_output ldp arch info options c k out \<longleftrightarrow>
     (case c of (a, operation, n) \<Rightarrow> \<exists>iterations ss. 64 \<le> unat iterations \<and> length ss = k \<and>
       list_all (sample_ok iterations n) ss \<and>
       out = report (sample_line ldp arch info options a operation n) 0 ss)"

lemma case_output_0: "case_output ldp arch info options c 0 []"
  by (auto simp: case_output_def split: prod.split intro!: exI [of _ 64])

definition case_title :: "aead_case \<Rightarrow> string" where
  "case_title c = (case c of (a, operation, n) \<Rightarrow> case_name a operation n)"

lemma case_title_simp [simp]: "case_title (a, operation, n) = case_name a operation n"
  by (simp add: case_title_def)

locale aead_client = bench_backend B holds ready valid lib_ok
  for B :: "(ofb_params, ('s, 'o, 'l) world) backend_ops"
    and holds ready valid lib_ok +
  assumes valid_size: "p_message_size q \<noteq> 0 \<Longrightarrow> valid q"
begin

lemma fail_case_run:
  assumes "lib_ok" and "holds w0 p w"
  obtains w' where "fail_case B p m w = Some (-1, w')" "owned w0 [] w'" "w_out w' = w_out w"
    "w_err w' = w_err w @ m"
  by (rule destroy_message [OF assms, of m]) (rule that; simp add: fail_case_def)

lemma sample_loop_ok:
  assumes "lib_ok" and "ready w0 p w"
  shows "succeeds (sample_loop ldp arch B options a operation n p it i k w) (\<lambda>(r, w').
    \<exists>ss. list_all (sample_ok it n) ss \<and>
      w_out w' = w_out w @ report (sample_line ldp arch (op_info B) options a operation n) i ss \<and>
      (if r = 0 then ready w0 p w' \<and> length ss = k \<and> w_err w' = w_err w
       else owned w0 [] w' \<and> length ss < k \<and>
         w_err w' = w_err w @ ''benchmark run failed: '' @ case_name a operation n))"
  using assms(2)
proof (induction k arbitrary: i w)
  case (Suc k)
  from run_sample_ok [OF assms(1) Suc.prems, of it n] obtain s w1 where
    run: "ofb_run_sample B p it n w = Some (s, w1)" "ready w0 p w1" "streams w1 = streams w"
    by (auto elim!: succeedsE)
  show ?case
  proof (cases s)
    case None
    obtain w2 where w2: "fail_case B p (''benchmark run failed: '' @ case_name a operation n) w1 =
        Some (-1, w2)" "owned w0 [] w2" "w_out w2 = w_out w1"
      "w_err w2 = w_err w1 @ ''benchmark run failed: '' @ case_name a operation n"
      using fail_case_run [OF assms(1) ready_holds [OF run(2)]] .
    have "sample_loop ldp arch B options a operation n p it i (Suc k) w = Some (-1, w2)"
      using run(1) None w2(1) by simp
    then show ?thesis using run(3) w2(2-4) by (simp add: streams_def exI [of _ "[]"])
  next
    case (Some x)
    let ?line = "sample_line ldp arch (op_info B) options a operation n i x"
    have "ready w0 p (print_out ?line w1)" using run(2) by (simp add: print_out_def ready_out)
    moreover have "sample_ok it n x"
      using run_sample_cases [OF run(1) [unfolded Some]] by (simp add: sample_ok_def)
    ultimately show ?thesis
      using run(1,3) Some Suc.IH [of "print_out ?line w1" "Suc i"]
      by (auto simp: streams_def print_out_def elim!: succeeds_mono split: if_splits
          intro: exI [of _ "x # _"])
  qed
qed simp

lemma case_result_early:
  assumes "o_samples options \<noteq> 0" and "r \<noteq> 0" and "owned w [] w'" and "w_out w' = w_out w"
    and "w_err w' = w_err w @ m @ case_name a operation n"
  shows "case_result (case_output ldp arch (op_info B) options) case_title (unat (o_samples options)) (a, operation, n) w (r, w')"
  using assms case_output_0 unfolding case_result_def
  by (auto simp: unat_gt_0 intro!: exI [of _ 0] exI [of _ "[]"])

lemma run_case_ok:
  assumes "lib_ok" and "0 < ldp" and "n \<noteq> 0" and "o_samples options \<noteq> 0" and "fresh w"
  shows "succeeds (run_case ldp arch B options a operation n w)
    (case_result (case_output ldp arch (op_info B) options) case_title (unat (o_samples options)) (a, operation, n) w)"
proof -
  let ?q = "\<lparr>p_algorithm = a, p_operation = operation, p_message_size = n,
    p_aad_size = o_aad_size options\<rparr>"
  have "valid ?q" using assms(3) by (intro valid_size) simp
  from create [OF assms(1) this assms(5)] obtain r p w1 where
    c: "op_create B ?q w = Some (r, p, w1)" "io w1 = io w"
      "if r = 0 then holds w p w1 else p = NULL \<and> owned w [] w1"
    by (auto elim!: succeedsE)
  note early = case_result_early [OF assms(4)]
  show ?thesis
  proof (cases "r = 0")
    case False
    then show ?thesis using c io_eqD [OF c(2)] destroy_NULL
      by (auto simp: run_case_def fail_case_def print_err_def intro!: early)
  next
    case True
    then have h1: "holds w p w1" using c(3) by simp
    from verify [OF assms(1) h1] obtain r2 w2 where
      v: "op_verify B p w1 = Some (r2, w2)" "io w2 = io w1" "holds w p w2"
        "r2 = 0 \<Longrightarrow> ready w p w2"
      by (auto elim!: succeedsE)
    have io2: "w_out w2 = w_out w" "w_err w2 = w_err w"
      using io_eqD [OF c(2)] io_eqD [OF v(2)] by simp_all
    show ?thesis
    proof (cases "r2 = 0")
      case False
      obtain w3 where w3: "fail_case B p (''correctness verification failed: '' @
          case_name a operation n) w2 = Some (-1, w3)" "owned w [] w3" "w_out w3 = w_out w2"
        "w_err w3 = w_err w2 @ ''correctness verification failed: '' @ case_name a operation n"
        using fail_case_run [OF assms(1) v(3)] .
      have "run_case ldp arch B options a operation n w = Some (-1, w3)"
        using c(1) True v(1) False w3(1) by (simp add: run_case_def)
      then show ?thesis using early [OF _ w3(2)] w3(3,4) io2 by simp
    next
      case r2: True
      from calibrate_ok [OF assms(1) v(4) [OF r2], of ldp n "o_sample_ns options"] obtain it w3 where
        k: "ofb_calibrate ldp B p n (o_sample_ns options) w2 = Some (it, w3)" "ready w p w3"
          "streams w3 = streams w2"
        by (auto elim!: succeedsE)
      have io3: "w_out w3 = w_out w" "w_err w3 = w_err w" using io2 k(3) by (simp_all add: streams_def)
      show ?thesis
      proof (cases it)
        case None
        obtain w4 where w4: "fail_case B p (''calibration failed: '' @ case_name a operation n) w3 =
            Some (-1, w4)" "owned w [] w4" "w_out w4 = w_out w3"
          "w_err w4 = w_err w3 @ ''calibration failed: '' @ case_name a operation n"
          using fail_case_run [OF assms(1) ready_holds [OF k(2)]] .
        have "run_case ldp arch B options a operation n w = Some (-1, w4)"
          using c(1) True v(1) r2 k(1) None w4(1) by (simp add: run_case_def)
        then show ?thesis using early [OF _ w4(2)] w4(3,4) io3 by simp
      next
        case (Some iterations)
        have it: "64 \<le> unat iterations"
          using calibrate_result [OF assms(2)] k(1) unfolding Some by blast
        from sample_loop_ok [OF assms(1) k(2), of ldp arch options a operation n iterations 0
            "unat (o_samples options)"] obtain r3 w4 ss where
          l: "sample_loop ldp arch B options a operation n p iterations 0
              (unat (o_samples options)) w3 = Some (r3, w4)" "list_all (sample_ok iterations n) ss"
            "w_out w4 = w_out w3 @ report (sample_line ldp arch (op_info B) options a operation n) 0 ss"
            "if r3 = 0 then ready w p w4 \<and> length ss = unat (o_samples options) \<and> w_err w4 = w_err w3
             else owned w [] w4 \<and> length ss < unat (o_samples options) \<and>
               w_err w4 = w_err w3 @ ''benchmark run failed: '' @ case_name a operation n"
          by (auto elim!: succeedsE)
        have out: "case_output ldp arch (op_info B) options (a, operation, n) (length ss)
          (report (sample_line ldp arch (op_info B) options a operation n) 0 ss)"
          using it l(2) by (auto simp: case_output_def)
        note run = c(1) True v(1) r2 k(1) Some l(1)
        show ?thesis
        proof (cases "r3 = 0")
          case False
          then show ?thesis
            using run out l(3,4) io3 by (auto simp: run_case_def case_result_def)
        next
          case r3: True
          then have "holds w p w4" using l(4) ready_holds by simp
          from destroy [OF assms(1) this] obtain w5 where
            "op_destroy B p w4 = Some w5" "io w5 = io w4" "owned w [] w5"
            by (auto elim!: succeedsE)
          then show ?thesis
            using run r3 out l(3,4) io3 io_eqD [of w5 w4]
            by (auto simp: run_case_def case_result_def)
        qed
      qed
    qed
  qed
qed

end

text \<open>
  What the whole program does with options that pass the checks: it runs the plan; an
  algorithm that the backend does not have is reported after that, the plan then being empty.
\<close>

definition main_result ::
  "nat \<Rightarrow> string \<Rightarrow> ofb_backend_info \<Rightarrow> options \<Rightarrow> ('s, 'o, 'l) world \<Rightarrow>
   int \<times> ('s, 'o, 'l) world \<Rightarrow> bool" where
  "main_result ldp arch info options w res \<longleftrightarrow>
     (if o_algorithm options \<noteq> ''all'' \<and> o_algorithm options \<notin> set (i_algorithms info)
      then res = (2, print_err (''unsupported algorithm: '' @ o_algorithm options @ newline) w)
      else plan_result (case_output ldp arch info options) case_title (unat (o_samples options))
        (plan options (i_algorithms info)) w res)"

lemma plan_sizes:
  assumes "options_ok options"
  shows "\<forall>(a, operation, n) \<in> set (plan options algs). n \<noteq> 0"
  using assms by (auto simp: plan_def sizes_of_def default_sizes_def options_ok_def split: if_splits)

lemma plan_unsupported:
  "o_algorithm options \<noteq> ''all'' \<Longrightarrow> o_algorithm options \<notin> set algs \<Longrightarrow> plan options algs = []"
proof -
  assume "o_algorithm options \<noteq> ''all''" and "o_algorithm options \<notin> set algs"
  then have "filter (algorithm_selected options) algs = []"
    by (auto simp: filter_empty_conv algorithm_selected_def)
  then show ?thesis by (simp add: plan_def)
qed

lemma main_parsed:
  assumes "parse_args B program args default_options w = (Inr options, w)"
    and "check_options options w = (Inr options, w)"
  shows "main ldp arch B program args w = do {
    (r, w) \<leftarrow> run_plan (exec_case ldp arch B options) (plan options (i_algorithms (op_info B))) w;
    if r \<noteq> 0 then Some (r, w)
    else if o_algorithm options \<noteq> ''all'' \<and> o_algorithm options \<notin> set (i_algorithms (op_info B))
    then Some (2, print_err (''unsupported algorithm: '' @ o_algorithm options @ newline) w)
    else Some (0, w) }"
  using assms by (auto simp: main_def run_algorithms_plan cong: if_cong intro!: Option.bind_cong)

lemma parse_args_exit:
  "parse_args B program args options w = (Inl code, w') \<Longrightarrow>
   w_heap w' = w_heap w \<and> code \<in> {0, 2}"
  by (induction B program args options w rule: parse_args.induct)
    (auto simp: print_out_def print_err_def split: if_split_asm list.split_asm sum.split_asm)

lemma check_options_cases:
  "check_options options w = (Inr options, w) \<or>
   (\<exists>m. check_options options w = (Inl 2, print_err m w))"
  by (auto simp: check_options_def invalid_def)

context aead_client
begin

lemma main_run_ok:
  assumes "lib_ok" and "0 < ldp" and "fresh w"
    and "parse_args B program args default_options w = (Inr options, w)"
    and "check_options options w = (Inr options, w)"
  shows "succeeds (main ldp arch B program args w) (main_result ldp arch (op_info B) options w)"
proof -
  have ok: "options_ok options"
    using parse_args_options_ok [OF default_options_ok assms(4)] by simp
  then have "o_samples options \<noteq> 0" by (simp add: options_ok_def)
  note case_ok = run_case_ok [OF assms(1,2) _ this]
  have run: "succeeds (run_plan (exec_case ldp arch B options) (plan options (i_algorithms (op_info B))) w)
      (plan_result (case_output ldp arch (op_info B) options) case_title (unat (o_samples options))
        (plan options (i_algorithms (op_info B))) w)"
    by (rule run_plan_ok [OF _ assms(3)]) (use plan_sizes [OF ok] case_ok in fastforce)
  show ?thesis
  proof (cases "o_algorithm options \<noteq> ''all'' \<and> o_algorithm options \<notin> set (i_algorithms (op_info B))")
    case True
    then have "plan options (i_algorithms (op_info B)) = []" using plan_unsupported by blast
    then show ?thesis
      using True by (simp add: main_parsed [OF assms(4,5)] main_result_def)
  next
    case False
    then have res: "main_result ldp arch (op_info B) options w =
      plan_result (case_output ldp arch (op_info B) options) case_title (unat (o_samples options))
        (plan options (i_algorithms (op_info B))) w"
      by (intro ext) (auto simp: main_result_def)
    have "main ldp arch B program args w =
      run_plan (exec_case ldp arch B options) (plan options (i_algorithms (op_info B))) w"
      using False unfolding main_parsed [OF assms(4,5)]
      by (cases "run_plan (exec_case ldp arch B options) (plan options (i_algorithms (op_info B))) w") auto
    then show ?thesis using run res by simp
  qed
qed

text \<open>An early exit leaves the heap alone and has code 0 or 2.\<close>

lemma main_ok:
  assumes "lib_ok" and "0 < ldp" and "fresh w"
  shows "succeeds (main ldp arch B program args w)
    (\<lambda>(r, w'). w_heap w' = w_heap w \<and> r \<in> {0, 1, 2})"
proof -
  obtain res w1 where p: "parse_args B program args default_options w = (res, w1)"
    by (cases "parse_args B program args default_options w")
  show ?thesis
  proof (cases "\<exists>options. res = Inr options \<and> check_options options w = (Inr options, w)")
    case True
    then obtain options where o: "res = Inr options" "check_options options w = (Inr options, w)"
      by blast
    have "w1 = w" using parse_args_options_ok [OF default_options_ok] p o(1) by blast
    with p o(1) have "parse_args B program args default_options w = (Inr options, w)" by simp
    from main_run_ok [OF assms this o(2), of arch] show ?thesis
      by (rule succeeds_mono) (auto simp: main_result_def plan_result_def print_err_def
          dest: owned_Nil_heap [OF _ assms(3)] plan_trace_code split: if_splits)
  next
    case False
    show ?thesis
    proof (cases res)
      case (Inl code)
      then show ?thesis using p parse_args_exit [of B program args default_options w code w1]
        by (auto simp: main_def)
    next
      case (Inr options)
      then have "w1 = w" using parse_args_options_ok [OF default_options_ok] p by blast
      moreover obtain m where "check_options options w = (Inl 2, print_err m w)"
        using False Inr check_options_cases by blast
      ultimately show ?thesis using p Inr by (simp add: main_def print_err_def)
    qed
  qed
qed

end

subsection \<open>The program on the AEAD backend\<close>

interpretation cli: aead_client "aead_ops name L" aead_holds aead_ready aead_valid "evp_ok L"
  for name :: string and L :: "('k, 'c, 'l) evp_lib"
  by unfold_locales (simp add: aead_valid_def)

lemma aead_info: "op_info (aead_ops name L) = ofb_backend_info name L"
  by (simp add: aead_ops_def)



text \<open>C2: on every input, clock, allocator and library that keeps its contract, the program
  terminates without undefined behaviour, with exit code 0, 1 or 2, and every block it
  allocated has been released.\<close>

theorem main_safe:
  assumes "evp_ok L" and "0 < ldp" and "fresh w"
  shows "\<exists>r w'. main ldp arch (aead_ops name L) program args w = Some (r, w') \<and>
    w_heap w' = w_heap w \<and> r \<in> {0, 1, 2}"
  using cli.main_ok [OF assms, of arch name program args] by (auto simp: succeeds_iff)

theorem main_safe_witness:
  "\<exists>r w'. main 64 ''x86_64'' (aead_ops ''demo'' demo_lib) ''ofb'' [''--size'', ''4'', ''--samples'', ''2'']
      demo_world = Some (r, w') \<and> w_heap w' = w_heap demo_world \<and> r \<in> {0, 1, 2}"
  by (rule main_safe) (simp_all add: demo_lib_ok demo_fresh)

text \<open>C1: with options that parse and pass the checks, the program prints what the plan asks for: for
  every case one line for each sample, numbered from 0, all with the same count of at least 64
  iterations, a positive duration and the exact product as byte count. It exits with 0 after
  the last case, or with 1 after the first case that fails, which it names on the error
  stream; it exits with 2 and prints no result if the backend does not have the algorithm.\<close>

theorem main_output:
  assumes "evp_ok L" and "0 < ldp" and "fresh w"
    and "parse_args (aead_ops name L) program args default_options w = (Inr options, w)"
    and "check_options options w = (Inr options, w)"
  shows "\<exists>res. main ldp arch (aead_ops name L) program args w = Some res \<and>
    main_result ldp arch (ofb_backend_info name L) options w res"
  using cli.main_run_ok [OF assms(1-3) assms(4,5), of arch]
  by (auto simp: succeeds_iff aead_info)

theorem main_output_witness:
  "\<exists>res. main 64 ''x86_64'' (aead_ops ''demo'' demo_lib) ''ofb'' [''--operation'', ''seal''] demo_world =
      Some res \<and>
    main_result 64 ''x86_64'' (ofb_backend_info ''demo'' demo_lib)
      (default_options\<lparr>o_operation := ''seal''\<rparr>) demo_world res"
  by (rule main_output)
    (simp_all add: demo_lib_ok demo_fresh set_option_text check_options_def default_options_def)

text \<open>C23: a case whose verification fails prints no measurement: nothing is added to the standard
  output, the case is named on the error stream, and the backend is destroyed.\<close>

theorem unverified_not_measured:
  assumes "evp_ok L" and "n \<noteq> 0" and "fresh w"
    and "ofb_backend_create L \<lparr>p_algorithm = a, p_operation = operation, p_message_size = n,
      p_aad_size = o_aad_size options\<rparr> w = Some (0, p, w1)"
    and "ofb_backend_verify L p w1 = Some (r, w2)" and "r \<noteq> 0"
  shows "\<exists>w'. run_case ldp arch (aead_ops name L) options a operation n w = Some (-1, w') \<and>
    w_out w' = w_out w \<and> w_heap w' = w_heap w \<and>
    w_err w' = w_err w @ ''correctness verification failed: '' @ case_name a operation n"
proof -
  have "aead_valid \<lparr>p_algorithm = a, p_operation = operation, p_message_size = n,
      p_aad_size = o_aad_size options\<rparr>" using assms(2) by (simp add: aead_valid_def)
  from create_ok [OF assms(1) this assms(3)] assms(4)
  have h1: "aead_holds w p w1" "io w1 = io w" by simp_all
  from verify_ok [OF assms(1) h1(1)] assms(5)
  have h2: "aead_holds w p w2" "io w2 = io w1" by simp_all
  obtain w3 where w3: "fail_case (aead_ops name L) p (''correctness verification failed: '' @
        case_name a operation n) w2 = Some (-1, w3)"
      "owned w [] w3" "w_out w3 = w_out w2"
      "w_err w3 = w_err w2 @ ''correctness verification failed: '' @ case_name a operation n"
    using cli.fail_case_run [OF assms(1) h2(1)] .
  have "run_case ldp arch (aead_ops name L) options a operation n w = Some (-1, w3)"
    using assms(4-6) w3(1) by (simp add: run_case_def aead_ops_def)
  then show ?thesis
    using w3(2-4) io_eqD [OF h1(2)] io_eqD [OF h2(2)] owned_Nil_heap [OF _ assms(3)] by auto
qed

text \<open>A library whose openings are never authentic.\<close>

definition rejecting_lib :: "(unit, u8, unit) evp_lib" where
  "rejecting_lib = demo_lib\<lparr>evp_dec_final := (\<lambda>x l. ((0, 0, []), x, l))\<rparr>"

lemma rejecting_lib_ok: "evp_ok rejecting_lib"
  using demo_lib_ok by (simp add: evp_ok_def rejecting_lib_def final_ok_def)

lemma rejecting_session:
  "succeeds (do {
     (r, p, w) \<leftarrow> ofb_backend_create rejecting_lib (demo_params OFB_SEAL) demo_world;
     (v, w) \<leftarrow> ofb_backend_verify rejecting_lib p w;
     Some (r, v)}) (\<lambda>res. res = (0, -1))"
  by (simp add: rejecting_lib_def demo_defs memory_defs aead_defs demo_fill list_all_iff Let_def
      cong: bind_weak_cong succeeds_weak_cong del: succeeds_bind)

theorem unverified_not_measured_witness:
  "\<exists>w'. run_case 64 ''x86_64'' (aead_ops ''demo'' rejecting_lib) (default_options\<lparr>o_aad_size := 0\<rparr>)
      ''AES-128-GCM'' OFB_SEAL 2 demo_world = Some (-1, w') \<and>
    w_out w' = w_out demo_world \<and> w_heap w' = w_heap demo_world \<and>
    w_err w' = w_err demo_world @
      ''correctness verification failed: '' @ case_name ''AES-128-GCM'' OFB_SEAL 2"
proof -
  obtain p w1 w2 where
    run: "ofb_backend_create rejecting_lib (demo_params OFB_SEAL) demo_world = Some (0, p, w1)"
      "ofb_backend_verify rejecting_lib p w1 = Some (-1, w2)"
    using rejecting_session by (auto simp: succeeds_iff Option.bind_eq_Some_conv)
  have q: "demo_params OFB_SEAL = \<lparr>p_algorithm = ''AES-128-GCM'', p_operation = OFB_SEAL,
    p_message_size = 2, p_aad_size = o_aad_size (default_options\<lparr>o_aad_size := 0\<rparr>)\<rparr>"
    by (simp add: demo_params_def)
  show ?thesis
    by (rule unverified_not_measured [OF rejecting_lib_ok _ demo_fresh run(1) [unfolded q] run(2)])
      simp_all
qed

theorem parse_args_sane_witness:
  "options_ok (default_options\<lparr>o_size := 32, o_size_set := True\<rparr>) \<and> demo_world = demo_world"
proof (rule parse_args_sane)
  show "parse_args (aead_ops ''demo'' demo_lib) ''ofb'' [''--size'', dec (unat (32 :: u64))]
      default_options demo_world = (Inr (default_options\<lparr>o_size := 32, o_size_set := True\<rparr>), demo_world)"
    using set_option_size [of 32] by simp
qed

theorem parse_args_round_trip_witness:
  "parse_args (aead_ops ''demo'' demo_lib) ''ofb'' (args_of (default_options\<lparr>o_samples := 3\<rparr>))
    default_options demo_world = (Inr (default_options\<lparr>o_samples := 3\<rparr>), demo_world)"
  by (rule parse_args_round_trip) (simp add: options_ok_def default_options_def)

end
