(* ===== verification/Tls_Backend.thy ===== *)
theory Tls_Backend
  imports Runner
begin

unbundle bit_operations_syntax

text \<open>
  \<^verbatim>\<open>backends/openssl_tls.c\<close>: the TLS 1.3 backend behind the functions of \<^verbatim>\<open>tls_bench.h\<close>. A
  client and a server are connected by a pair of in-memory BIOs; the benchmark is either the
  whole handshake or the transfer of a message over an established connection.

  The SSL functions of the library are the record \<open>tls_lib\<close> that the definitions take as an
  argument. The library hands out three kinds of objects. A connection owns the BIO that
  \<^verbatim>\<open>SSL_set_bio\<close> attaches to it, and \<^verbatim>\<open>SSL_free\<close> releases both; what is in flight between two
  BIOs is part of the library's private state. A call on an object of the wrong kind is
  undefined.
\<close>

subsection \<open>The library\<close>

datatype ('c, 's, 'b) tls_obj = CtxObj 'c | SslObj 's ptr | BioObj 'b

record ('c, 's, 'b, 'l) tls_lib =
  tls_version_text :: string
  ssl_ctx_new :: "'l \<Rightarrow> 'c option \<times> 'l"
  ssl_ctx_free :: "'c \<Rightarrow> 'l \<Rightarrow> 'l"
  ctx_set_min_proto :: "int \<Rightarrow> 'c \<Rightarrow> 'l \<Rightarrow> int \<times> 'c \<times> 'l"
  ctx_set_max_proto :: "int \<Rightarrow> 'c \<Rightarrow> 'l \<Rightarrow> int \<times> 'c \<times> 'l"
  ctx_set_ciphersuites :: "string \<Rightarrow> 'c \<Rightarrow> 'l \<Rightarrow> int \<times> 'c \<times> 'l"
  ctx_use_certificate_file :: "string \<Rightarrow> 'c \<Rightarrow> 'l \<Rightarrow> int \<times> 'c \<times> 'l"
  ctx_use_private_key_file :: "string \<Rightarrow> 'c \<Rightarrow> 'l \<Rightarrow> int \<times> 'c \<times> 'l"
  ctx_check_private_key :: "'c \<Rightarrow> 'l \<Rightarrow> int \<times> 'c \<times> 'l"
  ctx_set_verify_none :: "'c \<Rightarrow> 'l \<Rightarrow> unit \<times> 'c \<times> 'l"
  ssl_new :: "'c \<Rightarrow> 'l \<Rightarrow> 's option \<times> 'l"
  ssl_free :: "'s \<Rightarrow> 'l \<Rightarrow> 'l"
  bio_new_pair :: "'l \<Rightarrow> int \<times> 'b option \<times> 'b option \<times> 'l"
  bio_free :: "'b \<Rightarrow> 'l \<Rightarrow> 'l"
  ssl_set_bio :: "'b \<Rightarrow> 's \<Rightarrow> 'l \<Rightarrow> 's \<times> 'l"
  ssl_set_connect_state :: "'s \<Rightarrow> 'l \<Rightarrow> unit \<times> 's \<times> 'l"
  ssl_set_accept_state :: "'s \<Rightarrow> 'l \<Rightarrow> unit \<times> 's \<times> 'l"
  ssl_do_handshake :: "'s \<Rightarrow> 'l \<Rightarrow> int \<times> 's \<times> 'l"
  ssl_get_error :: "int \<Rightarrow> 's \<Rightarrow> 'l \<Rightarrow> int \<times> 's \<times> 'l"
  ssl_version :: "'s \<Rightarrow> int"
  ssl_cipher_name :: "'s \<Rightarrow> string"
  ssl_write :: "bytes \<Rightarrow> 's \<Rightarrow> 'l \<Rightarrow> int \<times> 's \<times> 'l"
  ssl_read :: "nat \<Rightarrow> 's \<Rightarrow> 'l \<Rightarrow> (int \<times> bytes) \<times> 's \<times> 'l"
  tls_memcmp :: "bytes \<Rightarrow> bytes \<Rightarrow> int"

text \<open>
  The documented behaviour memory safety rests on: a read returns no more bytes than asked
  for, and its positive result is their number; a successful \<^verbatim>\<open>BIO_new_bio_pair\<close> sets both
  pointers and a failing one neither.
\<close>

definition tls_ok :: "('c, 's, 'b, 'l) tls_lib \<Rightarrow> bool" where
  "tls_ok L \<longleftrightarrow>
     (\<forall>n x l r bs x' l'. ssl_read L n x l = ((r, bs), x', l') \<longrightarrow>
        length bs \<le> n \<and> (0 < r \<longrightarrow> r = int (length bs))) \<and>
     (\<forall>l r a b l'. bio_new_pair L l = (r, a, b, l') \<longrightarrow>
        (if r = 1 then a \<noteq> None \<and> b \<noteq> None else a = None \<and> b = None)) \<and>
     (\<forall>a b. length a = length b \<longrightarrow> (tls_memcmp L a b = 0 \<longleftrightarrow> a = b))"

definition TLS1_3_VERSION :: int where
  "TLS1_3_VERSION = 772"

definition SSL_ERROR_WANT_READ :: int where
  "SSL_ERROR_WANT_READ = 2"

definition SSL_ERROR_WANT_WRITE :: int where
  "SSL_ERROR_WANT_WRITE = 3"

subsection \<open>State\<close>

datatype ofb_tls_benchmark = OFB_TLS_HANDSHAKE | OFB_TLS_TRANSFER

record ofb_tls_params =
  q_cipher :: string
  q_certificate_path :: string
  q_private_key_path :: string
  q_benchmark :: ofb_tls_benchmark
  q_message_size :: u64

definition OFB_TLS_RECORD_SIZE :: nat where
  "OFB_TLS_RECORD_SIZE = 16384"

record tls_pair =
  tp_client :: ptr
  tp_server :: ptr

definition zero_pair :: tls_pair where
  "zero_pair = \<lparr>tp_client = NULL, tp_server = NULL\<rparr>"

record ofb_tls_backend =
  t_client_ctx :: ptr
  t_server_ctx :: ptr
  t_pair :: tls_pair
  t_benchmark :: ofb_tls_benchmark
  t_cipher :: string
  t_plaintext :: ptr
  t_received :: ptr
  t_message_size :: u64
  t_checksum :: u8

type_synonym ('c, 's, 'b, 'l) tls_world = "(ofb_tls_backend, ('c, 's, 'b) tls_obj, 'l) world"

definition zero_tls_backend :: ofb_tls_backend where
  "zero_tls_backend =
     \<lparr>t_client_ctx = NULL, t_server_ctx = NULL, t_pair = zero_pair,
      t_benchmark = OFB_TLS_HANDSHAKE, t_cipher = [], t_plaintext = NULL, t_received = NULL,
      t_message_size = 0, t_checksum = 0\<rparr>"

definition ciphers :: "string list" where
  "ciphers = [''TLS_AES_128_GCM_SHA256'', ''TLS_AES_256_GCM_SHA384'',
     ''TLS_CHACHA20_POLY1305_SHA256'']"

text \<open>The structure of \<^verbatim>\<open>tls_bench.h\<close> has the shape of the one of \<^verbatim>\<open>bench.h\<close>, whose record serves.\<close>

definition ofb_tls_backend_info :: "string \<Rightarrow> ('c, 's, 'b, 'l) tls_lib \<Rightarrow> ofb_backend_info" where
  "ofb_tls_backend_info backend_name L =
     \<lparr>i_name = backend_name, i_version = tls_version_text L, i_algorithms = ciphers\<rparr>"

subsection \<open>Calls on the library's objects\<close>

definition on_ctx ::
  "ptr \<Rightarrow> ('c \<Rightarrow> 'l \<Rightarrow> 'r \<times> 'c \<times> 'l) \<Rightarrow> ('c, 's, 'b, 'l) tls_world \<Rightarrow>
   ('r \<times> ('c, 's, 'b, 'l) tls_world) option" where
  "on_ctx p f w =
     (case get_obj p w of
        Some (CtxObj c) \<Rightarrow>
          let (r, c', l) = f c (w_lib w)
          in Some (r, (replace p (Obj (CtxObj c')) w)\<lparr>w_lib := l\<rparr>)
      | _ \<Rightarrow> None)"

definition on_ssl ::
  "ptr \<Rightarrow> ('s \<Rightarrow> 'l \<Rightarrow> 'r \<times> 's \<times> 'l) \<Rightarrow> ('c, 's, 'b, 'l) tls_world \<Rightarrow>
   ('r \<times> ('c, 's, 'b, 'l) tls_world) option" where
  "on_ssl p f w =
     (case get_obj p w of
        Some (SslObj s bio) \<Rightarrow>
          let (r, s', l) = f s (w_lib w)
          in Some (r, (replace p (Obj (SslObj s' bio)) w)\<lparr>w_lib := l\<rparr>)
      | _ \<Rightarrow> None)"

definition SSL_CTX_new ::
  "('c, 's, 'b, 'l) tls_lib \<Rightarrow> ('c, 's, 'b, 'l) tls_world \<Rightarrow> ptr \<times> ('c, 's, 'b, 'l) tls_world" where
  "SSL_CTX_new L w =
     (let (x, l) = ssl_ctx_new L (w_lib w) in new_obj (map_option CtxObj x) (w\<lparr>w_lib := l\<rparr>))"

definition SSL_CTX_free ::
  "('c, 's, 'b, 'l) tls_lib \<Rightarrow> ptr \<Rightarrow> ('c, 's, 'b, 'l) tls_world \<Rightarrow>
   ('c, 's, 'b, 'l) tls_world option" where
  "SSL_CTX_free L p w =
     (if p = NULL then Some w
      else case get_obj p w of
        Some (CtxObj c) \<Rightarrow> free_obj p (w\<lparr>w_lib := ssl_ctx_free L c (w_lib w)\<rparr>)
      | _ \<Rightarrow> None)"

definition SSL_new ::
  "('c, 's, 'b, 'l) tls_lib \<Rightarrow> ptr \<Rightarrow> ('c, 's, 'b, 'l) tls_world \<Rightarrow>
   (ptr \<times> ('c, 's, 'b, 'l) tls_world) option" where
  "SSL_new L ctx w =
     (case get_obj ctx w of
        Some (CtxObj c) \<Rightarrow>
          let (x, l) = ssl_new L c (w_lib w)
          in Some (new_obj (map_option (\<lambda>s. SslObj s NULL) x) (w\<lparr>w_lib := l\<rparr>))
      | _ \<Rightarrow> None)"

definition BIO_free ::
  "('c, 's, 'b, 'l) tls_lib \<Rightarrow> ptr \<Rightarrow> ('c, 's, 'b, 'l) tls_world \<Rightarrow>
   ('c, 's, 'b, 'l) tls_world option" where
  "BIO_free L p w =
     (if p = NULL then Some w
      else case get_obj p w of
        Some (BioObj b) \<Rightarrow> free_obj p (w\<lparr>w_lib := bio_free L b (w_lib w)\<rparr>)
      | _ \<Rightarrow> None)"

definition SSL_free ::
  "('c, 's, 'b, 'l) tls_lib \<Rightarrow> ptr \<Rightarrow> ('c, 's, 'b, 'l) tls_world \<Rightarrow>
   ('c, 's, 'b, 'l) tls_world option" where
  "SSL_free L p w =
     (if p = NULL then Some w
      else case get_obj p w of
        Some (SslObj s bio) \<Rightarrow> do {
          w \<leftarrow> BIO_free L bio w;
          free_obj p (w\<lparr>w_lib := ssl_free L s (w_lib w)\<rparr>)
        }
      | _ \<Rightarrow> None)"

definition BIO_new_bio_pair ::
  "('c, 's, 'b, 'l) tls_lib \<Rightarrow> ('c, 's, 'b, 'l) tls_world \<Rightarrow>
   int \<times> ptr \<times> ptr \<times> ('c, 's, 'b, 'l) tls_world" where
  "BIO_new_bio_pair L w =
     (let (r, a, b, l) = bio_new_pair L (w_lib w);
          (p, w) = new_obj (map_option BioObj a) (w\<lparr>w_lib := l\<rparr>);
          (q, w) = new_obj (map_option BioObj b) w
      in (r, p, q, w))"

text \<open>\<^verbatim>\<open>SSL_set_bio(ssl, bio, bio)\<close> on a connection that has no BIO yet.\<close>

definition SSL_set_bio ::
  "('c, 's, 'b, 'l) tls_lib \<Rightarrow> ptr \<Rightarrow> ptr \<Rightarrow> ('c, 's, 'b, 'l) tls_world \<Rightarrow>
   ('c, 's, 'b, 'l) tls_world option" where
  "SSL_set_bio L p bio w =
     (case (get_obj p w, get_obj bio w) of
        (Some (SslObj s NULL), Some (BioObj b)) \<Rightarrow>
          let (s', l) = ssl_set_bio L b s (w_lib w)
          in Some ((replace p (Obj (SslObj s' bio)) w)\<lparr>w_lib := l\<rparr>)
      | _ \<Rightarrow> None)"

subsection \<open>Connections\<close>

definition tls_pair_destroy ::
  "('c, 's, 'b, 'l) tls_lib \<Rightarrow> tls_pair \<Rightarrow> ('c, 's, 'b, 'l) tls_world \<Rightarrow>
   (tls_pair \<times> ('c, 's, 'b, 'l) tls_world) option" where
  "tls_pair_destroy L pair w = do {
     w \<leftarrow> SSL_free L (tp_client pair) w;
     w \<leftarrow> SSL_free L (tp_server pair) w;
     Some (pair\<lparr>tp_client := NULL, tp_server := NULL\<rparr>, w)
   }"

definition handshake_step ::
  "('c, 's, 'b, 'l) tls_lib \<Rightarrow> ptr \<Rightarrow> bool \<Rightarrow> ('c, 's, 'b, 'l) tls_world \<Rightarrow>
   (int \<times> bool \<times> ('c, 's, 'b, 'l) tls_world) option" where
  "handshake_step L ssl finished w =
     (if finished then Some (0, finished, w)
      else do {
        (result, w) \<leftarrow> on_ssl ssl (ssl_do_handshake L) w;
        if result = 1 then Some (0, True, w)
        else do {
          (error, w) \<leftarrow> on_ssl ssl (ssl_get_error L result) w;
          if error \<noteq> SSL_ERROR_WANT_READ \<and> error \<noteq> SSL_ERROR_WANT_WRITE
          then Some (-1, finished, w) else Some (0, finished, w)
        }
      })"

text \<open>The loop of \<^verbatim>\<open>tls_pair_create\<close>, with the number of attempts that are left.\<close>

fun handshake_loop ::
  "('c, 's, 'b, 'l) tls_lib \<Rightarrow> tls_pair \<Rightarrow> nat \<Rightarrow> bool \<Rightarrow> bool \<Rightarrow> ('c, 's, 'b, 'l) tls_world \<Rightarrow>
   (int \<times> ('c, 's, 'b, 'l) tls_world) option" where
  "handshake_loop L pair 0 cf sf w = Some (-1, w)"
| "handshake_loop L pair (Suc k) cf sf w = do {
     (r, cf, w) \<leftarrow> handshake_step L (tp_client pair) cf w;
     if r \<noteq> 0 then Some (-1, w)
     else do {
       (r, sf, w) \<leftarrow> handshake_step L (tp_server pair) sf w;
       if r \<noteq> 0 then Some (-1, w)
       else if cf \<and> sf then Some (0, w)
       else handshake_loop L pair k cf sf w
     }
   }"

text \<open>The calls that connect the two ends and run the handshake.\<close>

definition connect_pair ::
  "('c, 's, 'b, 'l) tls_lib \<Rightarrow> tls_pair \<Rightarrow> ptr \<Rightarrow> ptr \<Rightarrow> ('c, 's, 'b, 'l) tls_world \<Rightarrow>
   (int \<times> ('c, 's, 'b, 'l) tls_world) option" where
  "connect_pair L pair client_bio server_bio w = do {
     w \<leftarrow> SSL_set_bio L (tp_client pair) client_bio w;
     w \<leftarrow> SSL_set_bio L (tp_server pair) server_bio w;
     (_, w) \<leftarrow> on_ssl (tp_client pair) (ssl_set_connect_state L) w;
     (_, w) \<leftarrow> on_ssl (tp_server pair) (ssl_set_accept_state L) w;
     handshake_loop L pair 10000 False False w
   }"

definition finish_pair ::
  "('c, 's, 'b, 'l) tls_lib \<Rightarrow> tls_pair \<Rightarrow> ptr \<Rightarrow> ptr \<Rightarrow> ('c, 's, 'b, 'l) tls_world \<Rightarrow>
   (int \<times> tls_pair \<times> ('c, 's, 'b, 'l) tls_world) option" where
  "finish_pair L pair client_bio server_bio w = do {
     (r, w) \<leftarrow> connect_pair L pair client_bio server_bio w;
     if r = 0 then Some (0, pair, w)
     else do { (pair, w) \<leftarrow> tls_pair_destroy L pair w; Some (-1, pair, w) }
   }"

definition tls_pair_create ::
  "('c, 's, 'b, 'l) tls_lib \<Rightarrow> ptr \<Rightarrow> ptr \<Rightarrow> ('c, 's, 'b, 'l) tls_world \<Rightarrow>
   (int \<times> tls_pair \<times> ('c, 's, 'b, 'l) tls_world) option" where
  "tls_pair_create L client_ctx server_ctx w = do {
     (client, w) \<leftarrow> SSL_new L client_ctx w;
     (server, w) \<leftarrow> SSL_new L server_ctx w;
     let pair = \<lparr>tp_client = client, tp_server = server\<rparr>;
     let (r, client_bio, server_bio, w) =
       (if client = NULL \<or> server = NULL then (0, NULL, NULL, w) else BIO_new_bio_pair L w);
     if client = NULL \<or> server = NULL \<or> r \<noteq> 1
     then do {
       w \<leftarrow> BIO_free L client_bio w;
       w \<leftarrow> BIO_free L server_bio w;
       (pair, w) \<leftarrow> tls_pair_destroy L pair w;
       Some (-1, pair, w)
     }
     else finish_pair L pair client_bio server_bio w
   }"

definition get_ssl :: "ptr \<Rightarrow> ('c, 's, 'b, 'l) tls_world \<Rightarrow> 's option" where
  "get_ssl p w = (case get_obj p w of Some (SslObj s _) \<Rightarrow> Some s | _ \<Rightarrow> None)"

definition tls_pair_matches ::
  "('c, 's, 'b, 'l) tls_lib \<Rightarrow> tls_pair \<Rightarrow> string \<Rightarrow> ('c, 's, 'b, 'l) tls_world \<Rightarrow> bool option" where
  "tls_pair_matches L pair cipher w = do {
     client \<leftarrow> get_ssl (tp_client pair) w;
     server \<leftarrow> get_ssl (tp_server pair) w;
     Some (ssl_version L client = TLS1_3_VERSION \<and> ssl_version L server = TLS1_3_VERSION \<and>
       ssl_cipher_name L client = cipher \<and> ssl_cipher_name L server = cipher)
   }"

subsection \<open>Transferring a message\<close>

text \<open>The inner loop: read until the chunk that starts at \<open>offset\<close> is complete.\<close>

function read_loop ::
  "('c, 's, 'b, 'l) tls_lib \<Rightarrow> ofb_tls_backend \<Rightarrow> nat \<Rightarrow> nat \<Rightarrow> nat \<Rightarrow> ('c, 's, 'b, 'l) tls_world \<Rightarrow>
   (int \<times> ('c, 's, 'b, 'l) tls_world) option" where
  "read_loop L st offset chunk received w =
     (if received < chunk
      then do {
        ((result, bs), w) \<leftarrow> on_ssl (tp_server (t_pair st)) (ssl_read L (chunk - received)) w;
        w \<leftarrow> store (t_received st) (int (offset + received)) bs w;
        if result \<le> 0 then Some (-1, w)
        else read_loop L st offset chunk (received + nat result) w
      }
      else Some (0, w))"
  by pat_completeness auto
termination
  by (relation "measure (\<lambda>(L, st, offset, chunk, received, w). chunk - received)") auto

declare read_loop.simps [simp del]

function transfer_loop ::
  "('c, 's, 'b, 'l) tls_lib \<Rightarrow> ofb_tls_backend \<Rightarrow> nat \<Rightarrow> ('c, 's, 'b, 'l) tls_world \<Rightarrow>
   (int \<times> ('c, 's, 'b, 'l) tls_world) option" where
  "transfer_loop L st offset w =
     (if offset < unat (t_message_size st)
      then do {
        let chunk = min (unat (t_message_size st) - offset) OFB_TLS_RECORD_SIZE;
        bs \<leftarrow> load (t_plaintext st) offset chunk w;
        (result, w) \<leftarrow> on_ssl (tp_client (t_pair st)) (ssl_write L bs) w;
        if result \<noteq> int chunk then Some (-1, w)
        else do {
          (r, w) \<leftarrow> read_loop L st offset chunk 0 w;
          if r \<noteq> 0 then Some (-1, w) else transfer_loop L st (offset + chunk) w
        }
      }
      else Some (0, w))"
  by pat_completeness auto
termination
  by (relation "measure (\<lambda>(L, st, offset, w). unat (t_message_size st) - offset)")
    (auto simp: OFB_TLS_RECORD_SIZE_def)

declare transfer_loop.simps [simp del]

definition transfer_once ::
  "('c, 's, 'b, 'l) tls_lib \<Rightarrow> ptr \<Rightarrow> ('c, 's, 'b, 'l) tls_world \<Rightarrow>
   (int \<times> ('c, 's, 'b, 'l) tls_world) option" where
  "transfer_once L state w = do {
     st \<leftarrow> get_struct state w;
     transfer_loop L st 0 w
   }"

subsection \<open>The functions of the interface\<close>

definition ofb_tls_backend_destroy ::
  "('c, 's, 'b, 'l) tls_lib \<Rightarrow> ptr \<Rightarrow> ('c, 's, 'b, 'l) tls_world \<Rightarrow>
   ('c, 's, 'b, 'l) tls_world option" where
  "ofb_tls_backend_destroy L state w =
     (if state = NULL then Some w
      else do {
        st \<leftarrow> get_struct state w;
        (pair, w) \<leftarrow> tls_pair_destroy L (t_pair st) w;
        w \<leftarrow> put_struct state (st\<lparr>t_pair := pair\<rparr>) w;
        w \<leftarrow> SSL_CTX_free L (t_client_ctx st) w;
        w \<leftarrow> SSL_CTX_free L (t_server_ctx st) w;
        w \<leftarrow> free (t_plaintext st) w;
        w \<leftarrow> free (t_received st) w;
        free state w
      })"

definition tls_plaintext_fill :: "u64 \<Rightarrow> bytes" where
  "tls_plaintext_fill n = map (\<lambda>i. ucast ((of_nat i :: u64) * 29 + 11)) [0..<unat n]"

definition create_tls_blocks ::
  "('c, 's, 'b, 'l) tls_lib \<Rightarrow> ofb_tls_params \<Rightarrow> ('c, 's, 'b, 'l) tls_world \<Rightarrow>
   ofb_tls_backend \<times> ('c, 's, 'b, 'l) tls_world" where
  "create_tls_blocks L params w =
     (let (client_ctx, w) = SSL_CTX_new L w;
          (server_ctx, w) = SSL_CTX_new L w;
          n = (if q_message_size params = 0 then 1 else q_message_size params);
          (plaintext, w) = malloc n w;
          (received, w) = malloc n w
      in (zero_tls_backend\<lparr>t_client_ctx := client_ctx, t_server_ctx := server_ctx,
            t_benchmark := q_benchmark params, t_cipher := q_cipher params,
            t_message_size := q_message_size params, t_plaintext := plaintext,
            t_received := received\<rparr>, w))"

text \<open>The configuration calls, in the order of the condition; the result says if all returned 1.\<close>

definition configure ::
  "('c, 's, 'b, 'l) tls_lib \<Rightarrow> ofb_tls_params \<Rightarrow> ptr \<Rightarrow> ptr \<Rightarrow> ('c, 's, 'b, 'l) tls_world \<Rightarrow>
   (bool \<times> ('c, 's, 'b, 'l) tls_world) option" where
  "configure L params client_ctx server_ctx w = do {
     (r, w) \<leftarrow> on_ctx client_ctx (ctx_set_min_proto L TLS1_3_VERSION) w;
     if r \<noteq> 1 then Some (False, w) else do {
     (r, w) \<leftarrow> on_ctx client_ctx (ctx_set_max_proto L TLS1_3_VERSION) w;
     if r \<noteq> 1 then Some (False, w) else do {
     (r, w) \<leftarrow> on_ctx server_ctx (ctx_set_min_proto L TLS1_3_VERSION) w;
     if r \<noteq> 1 then Some (False, w) else do {
     (r, w) \<leftarrow> on_ctx server_ctx (ctx_set_max_proto L TLS1_3_VERSION) w;
     if r \<noteq> 1 then Some (False, w) else do {
     (r, w) \<leftarrow> on_ctx client_ctx (ctx_set_ciphersuites L (q_cipher params)) w;
     if r \<noteq> 1 then Some (False, w) else do {
     (r, w) \<leftarrow> on_ctx server_ctx (ctx_set_ciphersuites L (q_cipher params)) w;
     if r \<noteq> 1 then Some (False, w) else do {
     (r, w) \<leftarrow> on_ctx server_ctx (ctx_use_certificate_file L (q_certificate_path params)) w;
     if r \<noteq> 1 then Some (False, w) else do {
     (r, w) \<leftarrow> on_ctx server_ctx (ctx_use_private_key_file L (q_private_key_path params)) w;
     if r \<noteq> 1 then Some (False, w) else do {
     (r, w) \<leftarrow> on_ctx server_ctx (ctx_check_private_key L) w;
     Some (r = 1, w)
   }}}}}}}}}"

text \<open>The rest of creation, once the contexts are configured.\<close>

definition create_tail ::
  "('c, 's, 'b, 'l) tls_lib \<Rightarrow> ofb_tls_params \<Rightarrow> ptr \<Rightarrow> ofb_tls_backend \<Rightarrow>
   ('c, 's, 'b, 'l) tls_world \<Rightarrow> (int \<times> ptr \<times> ('c, 's, 'b, 'l) tls_world) option" where
  "create_tail L params state st w = do {
     (_, w) \<leftarrow> on_ctx (t_client_ctx st) (ctx_set_verify_none L) w;
     w \<leftarrow> store (t_plaintext st) 0 (tls_plaintext_fill (q_message_size params)) w;
     (r, w) \<leftarrow>
       (if q_benchmark params = OFB_TLS_TRANSFER
        then do {
          (r, pair, w) \<leftarrow> tls_pair_create L (t_client_ctx st) (t_server_ctx st) w;
          w \<leftarrow> put_struct state (st\<lparr>t_pair := pair\<rparr>) w;
          Some (r, w)
        }
        else Some (0, w));
     if r \<noteq> 0 then do { w \<leftarrow> ofb_tls_backend_destroy L state w; Some (-1, NULL, w) }
     else Some (0, state, w)
   }"

definition ofb_tls_backend_create ::
  "('c, 's, 'b, 'l) tls_lib \<Rightarrow> ofb_tls_params \<Rightarrow> ('c, 's, 'b, 'l) tls_world \<Rightarrow>
   (int \<times> ptr \<times> ('c, 's, 'b, 'l) tls_world) option" where
  "ofb_tls_backend_create L params w =
     (if q_message_size params > INT_MAX then Some (-1, NULL, w)
      else do {
        let (state, w) = alloc (Struct zero_tls_backend) w;
        if state = NULL then Some (-1, NULL, w)
        else do {
          let (st, w) = create_tls_blocks L params w;
          w \<leftarrow> put_struct state st w;
          (ok, w) \<leftarrow>
            (if t_client_ctx st = NULL \<or> t_server_ctx st = NULL \<or> t_plaintext st = NULL \<or>
                t_received st = NULL
             then Some (False, w) else configure L params (t_client_ctx st) (t_server_ctx st) w);
          if \<not> ok then do { w \<leftarrow> ofb_tls_backend_destroy L state w; Some (-1, NULL, w) }
          else create_tail L params state st w
        }
      })"

definition ofb_tls_backend_verify ::
  "('c, 's, 'b, 'l) tls_lib \<Rightarrow> ptr \<Rightarrow> ('c, 's, 'b, 'l) tls_world \<Rightarrow>
   (int \<times> ('c, 's, 'b, 'l) tls_world) option" where
  "ofb_tls_backend_verify L state w = do {
     st \<leftarrow> get_struct state w;
     if t_benchmark st = OFB_TLS_HANDSHAKE
     then do {
       (r, pair, w) \<leftarrow> tls_pair_create L (t_client_ctx st) (t_server_ctx st) w;
       if r \<noteq> 0 then Some (-1, w)
       else do {
         m \<leftarrow> tls_pair_matches L pair (t_cipher st) w;
         (_, w) \<leftarrow> tls_pair_destroy L pair w;
         Some (if m then 0 else -1, w)
       }
     }
     else do {
       m \<leftarrow> tls_pair_matches L (t_pair st) (t_cipher st) w;
       if \<not> m then Some (-1, w)
       else do {
         (r, w) \<leftarrow> transfer_once L state w;
         if r \<noteq> 0 then Some (-1, w)
         else do {
           plaintext \<leftarrow> load (t_plaintext st) 0 (unat (t_message_size st)) w;
           received \<leftarrow> load (t_received st) 0 (unat (t_message_size st)) w;
           if tls_memcmp L plaintext received \<noteq> 0 then Some (-1, w) else Some (0, w)
         }
       }
     }
   }"

fun handshake_batch ::
  "('c, 's, 'b, 'l) tls_lib \<Rightarrow> ofb_tls_backend \<Rightarrow> nat \<Rightarrow> ('c, 's, 'b, 'l) tls_world \<Rightarrow>
   (int \<times> ('c, 's, 'b, 'l) tls_world) option" where
  "handshake_batch L st 0 w = Some (0, w)"
| "handshake_batch L st (Suc n) w = do {
     (r, pair, w) \<leftarrow> tls_pair_create L (t_client_ctx st) (t_server_ctx st) w;
     if r \<noteq> 0 then Some (-1, w)
     else do {
       (_, w) \<leftarrow> tls_pair_destroy L pair w;
       handshake_batch L st n w
     }
   }"

fun transfer_batch ::
  "('c, 's, 'b, 'l) tls_lib \<Rightarrow> ptr \<Rightarrow> nat \<Rightarrow> ('c, 's, 'b, 'l) tls_world \<Rightarrow>
   (int \<times> ('c, 's, 'b, 'l) tls_world) option" where
  "transfer_batch L state 0 w = Some (0, w)"
| "transfer_batch L state (Suc n) w = do {
     (r, w) \<leftarrow> transfer_once L state w;
     if r \<noteq> 0 then Some (-1, w) else transfer_batch L state n w
   }"

definition ofb_tls_backend_run_batch ::
  "('c, 's, 'b, 'l) tls_lib \<Rightarrow> ptr \<Rightarrow> u64 \<Rightarrow> ('c, 's, 'b, 'l) tls_world \<Rightarrow>
   (int \<times> ('c, 's, 'b, 'l) tls_world) option" where
  "ofb_tls_backend_run_batch L state iterations w = do {
     st \<leftarrow> get_struct state w;
     if t_benchmark st = OFB_TLS_HANDSHAKE then handshake_batch L st (unat iterations) w
     else do {
       (r, w) \<leftarrow> transfer_batch L state (unat iterations) w;
       if r \<noteq> 0 then Some (-1, w)
       else do {
         plaintext \<leftarrow> load (t_plaintext st) 0 (unat (t_message_size st)) w;
         received \<leftarrow> load (t_received st) 0 (unat (t_message_size st)) w;
         if tls_memcmp L plaintext received \<noteq> 0 then Some (-1, w)
         else do {
           last \<leftarrow> load (t_received st)
             (if t_message_size st = 0 then 0 else unat (t_message_size st - 1)) 1 w;
           w \<leftarrow> put_struct state (st\<lparr>t_checksum := t_checksum st XOR hd last\<rparr>) w;
           Some (0, w)
         }
       }
     }
   }"

definition tls_ops ::
  "string \<Rightarrow> ('c, 's, 'b, 'l) tls_lib \<Rightarrow> (ofb_tls_params, ('c, 's, 'b, 'l) tls_world) backend_ops"
where
  "tls_ops backend_name L =
     \<lparr>op_info = ofb_tls_backend_info backend_name L, op_create = ofb_tls_backend_create L,
      op_verify = ofb_tls_backend_verify L, op_run_batch = ofb_tls_backend_run_batch L,
      op_destroy = ofb_tls_backend_destroy L\<rparr>"

end
