(* ===== verification/Tls_Main.thy ===== *)
theory Tls_Main
  imports Tls_Backend C_Text
begin

text \<open>
  \<^verbatim>\<open>src/tls_main.c\<close>: the command line of the TLS benchmark. It has a timed sample and a
  calibration of its own, which differ from those of \<^verbatim>\<open>src/runner.c\<close> in counting bytes only for
  transfers and in the count they start with, and it goes through cipher suites, the two
  benchmarks and the transfer sizes. The file has its own copies of \<^verbatim>\<open>usage\<close>, \<^verbatim>\<open>parse_u64\<close>,
  \<^verbatim>\<open>run_case\<close> and \<^verbatim>\<open>main\<close>, so the definitions carry the prefix \<open>tls_\<close>.

  The architecture and the default paths of the certificate and of the key are macros of the
  build, so they are arguments, as is the precision \<open>ldp\<close> of \<^verbatim>\<open>long double\<close>.
\<close>

record tls_options =
  to_benchmark :: string
  to_cipher :: string
  to_format :: string
  to_certificate_path :: string
  to_private_key_path :: string
  to_size :: u64
  to_samples :: u32
  to_sample_ns :: u64
  to_size_set :: bool

definition tls_default_options :: "string \<Rightarrow> string \<Rightarrow> tls_options" where
  "tls_default_options cert key =
     \<lparr>to_benchmark = ''all'', to_cipher = ''all'', to_format = ''jsonl'',
      to_certificate_path = cert, to_private_key_path = key, to_size = 0, to_samples = 7,
      to_sample_ns = 250000000, to_size_set = False\<rparr>"

record timed_sample =
  ts_iterations :: u64
  ts_elapsed_ns :: u64
  ts_bytes :: u64

definition tls_usage :: "string \<Rightarrow> string" where
  "tls_usage program =
     ''Usage: '' @ program @ '' [options]'' @ newline @
     ''  --benchmark NAME    handshake, transfer, or all (default: all)'' @ newline @
     ''  --cipher NAME       TLS 1.3 cipher suite or all (default: all)'' @ newline @
     ''  --size BYTES        transfer size (default: 1024, 16384)'' @ newline @
     ''  --samples COUNT     samples per case (default: 7)'' @ newline @
     ''  --sample-ms MS      target duration per sample (default: 250)'' @ newline @
     ''  --format FORMAT     jsonl or text (default: jsonl)'' @ newline @
     ''  --cert PATH         server certificate PEM'' @ newline @
     ''  --key PATH          server private key PEM'' @ newline @
     ''  --list              list cipher suites'' @ newline @
     ''  --help              show this help'' @ newline"

definition tls_parse_u64 :: "string \<Rightarrow> u64 option" where
  "tls_parse_u64 text =
     (let (parsed, rest, range) = strtoull text
      in if range \<or> text = [] \<or> rest \<noteq> [] then None else Some parsed)"

subsection \<open>Timing\<close>

definition run_timed ::
  "('p, ('s, 'o, 'l) world) backend_ops \<Rightarrow> ptr \<Rightarrow> u64 \<Rightarrow> ofb_tls_benchmark \<Rightarrow> u64 \<Rightarrow>
   ('s, 'o, 'l) world \<Rightarrow> (timed_sample option \<times> ('s, 'o, 'l) world) option" where
  "run_timed B backend iterations benchmark message_size w = do {
     let (start, w) = ofb_now_ns w;
     if start = 0 then Some (None, w)
     else do {
       (r, w) \<leftarrow> op_run_batch B backend iterations w;
       if r \<noteq> 0 then Some (None, w)
       else do {
         let (stop, w) = ofb_now_ns w;
         if stop \<le> start \<or> (benchmark = OFB_TLS_TRANSFER \<and> message_size \<noteq> 0 \<and>
              iterations > UINT64_MAX div message_size)
         then Some (None, w)
         else Some (Some \<lparr>ts_iterations = iterations, ts_elapsed_ns = stop - start,
                ts_bytes = (if benchmark = OFB_TLS_TRANSFER then iterations * message_size else 0)\<rparr>,
              w)
       }
     }
   }"

partial_function (option) tls_calibrate_loop ::
  "('p, ('s, 'o, 'l) world) backend_ops \<Rightarrow> ptr \<Rightarrow> ofb_tls_benchmark \<Rightarrow> u64 \<Rightarrow> u64 \<Rightarrow> u64 \<Rightarrow>
   ('s, 'o, 'l) world \<Rightarrow> ((u64 \<times> timed_sample) option \<times> ('s, 'o, 'l) world) option" where
  "tls_calibrate_loop B backend benchmark message_size target_ns count w = do {
     (s, w) \<leftarrow> run_timed B backend count benchmark message_size w;
     case s of
       None \<Rightarrow> Some (None, w)
     | Some sample \<Rightarrow>
         if ts_elapsed_ns sample \<ge> target_ns div 8 \<or> count > UINT64_MAX div 2
         then Some (Some (count, sample), w)
         else tls_calibrate_loop B backend benchmark message_size target_ns (count * 2) w
   }"

text \<open>The scaling of the count is the one of \<^verbatim>\<open>src/runner.c\<close>, line by line.\<close>

definition tls_calibrate ::
  "nat \<Rightarrow> ('p, ('s, 'o, 'l) world) backend_ops \<Rightarrow> ptr \<Rightarrow> ofb_tls_benchmark \<Rightarrow> u64 \<Rightarrow> u64 \<Rightarrow>
   ('s, 'o, 'l) world \<Rightarrow> (u64 option \<times> ('s, 'o, 'l) world) option" where
  "tls_calibrate ldp B backend benchmark message_size target_ns w = do {
     let count = (if benchmark = OFB_TLS_HANDSHAKE then 1 else 16);
     (r, w) \<leftarrow> tls_calibrate_loop B backend benchmark message_size target_ns count w;
     case r of
       None \<Rightarrow> Some (None, w)
     | Some (count, sample) \<Rightarrow> do {
         let count = scale_count ldp count target_ns (ts_elapsed_ns sample);
         Some (Some (if count = 0 then 1 else count), w)
       }
   }"

subsection \<open>One case\<close>

definition benchmark_name :: "ofb_tls_benchmark \<Rightarrow> string" where
  "benchmark_name benchmark =
     (if benchmark = OFB_TLS_HANDSHAKE then ''handshake'' else ''transfer'')"

definition tls_case_name :: "string \<Rightarrow> ofb_tls_benchmark \<Rightarrow> u64 \<Rightarrow> string" where
  "tls_case_name cipher benchmark message_size =
     cipher @ ''/'' @ benchmark_name benchmark @ ''/'' @ dec (unat message_size) @ newline"

definition tls_rate :: "nat \<Rightarrow> ofb_tls_benchmark \<Rightarrow> timed_sample \<Rightarrow> rat" where
  "tls_rate ldp benchmark s =
     (if benchmark = OFB_TLS_HANDSHAKE
      then ld_round ldp (ld_round ldp (ld_of ldp (ts_iterations s) * 1000000000) /
             ld_of ldp (ts_elapsed_ns s))
      else ld_round ldp (ld_round ldp (ld_round ldp (ld_of ldp (ts_bytes s) * 1000000000) /
             ld_of ldp (ts_elapsed_ns s)) / 1048576))"

definition tls_jsonl_line ::
  "nat \<Rightarrow> string \<Rightarrow> ofb_backend_info \<Rightarrow> string \<Rightarrow> ofb_tls_benchmark \<Rightarrow> u64 \<Rightarrow> nat \<Rightarrow>
   timed_sample \<Rightarrow> string" where
  "tls_jsonl_line ldp arch info cipher benchmark message_size i s =
     ''{\"schema_version\":1,\"architecture\":\"'' @ arch @ ''\",'' @
     ''\"backend\":\"'' @ i_name info @ ''\",\"version\":\"'' @ i_version info @ ''\",'' @
     ''\"benchmark\":\"tls-'' @ benchmark_name benchmark @ ''\",\"tls_version\":\"TLSv1.3\",'' @
     ''\"cipher\":\"'' @ cipher @ ''\",\"message_bytes\":'' @ dec (unat message_size) @
     '',\"sample\":'' @ dec i @ '','' @
     ''\"iterations\":'' @ dec (unat (ts_iterations s)) @
     '',\"elapsed_ns\":'' @ dec (unat (ts_elapsed_ns s)) @
     (if benchmark = OFB_TLS_HANDSHAKE
      then '',\"handshakes_per_second\":'' @ fixed 3 (tls_rate ldp benchmark s) @ ''}'' @ newline
      else '',\"bytes\":'' @ dec (unat (ts_bytes s)) @
           '',\"mib_per_second\":'' @ fixed 3 (tls_rate ldp benchmark s) @ ''}'' @ newline)"

definition tls_text_line ::
  "nat \<Rightarrow> string \<Rightarrow> ofb_tls_benchmark \<Rightarrow> u64 \<Rightarrow> nat \<Rightarrow> timed_sample \<Rightarrow> string" where
  "tls_text_line ldp cipher benchmark message_size i s =
     (if benchmark = OFB_TLS_HANDSHAKE
      then pad_right 29 cipher @ '' handshake sample='' @ dec i @ ''  '' @
           pad_left 10 CHR '' '' (fixed 2 (tls_rate ldp benchmark s)) @ '' handshakes/s'' @ newline
      else pad_right 29 cipher @ '' transfer '' @
           pad_left 7 CHR '' '' (dec (unat message_size)) @ '' bytes  sample='' @ dec i @ ''  '' @
           pad_left 10 CHR '' '' (fixed 2 (tls_rate ldp benchmark s)) @ '' MiB/s'' @ newline)"

definition tls_sample_line ::
  "nat \<Rightarrow> string \<Rightarrow> ofb_backend_info \<Rightarrow> tls_options \<Rightarrow> string \<Rightarrow> ofb_tls_benchmark \<Rightarrow> u64 \<Rightarrow>
   nat \<Rightarrow> timed_sample \<Rightarrow> string" where
  "tls_sample_line ldp arch info options cipher benchmark message_size i s =
     (if to_format options = ''jsonl''
      then tls_jsonl_line ldp arch info cipher benchmark message_size i s
      else tls_text_line ldp cipher benchmark message_size i s)"

text \<open>The three lines a case ends with when it fails after its creation.\<close>

definition tls_fail_case ::
  "('p, ('s, 'o, 'l) world) backend_ops \<Rightarrow> ptr \<Rightarrow> string \<Rightarrow> ('s, 'o, 'l) world \<Rightarrow>
   (int \<times> ('s, 'o, 'l) world) option" where
  "tls_fail_case B backend message w = do {
     w \<leftarrow> op_destroy B backend (print_err message w);
     Some (-1, w)
   }"

text \<open>The sampling loop from sample number \<open>i\<close> on, \<open>k\<close> samples before its end.\<close>

fun tls_sample_loop ::
  "nat \<Rightarrow> string \<Rightarrow> (ofb_tls_params, ('s, 'o, 'l) world) backend_ops \<Rightarrow> tls_options \<Rightarrow> string \<Rightarrow>
   ofb_tls_benchmark \<Rightarrow> u64 \<Rightarrow> ptr \<Rightarrow> u64 \<Rightarrow> nat \<Rightarrow> nat \<Rightarrow> ('s, 'o, 'l) world \<Rightarrow>
   (int \<times> ('s, 'o, 'l) world) option" where
  "tls_sample_loop ldp arch B options cipher benchmark message_size backend iterations i 0 w =
     Some (0, w)"
| "tls_sample_loop ldp arch B options cipher benchmark message_size backend iterations i (Suc k) w =
     do {
       (s, w) \<leftarrow> run_timed B backend iterations benchmark message_size w;
       case s of
         None \<Rightarrow> tls_fail_case B backend
           (''TLS benchmark failed: '' @ tls_case_name cipher benchmark message_size) w
       | Some sample \<Rightarrow>
           tls_sample_loop ldp arch B options cipher benchmark message_size backend iterations
             (Suc i) k (print_out
               (tls_sample_line ldp arch (op_info B) options cipher benchmark message_size i sample)
               w)
     }"

definition tls_run_case ::
  "nat \<Rightarrow> string \<Rightarrow> (ofb_tls_params, ('s, 'o, 'l) world) backend_ops \<Rightarrow> tls_options \<Rightarrow> string \<Rightarrow>
   ofb_tls_benchmark \<Rightarrow> u64 \<Rightarrow> ('s, 'o, 'l) world \<Rightarrow> (int \<times> ('s, 'o, 'l) world) option" where
  "tls_run_case ldp arch B options cipher benchmark message_size w = do {
     let params = \<lparr>q_cipher = cipher, q_certificate_path = to_certificate_path options,
                   q_private_key_path = to_private_key_path options, q_benchmark = benchmark,
                   q_message_size = message_size\<rparr>;
     (r, backend, w) \<leftarrow> op_create B params w;
     if r \<noteq> 0
     then Some (-1, print_err
       (''TLS backend creation failed: '' @ tls_case_name cipher benchmark message_size) w)
     else do {
       (r, w) \<leftarrow> op_verify B backend w;
       (c, w) \<leftarrow> (if r \<noteq> 0 then Some (None, w)
                   else tls_calibrate ldp B backend benchmark message_size (to_sample_ns options) w);
       case c of
         None \<Rightarrow> tls_fail_case B backend
           (''TLS verification or calibration failed: '' @
             tls_case_name cipher benchmark message_size) w
       | Some iterations \<Rightarrow> do {
           (r, w) \<leftarrow> tls_sample_loop ldp arch B options cipher benchmark message_size backend
             iterations 0 (unat (to_samples options)) w;
           if r \<noteq> 0 then Some (-1, w)
           else do { w \<leftarrow> op_destroy B backend w; Some (0, w) }
         }
     }
   }"

subsection \<open>The program\<close>

text \<open>
  An option with its value: the new options, or the text printed before the exit with code 2.
\<close>

definition tls_set_option :: "string \<Rightarrow> string \<Rightarrow> tls_options \<Rightarrow> string + tls_options" where
  "tls_set_option arg val options =
     (if arg = ''--benchmark'' then Inr (options\<lparr>to_benchmark := val\<rparr>)
      else if arg = ''--cipher'' then Inr (options\<lparr>to_cipher := val\<rparr>)
      else if arg = ''--format'' then Inr (options\<lparr>to_format := val\<rparr>)
      else if arg = ''--cert'' then Inr (options\<lparr>to_certificate_path := val\<rparr>)
      else if arg = ''--key'' then Inr (options\<lparr>to_private_key_path := val\<rparr>)
      else if arg = ''--size''
      then (case tls_parse_u64 val of
              None \<Rightarrow> Inl (''invalid --size'' @ newline)
            | Some parsed \<Rightarrow>
                if parsed = 0 \<or> parsed > INT_MAX then Inl (''invalid --size'' @ newline)
                else Inr (options\<lparr>to_size := parsed, to_size_set := True\<rparr>))
      else if arg = ''--samples''
      then (case tls_parse_u64 val of
              None \<Rightarrow> Inl (''invalid --samples'' @ newline)
            | Some parsed \<Rightarrow>
                if parsed = 0 \<or> parsed > UINT_MAX then Inl (''invalid --samples'' @ newline)
                else Inr (options\<lparr>to_samples := ucast parsed\<rparr>))
      else if arg = ''--sample-ms''
      then (case tls_parse_u64 val of
              None \<Rightarrow> Inl (''invalid --sample-ms'' @ newline)
            | Some parsed \<Rightarrow>
                if parsed = 0 \<or> parsed > UINT64_MAX div 1000000
                then Inl (''invalid --sample-ms'' @ newline)
                else Inr (options\<lparr>to_sample_ns := parsed * 1000000\<rparr>))
      else Inl (''unknown option: '' @ arg @ newline))"

fun tls_parse_args ::
  "('p, ('s, 'o, 'l) world) backend_ops \<Rightarrow> string \<Rightarrow> string list \<Rightarrow> tls_options \<Rightarrow>
   ('s, 'o, 'l) world \<Rightarrow> (int + tls_options) \<times> ('s, 'o, 'l) world" where
  "tls_parse_args B program [] options w = (Inr options, w)"
| "tls_parse_args B program (arg # rest) options w =
     (if arg = ''--help'' then (Inl 0, print_out (tls_usage program) w)
      else if arg = ''--list''
      then (Inl 0, print_out (concat (map (\<lambda>c. c @ newline) (i_algorithms (op_info B)))) w)
      else case rest of
        [] \<Rightarrow> (Inl 2, print_err (tls_usage program) w)
      | val # rest' \<Rightarrow>
          (case tls_set_option arg val options of
             Inl message \<Rightarrow> (Inl 2, print_err message w)
           | Inr options \<Rightarrow> tls_parse_args B program rest' options w))"

definition tls_check_options ::
  "tls_options \<Rightarrow> ('s, 'o, 'l) world \<Rightarrow> (int + tls_options) \<times> ('s, 'o, 'l) world" where
  "tls_check_options options w =
     (if (to_benchmark options \<noteq> ''all'' \<and> to_benchmark options \<noteq> ''handshake'' \<and>
          to_benchmark options \<noteq> ''transfer'') \<or>
         (to_format options \<noteq> ''jsonl'' \<and> to_format options \<noteq> ''text'')
      then (Inl 2, print_err (''invalid benchmark or format'' @ newline) w)
      else (Inr options, w))"

definition tls_default_sizes :: "u64 list" where
  "tls_default_sizes = [1024, 16384]"

text \<open>The loop over the transfer sizes; the result 1 is the early return of \<^verbatim>\<open>main\<close>.\<close>

fun tls_run_sizes ::
  "nat \<Rightarrow> string \<Rightarrow> (ofb_tls_params, ('s, 'o, 'l) world) backend_ops \<Rightarrow> tls_options \<Rightarrow> string \<Rightarrow>
   u64 list \<Rightarrow> ('s, 'o, 'l) world \<Rightarrow> (int \<times> ('s, 'o, 'l) world) option" where
  "tls_run_sizes ldp arch B options cipher [] w = Some (0, w)"
| "tls_run_sizes ldp arch B options cipher (n # sizes) w = do {
     (r, w) \<leftarrow> tls_run_case ldp arch B options cipher OFB_TLS_TRANSFER n w;
     if r \<noteq> 0 then Some (1, w) else tls_run_sizes ldp arch B options cipher sizes w
   }"

text \<open>What is done for a cipher suite that was selected.\<close>

definition tls_run_cipher ::
  "nat \<Rightarrow> string \<Rightarrow> (ofb_tls_params, ('s, 'o, 'l) world) backend_ops \<Rightarrow> tls_options \<Rightarrow> string \<Rightarrow>
   ('s, 'o, 'l) world \<Rightarrow> (int \<times> ('s, 'o, 'l) world) option" where
  "tls_run_cipher ldp arch B options cipher w = do {
     (r, w) \<leftarrow> (if to_benchmark options = ''all'' \<or> to_benchmark options = ''handshake''
                 then tls_run_case ldp arch B options cipher OFB_TLS_HANDSHAKE 0 w
                 else Some (0, w));
     if r \<noteq> 0 then Some (1, w)
     else if to_benchmark options = ''all'' \<or> to_benchmark options = ''transfer''
     then tls_run_sizes ldp arch B options cipher
       (if to_size_set options then [to_size options] else tls_default_sizes) w
     else Some (0, w)
   }"

text \<open>The loop over the cipher suites, with the flag \<open>matched\<close>.\<close>

fun tls_run_ciphers ::
  "nat \<Rightarrow> string \<Rightarrow> (ofb_tls_params, ('s, 'o, 'l) world) backend_ops \<Rightarrow> tls_options \<Rightarrow>
   string list \<Rightarrow> bool \<Rightarrow> ('s, 'o, 'l) world \<Rightarrow> (int \<times> bool \<times> ('s, 'o, 'l) world) option" where
  "tls_run_ciphers ldp arch B options [] matched w = Some (0, matched, w)"
| "tls_run_ciphers ldp arch B options (cipher # rest) matched w =
     (if to_cipher options \<noteq> ''all'' \<and> to_cipher options \<noteq> cipher
      then tls_run_ciphers ldp arch B options rest matched w
      else do {
        (r, w) \<leftarrow> tls_run_cipher ldp arch B options cipher w;
        if r \<noteq> 0 then Some (r, True, w) else tls_run_ciphers ldp arch B options rest True w
      })"

definition tls_main ::
  "nat \<Rightarrow> string \<Rightarrow> string \<Rightarrow> string \<Rightarrow> (ofb_tls_params, ('s, 'o, 'l) world) backend_ops \<Rightarrow> string \<Rightarrow>
   string list \<Rightarrow> ('s, 'o, 'l) world \<Rightarrow> (int \<times> ('s, 'o, 'l) world) option" where
  "tls_main ldp arch cert key B program args w =
     (case tls_parse_args B program args (tls_default_options cert key) w of
        (Inl code, w) \<Rightarrow> Some (code, w)
      | (Inr options, w) \<Rightarrow>
          (case tls_check_options options w of
             (Inl code, w) \<Rightarrow> Some (code, w)
           | (Inr options, w) \<Rightarrow> do {
               (r, matched, w) \<leftarrow>
                 tls_run_ciphers ldp arch B options (i_algorithms (op_info B)) False w;
               if r \<noteq> 0 then Some (r, w)
               else if \<not> matched
               then Some (2, print_err
                 (''unsupported cipher: '' @ to_cipher options @ newline) w)
               else Some (0, w)
             }))"

end
