(* ===== verification/Tls_Timing.thy ===== *)
theory Tls_Timing
  imports Tls_Main
begin

text \<open>
  The timing code of \<^verbatim>\<open>src/tls_main.c\<close> is a second copy of \<^verbatim>\<open>src/runner.c\<close>. The lemmas show
  that the copy does what the original does on the message size that is counted, 0 for a
  handshake, so that the facts about the runner carry over.
\<close>

definition counted_size :: "ofb_tls_benchmark \<Rightarrow> u64 \<Rightarrow> u64" where
  "counted_size benchmark n = (if benchmark = OFB_TLS_TRANSFER then n else 0)"

definition as_timed :: "ofb_sample \<Rightarrow> timed_sample" where
  "as_timed s = \<lparr>ts_iterations = s_iterations s, ts_elapsed_ns = s_elapsed_ns s, ts_bytes = s_bytes s\<rparr>"

lemma as_timed_simps [simp]:
  "ts_iterations (as_timed s) = s_iterations s"
  "ts_elapsed_ns (as_timed s) = s_elapsed_ns s"
  "ts_bytes (as_timed s) = s_bytes s"
  by (simp_all add: as_timed_def)

text \<open>A result of the runner, read with the structure of the copy.\<close>

definition timed_result ::
  "(ofb_sample option \<times> 'w) option \<Rightarrow> (timed_sample option \<times> 'w) option" where
  "timed_result = map_option (apfst (map_option as_timed))"

definition timed_loop_result ::
  "((u64 \<times> ofb_sample) option \<times> 'w) option \<Rightarrow> ((u64 \<times> timed_sample) option \<times> 'w) option" where
  "timed_loop_result = map_option (apfst (map_option (apsnd as_timed)))"

lemma timed_result_simps [simp]:
  "timed_result None = None"
  "timed_result (Some (s, w)) = Some (map_option as_timed s, w)"
  by (simp_all add: timed_result_def)

lemma timed_loop_result_simps [simp]:
  "timed_loop_result None = None"
  "timed_loop_result (Some (r, w)) = Some (map_option (apsnd as_timed) r, w)"
  by (simp_all add: timed_loop_result_def)

lemma run_timed_runner:
  "run_timed B p n benchmark m w = timed_result (ofb_run_sample B p n (counted_size benchmark m) w)"
proof -
  obtain t where t: "ofb_now_ns w = (t, w\<lparr>w_reads := Suc (w_reads w)\<rparr>)"
    by (rule ofb_now_ns_split)
  show ?thesis
  proof (cases "op_run_batch B p n (w\<lparr>w_reads := Suc (w_reads w)\<rparr>)")
    case None
    then show ?thesis by (simp add: run_timed_def ofb_run_sample_def t)
  next
    case (Some res)
    obtain r w1 where res: "res = (r, w1)" by (cases res)
    obtain u where u: "ofb_now_ns w1 = (u, w1\<lparr>w_reads := Suc (w_reads w1)\<rparr>)"
      by (rule ofb_now_ns_split)
    show ?thesis using Some res
      by (auto simp: run_timed_def ofb_run_sample_def t u counted_size_def as_timed_def)
  qed
qed

lemma tls_calibrate_loop_runner:
  assumes "unat count = 2 ^ k" and "k \<le> 63"
  shows "tls_calibrate_loop B p benchmark m target count w =
    timed_loop_result (calibrate_loop B p (counted_size benchmark m) target count w)"
  using assms
proof (induction "63 - k" arbitrary: k count w rule: less_induct)
  case less
  let ?m = "counted_size benchmark m"
  show ?case
  proof (cases "ofb_run_sample B p count ?m w")
    case None
    then show ?thesis
      by (subst tls_calibrate_loop.simps, subst calibrate_loop.simps) (simp add: run_timed_runner)
  next
    case (Some res)
    obtain s w1 where res: "res = (s, w1)" by (cases res)
    show ?thesis
    proof (cases "\<exists>x. s = Some x \<and> \<not> (target div 8 \<le> s_elapsed_ns x \<or> count > UINT64_MAX div 2)")
      case False
      then show ?thesis using Some res
        by (subst tls_calibrate_loop.simps, subst calibrate_loop.simps)
          (auto simp: run_timed_runner split: option.split)
    next
      case True
      then have "\<not> count > UINT64_MAX div 2" by blast
      note d = double_exact [OF this less(2)]
      have "63 - Suc k < 63 - k" using d(2) by simp
      from less(1) [OF this d(1)] d(2)
      have "tls_calibrate_loop B p benchmark m target (count * 2) w1 =
        timed_loop_result (calibrate_loop B p ?m target (count * 2) w1)" by simp
      then show ?thesis using Some res True
        by (subst tls_calibrate_loop.simps, subst calibrate_loop.simps)
          (auto simp: run_timed_runner)
    qed
  qed
qed

text \<open>The count that the calibration starts with, a power of two.\<close>

definition start_count :: "ofb_tls_benchmark \<Rightarrow> u64" where
  "start_count benchmark = (if benchmark = OFB_TLS_HANDSHAKE then 1 else 16)"

lemma start_count_pow2:
  obtains k where "unat (start_count benchmark) = 2 ^ k" and "k \<le> 63"
proof
  show "unat (start_count benchmark) = 2 ^ (if benchmark = OFB_TLS_HANDSHAKE then 0 else 4)"
    by (simp add: start_count_def)
qed simp

lemma tls_calibrate_loop_start:
  "tls_calibrate_loop B p benchmark m target (start_count benchmark) w =
    timed_loop_result
      (calibrate_loop B p (counted_size benchmark m) target (start_count benchmark) w)"
  by (rule start_count_pow2) (rule tls_calibrate_loop_runner)

lemma tls_calibrate_runner:
  "tls_calibrate ldp B p benchmark m target w = do {
     (r, w) \<leftarrow> calibrate_loop B p (counted_size benchmark m) target (start_count benchmark) w;
     Some (map_option (\<lambda>(c, s). let n = scale_count ldp c target (s_elapsed_ns s)
                                  in if n = 0 then 1 else n) r, w) }"
proof (cases "calibrate_loop B p (counted_size benchmark m) target (start_count benchmark) w")
  case None
  then show ?thesis
    by (simp add: tls_calibrate_def tls_calibrate_loop_start flip: start_count_def)
next
  case (Some res)
  then show ?thesis
    by (cases res) (simp add: tls_calibrate_def tls_calibrate_loop_start Let_def split: option.split
        flip: start_count_def)
qed

lemma run_timed_cases:
  assumes "run_timed B p n benchmark m w = Some (Some s, w')"
  shows "ts_iterations s = n" and "0 < unat (ts_elapsed_ns s)"
    and "unat (ts_bytes s) = unat n * unat (counted_size benchmark m)"
proof -
  obtain x where x: "ofb_run_sample B p n (counted_size benchmark m) w = Some (Some x, w')"
      "s = as_timed x"
    using assms by (auto simp: run_timed_runner timed_result_def)
  show "ts_iterations s = n" "0 < unat (ts_elapsed_ns s)"
    "unat (ts_bytes s) = unat n * unat (counted_size benchmark m)"
    using run_sample_cases [OF x(1)] by (simp_all add: x(2))
qed

lemma tls_calibrate_measured:
  assumes "0 < ldp" and "tls_calibrate ldp B p benchmark m target w = Some (Some n, w')"
  shows "\<exists>c s. calibrate_loop B p (counted_size benchmark m) target (start_count benchmark) w =
      Some (Some (c, s), w') \<and> n = scale_count ldp c target (s_elapsed_ns s) \<and>
    unat (start_count benchmark) \<le> unat c \<and> 0 < unat (s_elapsed_ns s) \<and>
    unat c \<le> unat n \<and> (unat n \<le> 16 * unat c \<or> unat c = 2 ^ 63)"
proof -
  obtain c s where
    loop: "calibrate_loop B p (counted_size benchmark m) target (start_count benchmark) w =
      Some (Some (c, s), w')"
    and n: "n = (let k = scale_count ldp c target (s_elapsed_ns s) in if k = 0 then 1 else k)"
    using assms(2) by (auto simp: tls_calibrate_runner Let_def split: bind_splits)
  obtain k where "unat (start_count benchmark) = 2 ^ k" and "k \<le> 63" by (rule start_count_pow2)
  from scale_loop_result [OF assms(1) this loop] show ?thesis
    using loop n by (intro exI [of _ c] exI [of _ s]) (simp add: Let_def)
qed

lemma tls_calibrate_positive:
  assumes "0 < ldp" and "tls_calibrate ldp B p benchmark m target w = Some (Some n, w')"
  shows "unat (start_count benchmark) \<le> unat n"
  using tls_calibrate_measured [OF assms] by fastforce

context bench_backend
begin

lemma run_timed_ok:
  assumes "lib_ok" and "ready w0 p w"
  shows "succeeds (run_timed B p n benchmark m w)
    (\<lambda>(s, w'). ready w0 p w' \<and> streams w' = streams w \<and> w_reads w' \<le> w_reads w + 2)"
proof -
  from run_sample_ok [OF assms, of n "counted_size benchmark m"] obtain s w' where
    "ofb_run_sample B p n (counted_size benchmark m) w = Some (s, w')" "ready w0 p w'"
    "streams w' = streams w" "w_reads w' \<le> w_reads w + 2"
    by (auto elim: succeedsE)
  then show ?thesis by (simp add: run_timed_runner)
qed

text \<open>The calibration returns, after at most 64 samples.\<close>

lemma tls_calibrate_ok:
  assumes "lib_ok" and "ready w0 p w"
  shows "succeeds (tls_calibrate ldp B p benchmark m target w)
    (\<lambda>(n, w'). ready w0 p w' \<and> streams w' = streams w \<and> w_reads w' \<le> w_reads w + 128)"
proof -
  obtain k where "unat (start_count benchmark) = 2 ^ k" and "k \<le> 63" by (rule start_count_pow2)
  from calibrate_loop_ok [OF assms(1) this assms(2), of "counted_size benchmark m" target]
  show ?thesis by (auto simp: tls_calibrate_runner elim!: succeeds_mono)
qed

end

text \<open>C20: the timing code of the TLS program does exactly what \<^verbatim>\<open>src/runner.c\<close> does on the size
  that is counted: the sample is the runner's, and the calibration is the runner's loop from 1
  handshake or 16 transfers on, with the same scaling.\<close>

theorem tls_timing_equiv:
  "run_timed B p n benchmark m w =
     map_option (apfst (map_option as_timed)) (ofb_run_sample B p n (counted_size benchmark m) w) \<and>
   tls_calibrate ldp B p benchmark m target w = do {
     (r, w) \<leftarrow> calibrate_loop B p (counted_size benchmark m) target
       (if benchmark = OFB_TLS_HANDSHAKE then 1 else 16) w;
     Some (map_option (\<lambda>(c, s). let n = scale_count ldp c target (s_elapsed_ns s)
                                  in if n = 0 then 1 else n) r, w) }"
  using run_timed_runner [of B p n benchmark m w, unfolded timed_result_def]
    tls_calibrate_runner [of ldp B p benchmark m target w, unfolded start_count_def]
  by blast

end
