(* ===== verification/Tls_Options.thy ===== *)
theory Tls_Options
  imports Aead_Options Tls_Timing
begin

text \<open>
  The options of the TLS program: what every accepted set of options satisfies, and the round
  trip between options and arguments. The facts about numbers are those of \<open>Aead_Options\<close>.
\<close>

lemma tls_parse_u64_eq: "tls_parse_u64 = parse_u64"
  by (intro ext) (simp add: tls_parse_u64_def parse_u64_def)

definition tls_options_ok :: "tls_options \<Rightarrow> bool" where
  "tls_options_ok options \<longleftrightarrow>
     (if to_size_set options then to_size options \<noteq> 0 \<and> unat (to_size options) < 2 ^ 31
      else to_size options = 0) \<and>
     to_samples options \<noteq> 0 \<and> to_sample_ns options \<noteq> 0 \<and>
     1000000 dvd unat (to_sample_ns options)"

lemma tls_default_options_ok: "tls_options_ok (tls_default_options cert key)"
  by (simp add: tls_options_ok_def tls_default_options_def)

lemma size_int_max: "\<not> n > INT_MAX \<longleftrightarrow> unat n < 2 ^ 31"
  by (auto simp: word_less_nat_alt)

lemma tls_set_option_ok:
  assumes "tls_options_ok options" and "tls_set_option arg val options = Inr options'"
  shows "tls_options_ok options'"
proof -
  note ok = assms(1)[unfolded tls_options_ok_def]
  show ?thesis
    using assms(2) ok samples_ok sample_ns_ok size_int_max unfolding tls_set_option_def
    by (auto simp: tls_options_ok_def split: if_split_asm option.split_asm)
qed

lemma tls_parse_args_ok:
  "tls_options_ok options \<Longrightarrow> tls_parse_args B program args options w = (Inr options', w') \<Longrightarrow>
   tls_options_ok options' \<and> w' = w"
  by (induction B program args options w rule: tls_parse_args.induct)
    (auto split: if_split_asm list.split_asm sum.split_asm intro: tls_set_option_ok)

lemma tls_parse_args_exit:
  "tls_parse_args B program args options w = (Inl code, w') \<Longrightarrow>
   w_heap w' = w_heap w \<and> code \<in> {0, 2}"
  by (induction B program args options w rule: tls_parse_args.induct)
    (auto simp: print_out_def print_err_def split: if_split_asm list.split_asm sum.split_asm)

lemma tls_check_options_cases:
  "tls_check_options options w = (Inr options, w) \<or>
   (\<exists>m. tls_check_options options w = (Inl 2, print_err m w))"
  by (auto simp: tls_check_options_def)

text \<open>The arguments that describe given options.\<close>

definition tls_args_of :: "tls_options \<Rightarrow> string list" where
  "tls_args_of options =
     [''--benchmark'', to_benchmark options, ''--cipher'', to_cipher options,
      ''--format'', to_format options, ''--cert'', to_certificate_path options,
      ''--key'', to_private_key_path options,
      ''--samples'', dec (unat (to_samples options)),
      ''--sample-ms'', dec (unat (to_sample_ns options) div 1000000)] @
     (if to_size_set options then [''--size'', dec (unat (to_size options))] else [])"

lemma tls_set_option_text:
  "tls_set_option ''--benchmark'' v options = Inr (options\<lparr>to_benchmark := v\<rparr>)"
  "tls_set_option ''--cipher'' v options = Inr (options\<lparr>to_cipher := v\<rparr>)"
  "tls_set_option ''--format'' v options = Inr (options\<lparr>to_format := v\<rparr>)"
  "tls_set_option ''--cert'' v options = Inr (options\<lparr>to_certificate_path := v\<rparr>)"
  "tls_set_option ''--key'' v options = Inr (options\<lparr>to_private_key_path := v\<rparr>)"
  by (simp_all add: tls_set_option_def)

lemma tls_set_option_size:
  assumes "n \<noteq> 0" and "unat n < 2 ^ 31"
  shows "tls_set_option ''--size'' (dec (unat n)) options =
    Inr (options\<lparr>to_size := n, to_size_set := True\<rparr>)"
proof -
  have "\<not> INT_MAX < n" using assms(2) by (simp only: size_int_max)
  then show ?thesis using assms(1) by (simp add: tls_set_option_def tls_parse_u64_eq)
qed

text \<open>Two options the programs share are read the same way.\<close>

lemma tls_set_option_samples:
  assumes "n \<noteq> 0"
  shows "tls_set_option ''--samples'' (dec (unat n)) options = Inr (options\<lparr>to_samples := n\<rparr>)"
proof -
  have "set_option [] ''--samples'' (dec (unat n)) default_options =
      Inr (default_options\<lparr>o_samples := n\<rparr>)"
    using assms by (rule set_option_samples)
  then have "\<exists>v. parse_u64 (dec (unat n)) = Some v \<and> v \<noteq> 0 \<and> \<not> v > UINT_MAX \<and> ucast v = n"
    by (auto simp: set_option_def default_options_def split: option.splits if_splits)
  then show ?thesis by (auto simp: tls_set_option_def tls_parse_u64_eq)
qed

lemma tls_set_option_sample_ns:
  assumes "n \<noteq> 0" and "1000000 dvd unat n"
  shows "tls_set_option ''--sample-ms'' (dec (unat n div 1000000)) options =
    Inr (options\<lparr>to_sample_ns := n\<rparr>)"
proof -
  have "set_option [] ''--sample-ms'' (dec (unat n div 1000000)) default_options =
      Inr (default_options\<lparr>o_sample_ns := n\<rparr>)"
    using assms by (rule set_option_sample_ns)
  then have "\<exists>v. parse_u64 (dec (unat n div 1000000)) = Some v \<and>
      v \<noteq> 0 \<and> \<not> v > UINT64_MAX div 1000000 \<and> v * 1000000 = n"
    by (auto simp: set_option_def default_options_def split: option.splits if_splits)
  then show ?thesis by (auto simp: tls_set_option_def tls_parse_u64_eq)
qed

lemma tls_parse_round_trip:
  assumes "tls_options_ok options"
  shows "tls_parse_args B program (tls_args_of options) (tls_default_options cert key) w =
    (Inr options, w)"
proof -
  note ok = assms [unfolded tls_options_ok_def]
  have "\<lparr>to_benchmark = to_benchmark options, to_cipher = to_cipher options,
      to_format = to_format options, to_certificate_path = to_certificate_path options,
      to_private_key_path = to_private_key_path options, to_size = to_size options,
      to_samples = to_samples options, to_sample_ns = to_sample_ns options,
      to_size_set = to_size_set options\<rparr> = options"
    by simp
  then show ?thesis
    using ok by (auto simp: tls_args_of_def tls_default_options_def tls_set_option_text
        tls_set_option_size tls_set_option_samples tls_set_option_sample_ns)
qed

text \<open>C21: whatever the arguments, the options the TLS program goes on with are sane: an explicit
  transfer size is positive and fits an \<^verbatim>\<open>int\<close>, there is at least one sample, and the target
  duration is a positive whole number of milliseconds; parsing prints nothing in that case.\<close>

theorem tls_parse_args_sane:
  assumes "tls_parse_args B program args (tls_default_options cert key) w = (Inr options, w')"
  shows "tls_options_ok options \<and> w' = w"
  using tls_parse_args_ok [OF tls_default_options_ok assms] .

theorem tls_parse_args_sane_witness:
  "tls_options_ok (tls_default_options ''c'' ''k''\<lparr>to_size := 32, to_size_set := True\<rparr>) \<and>
    idle_world = idle_world"
proof (rule tls_parse_args_sane)
  show "tls_parse_args idle_ops ''tls'' [''--size'', dec (unat (32 :: u64))]
      (tls_default_options ''c'' ''k'') idle_world =
    (Inr (tls_default_options ''c'' ''k''\<lparr>to_size := 32, to_size_set := True\<rparr>), idle_world)"
    using tls_set_option_size [of 32] by simp
qed

text \<open>C22: every set of sane options of the TLS program can be given on its command line: printing
  it as arguments and parsing them gives the options back, whatever the default paths.\<close>

theorem tls_parse_args_round_trip:
  assumes "tls_options_ok options"
  shows "tls_parse_args B program (tls_args_of options) (tls_default_options cert key) w =
    (Inr options, w)"
  using tls_parse_round_trip [OF assms] .

theorem tls_parse_args_round_trip_witness:
  "tls_parse_args idle_ops ''tls''
      (tls_args_of (tls_default_options ''a'' ''b''\<lparr>to_samples := 3\<rparr>))
      (tls_default_options ''c'' ''k'') idle_world =
    (Inr (tls_default_options ''a'' ''b''\<lparr>to_samples := 3\<rparr>), idle_world)"
  by (rule tls_parse_args_round_trip) (simp add: tls_options_ok_def tls_default_options_def)

end
