(* ===== verification/Tls_Frame.thy ===== *)
theory Tls_Frame
  imports Tls_Backend
begin

text \<open>
  Objects of the library: what each call on a context, a connection or a BIO needs and keeps,
  the handshake loop against its step relation, and \<^verbatim>\<open>tls_pair_create\<close>, which leaves a connected
  pair or no trace.
\<close>

subsection \<open>Kinds of objects\<close>

datatype obj_kind = KCtx | KSsl ptr | KBio

fun kind_of :: "(ofb_tls_backend, ('c, 's, 'b) tls_obj) block option \<Rightarrow> obj_kind option" where
  "kind_of (Some (Obj (CtxObj _))) = Some KCtx"
| "kind_of (Some (Obj (SslObj _ bio))) = Some (KSsl bio)"
| "kind_of (Some (Obj (BioObj _))) = Some KBio"
| "kind_of _ = None"

fun_cases kind_ofE: "kind_of b = Some k"

definition kind_at :: "ptr \<Rightarrow> ('c, 's, 'b, 'l) tls_world \<Rightarrow> obj_kind option" where
  "kind_at p w = kind_of (lookup p w)"

lemma kind_at_NULL [simp]: "kind_at NULL w = None"
  by (simp add: kind_at_def)

lemma kind_at_lookup: "lookup p w' = lookup p w \<Longrightarrow> kind_at p w' = kind_at p w"
  by (simp add: kind_at_def)

lemma kind_at_lib [simp]: "kind_at p (w\<lparr>w_lib := l\<rparr>) = kind_at p w"
  by (simp add: kind_at_def)

lemma kind_at_obj: "kind_at p w = Some k \<Longrightarrow> is_obj (lookup p w)"
  by (auto simp: kind_at_def elim!: kind_ofE)

lemma kind_at_not_NULL: "kind_at p w = Some k \<Longrightarrow> p \<noteq> NULL"
  by auto

lemma kind_ctxD: "kind_at p w = Some KCtx \<Longrightarrow> \<exists>c. lookup p w = Some (Obj (CtxObj c))"
  by (auto simp: kind_at_def elim!: kind_ofE)

lemma kind_sslD: "kind_at p w = Some (KSsl bio) \<Longrightarrow> \<exists>s. lookup p w = Some (Obj (SslObj s bio))"
  by (auto simp: kind_at_def elim!: kind_ofE)

lemma kind_bioD: "kind_at p w = Some KBio \<Longrightarrow> \<exists>b. lookup p w = Some (Obj (BioObj b))"
  by (auto simp: kind_at_def elim!: kind_ofE)

text \<open>Calls that change contents and no kind.\<close>

definition steps ::
  "ptr set \<Rightarrow> ('c, 's, 'b, 'l) tls_world \<Rightarrow> ('c, 's, 'b, 'l) tls_world \<Rightarrow> bool" where
  "steps S w w' \<longleftrightarrow> touched S w w' \<and> (\<forall>q. kind_at q w' = kind_at q w)"

lemma steps_refl [simp]: "steps S w w"
  by (simp add: steps_def)

lemma steps_trans: "steps S w w1 \<Longrightarrow> steps S w1 w2 \<Longrightarrow> steps S w w2"
  unfolding steps_def by (auto intro: touched_trans)

lemma steps_mono: "steps S w w' \<Longrightarrow> S \<subseteq> T \<Longrightarrow> steps T w w'"
  unfolding steps_def by (blast intro: touched_mono)

lemma steps_touched: "steps S w w' \<Longrightarrow> touched S w w'"
  by (simp add: steps_def)

lemma steps_kind: "steps S w w' \<Longrightarrow> kind_at q w' = kind_at q w"
  by (simp add: steps_def)

lemma on_ctx_ok:
  assumes "kind_at p w = Some KCtx"
  shows "succeeds (on_ctx p f w) (\<lambda>(r, w'). steps {p} w w')"
proof -
  obtain c where c: "lookup p w = Some (Obj (CtxObj c))" using kind_ctxD [OF assms] by blast
  obtain r c' l where f: "f c (w_lib w) = (r, c', l)" by (cases "f c (w_lib w)")
  have "touched {p} w (replace p (Obj (CtxObj c')) w)" using c by (rule touched_replace) simp
  moreover have "kind_at q (replace p (Obj (CtxObj c')) w) = kind_at q w" for q
    using c by (simp add: kind_at_def)
  ultimately show ?thesis
    using c f by (simp add: on_ctx_def get_obj_def steps_def touched_lib)
qed

lemma on_ssl_ok:
  assumes "kind_at p w = Some (KSsl bio)"
  shows "succeeds (on_ssl p f w) (\<lambda>(r, w'). steps {p} w w' \<and>
    (\<exists>s s'. f s (w_lib w) = (r, s', w_lib w') \<and> lookup p w = Some (Obj (SslObj s bio)) \<and>
      lookup p w' = Some (Obj (SslObj s' bio))))"
proof -
  obtain s where s: "lookup p w = Some (Obj (SslObj s bio))" using kind_sslD [OF assms] by blast
  obtain r s' l where f: "f s (w_lib w) = (r, s', l)" by (cases "f s (w_lib w)")
  have "touched {p} w (replace p (Obj (SslObj s' bio)) w)" using s by (rule touched_replace) simp
  moreover have "kind_at q (replace p (Obj (SslObj s' bio)) w) = kind_at q w" for q
    using s by (simp add: kind_at_def)
  moreover have "p \<noteq> NULL" using s by auto
  ultimately show ?thesis
    using s f by (simp add: on_ssl_def get_obj_def steps_def touched_lib)
qed

lemma ssl_call:
  assumes "kind_at p w = Some (KSsl bio)"
  obtains r w' where "on_ssl p f w = Some (r, w')" "steps {p} w w'"
  using on_ssl_ok [OF assms, of f] by (auto elim!: succeedsE)

subsection \<open>Allocating and releasing objects\<close>

lemma new_kind_ok:
  assumes "owned w0 ps w" and "new_obj (map_option C x) (w\<lparr>w_lib := l\<rparr>) = (p, w')"
    and "\<And>v. kind_of (Some (Obj (C v))) = Some k"
  shows "owned w0 (p # ps) w'" and "p \<noteq> NULL \<Longrightarrow> kind_at p w' = Some k"
    and "\<forall>q. q \<noteq> p \<longrightarrow> lookup q w' = lookup q w" and "lookup p w = None" and "io w' = io w"
    and "p = NULL \<longleftrightarrow> x = None"
proof -
  have own: "owned w0 ps (w\<lparr>w_lib := l\<rparr>)" using assms(1) by simp
  note n = owned_new_obj [OF own assms(2)]
  show "owned w0 (p # ps) w'" by (rule n(1))
  show "p \<noteq> NULL \<Longrightarrow> kind_at p w' = Some k"
    using n(3) assms(3) by (auto simp: kind_at_def)
  show "\<forall>q. q \<noteq> p \<longrightarrow> lookup q w' = lookup q w" "lookup p w = None" "io w' = io w"
    "p = NULL \<longleftrightarrow> x = None"
    using n(2,4-6) by simp_all
qed

lemma release_ok:
  assumes "owned w0 (p # ps) w" and "is_obj (lookup p w)"
  shows "succeeds (free_obj p (w\<lparr>w_lib := l\<rparr>)) (\<lambda>w'. owned w0 ps w' \<and>
    (\<forall>q \<in> set ps. lookup q w' = lookup q w) \<and> io w' = io w)"
  by (rule succeeds_mono [OF owned_free_obj [where w = "w\<lparr>w_lib := l\<rparr>"]]) (use assms in auto)

lemma BIO_free_ok:
  assumes "owned w0 (p # ps) w" and "p \<noteq> NULL \<longrightarrow> kind_at p w = Some KBio"
  shows "succeeds (BIO_free L p w) (\<lambda>w'. owned w0 ps w' \<and>
    (\<forall>q \<in> set ps. lookup q w' = lookup q w) \<and> io w' = io w)"
proof (cases "p = NULL")
  case True
  then show ?thesis using assms(1) by (simp add: BIO_free_def)
next
  case False
  then obtain b where b: "lookup p w = Some (Obj (BioObj b))" using assms(2) kind_bioD by blast
  then have "is_obj (lookup p w)" by simp
  from release_ok [OF assms(1) this] show ?thesis using False b by (simp add: BIO_free_def get_obj_def)
qed

lemma SSL_CTX_free_ok:
  assumes "owned w0 (p # ps) w" and "p \<noteq> NULL \<longrightarrow> kind_at p w = Some KCtx"
  shows "succeeds (SSL_CTX_free L p w) (\<lambda>w'. owned w0 ps w' \<and>
    (\<forall>q \<in> set ps. lookup q w' = lookup q w) \<and> io w' = io w)"
proof (cases "p = NULL")
  case True
  then show ?thesis using assms(1) by (simp add: SSL_CTX_free_def)
next
  case False
  then obtain c where c: "lookup p w = Some (Obj (CtxObj c))" using assms(2) kind_ctxD by blast
  then have "is_obj (lookup p w)" by simp
  from release_ok [OF assms(1) this] show ?thesis
    using False c by (simp add: SSL_CTX_free_def get_obj_def)
qed

text \<open>A connection, or \<open>NULL\<close>, with the BIO it owns, or \<open>NULL\<close>.\<close>

definition ssl_ok :: "ptr \<Rightarrow> ptr \<Rightarrow> ('c, 's, 'b, 'l) tls_world \<Rightarrow> bool" where
  "ssl_ok p bio w \<longleftrightarrow> (if p = NULL then bio = NULL else kind_at p w = Some (KSsl bio)) \<and>
     (bio \<noteq> NULL \<longrightarrow> kind_at bio w = Some KBio)"

lemma ssl_ok_NULL [simp]: "ssl_ok NULL NULL w"
  by (simp add: ssl_ok_def)

lemma ssl_ok_steps: "steps S w w' \<Longrightarrow> ssl_ok p bio w' = ssl_ok p bio w"
  by (simp add: ssl_ok_def steps_kind)

lemma ssl_ok_lookup:
  "lookup p w' = lookup p w \<Longrightarrow> lookup bio w' = lookup bio w \<Longrightarrow> ssl_ok p bio w' = ssl_ok p bio w"
  by (simp add: ssl_ok_def kind_at_def)

lemma SSL_free_ok:
  assumes "owned w0 (p # bio # ps) w" and "ssl_ok p bio w"
  shows "succeeds (SSL_free L p w) (\<lambda>w'. owned w0 ps w' \<and>
    (\<forall>q \<in> set ps. lookup q w' = lookup q w) \<and> io w' = io w)"
proof (cases "p = NULL")
  case True
  then show ?thesis using assms by (simp add: SSL_free_def ssl_ok_def)
next
  case False
  then have k: "kind_at p w = Some (KSsl bio)" "bio \<noteq> NULL \<longrightarrow> kind_at bio w = Some KBio"
    using assms(2) by (simp_all add: ssl_ok_def)
  obtain s where s: "lookup p w = Some (Obj (SslObj s bio))" using kind_sslD [OF k(1)] by blast
  have "owned w0 (bio # p # ps) w" by (rule owned_reorder [OF assms(1)]) auto
  from BIO_free_ok [OF this k(2), of L] obtain w1 where
    w1: "BIO_free L bio w = Some w1" "owned w0 (p # ps) w1" "io w1 = io w"
      "\<forall>q \<in> set (p # ps). lookup q w1 = lookup q w"
    by (elim succeedsE) blast
  have "is_obj (lookup p w1)" using w1(4) s by simp
  from release_ok [OF w1(2) this, of "ssl_free L s (w_lib w1)"] show ?thesis
    using False s w1 by (auto simp: SSL_free_def get_obj_def elim!: succeeds_mono)
qed

lemma tls_pair_destroy_ok:
  assumes "owned w0 (tp_client pair # cb # tp_server pair # sb # ps) w"
    and "ssl_ok (tp_client pair) cb w" and "ssl_ok (tp_server pair) sb w"
  shows "succeeds (tls_pair_destroy L pair w) (\<lambda>(pair', w'). pair' = zero_pair \<and> owned w0 ps w' \<and>
    (\<forall>q \<in> set ps. lookup q w' = lookup q w) \<and> io w' = io w)"
proof -
  from SSL_free_ok [OF assms(1,2), of L] obtain w1 where
    w1: "SSL_free L (tp_client pair) w = Some w1" "owned w0 (tp_server pair # sb # ps) w1"
      "\<forall>q \<in> set (tp_server pair # sb # ps). lookup q w1 = lookup q w" "io w1 = io w"
    by (elim succeedsE) blast
  have "ssl_ok (tp_server pair) sb w1" using assms(3) w1(3) ssl_ok_lookup [of _ w1 w sb] by simp
  from SSL_free_ok [OF w1(2) this, of L] obtain w2 where
    w2: "SSL_free L (tp_server pair) w1 = Some w2" "owned w0 ps w2"
      "\<forall>q \<in> set ps. lookup q w2 = lookup q w1" "io w2 = io w1"
    by (elim succeedsE) blast
  then show ?thesis using w1 by (simp add: tls_pair_destroy_def zero_pair_def)
qed

subsection \<open>The handshake\<close>

lemma handshake_step_ok:
  assumes "kind_at p w = Some (KSsl bio)"
  shows "succeeds (handshake_step L p finished w) (\<lambda>(r, finished', w'). steps {p} w w')"
proof (cases finished)
  case False
  obtain r w1 where c1: "on_ssl p (ssl_do_handshake L) w = Some (r, w1)" "steps {p} w w1"
    using ssl_call [OF assms] .
  have "kind_at p w1 = Some (KSsl bio)" using assms steps_kind [OF c1(2)] by simp
  then obtain e w2 where c2: "on_ssl p (ssl_get_error L r) w1 = Some (e, w2)" "steps {p} w1 w2"
    using ssl_call by blast
  then show ?thesis using False c1 steps_trans [OF c1(2) c2(2)] by (simp add: handshake_step_def)
qed (simp add: handshake_step_def)

text \<open>
  One round of the loop as a relation on the two flags and the world, both ends making
  progress; the loop succeeds exactly when rounds lead to both flags set.
\<close>

inductive handshake_round ::
  "('c, 's, 'b, 'l) tls_lib \<Rightarrow> tls_pair \<Rightarrow> bool \<times> bool \<times> ('c, 's, 'b, 'l) tls_world \<Rightarrow>
   bool \<times> bool \<times> ('c, 's, 'b, 'l) tls_world \<Rightarrow> bool"
  for L pair where
  both: "handshake_step L (tp_client pair) cf w = Some (0, cf', w') \<Longrightarrow>
    handshake_step L (tp_server pair) sf w' = Some (0, sf', w'') \<Longrightarrow>
    handshake_round L pair (cf, sf, w) (cf', sf', w'')"

inductive_cases handshake_roundE: "handshake_round L pair (cf, sf, w) (cf', sf', w'')"

inductive_simps handshake_round_simps: "handshake_round L pair (cf, sf, w) (cf', sf', w'')"

text \<open>Rounds until both flags are set for the first time, with their number.\<close>

inductive connects ::
  "('c, 's, 'b, 'l) tls_lib \<Rightarrow> tls_pair \<Rightarrow> nat \<Rightarrow> bool \<times> bool \<times> ('c, 's, 'b, 'l) tls_world \<Rightarrow>
   ('c, 's, 'b, 'l) tls_world \<Rightarrow> bool"
  for L pair where
  last: "handshake_round L pair s (True, True, w') \<Longrightarrow> connects L pair 1 s w'"
| more: "handshake_round L pair s (cf, sf, w) \<Longrightarrow> \<not> (cf \<and> sf) \<Longrightarrow>
    connects L pair n (cf, sf, w) w' \<Longrightarrow> connects L pair (Suc n) s w'"

lemma connects_loop:
  "connects L pair n s w' \<Longrightarrow> n \<le> k \<Longrightarrow>
   handshake_loop L pair k (fst s) (fst (snd s)) (snd (snd s)) = Some (0, w')"
proof (induction arbitrary: k rule: connects.induct)
  case (last s w')
  obtain cf sf w where s: "s = (cf, sf, w)" by (cases s)
  obtain k' where "k = Suc k'" using last(2) by (cases k) auto
  then show ?case using last(1) unfolding s by (auto simp: handshake_round_simps)
next
  case (more s cf sf w n w')
  obtain cf0 sf0 w0 where s: "s = (cf0, sf0, w0)" by (cases s)
  obtain k' where k: "k = Suc k'" "n \<le> k'" using more(5) by (cases k) auto
  from more(4) [OF k(2)] have "handshake_loop L pair k' cf sf w = Some (0, w')" by simp
  then show ?case using more(1,2) unfolding s k(1) by (auto simp: handshake_round_simps)
qed

lemma loop_connects:
  "handshake_loop L pair k cf sf w = Some (0, w') \<Longrightarrow> \<exists>n \<le> k. connects L pair n (cf, sf, w) w'"
proof (induction k arbitrary: cf sf w)
  case (Suc k)
  then obtain r cf' w1 where c: "handshake_step L (tp_client pair) cf w = Some (r, cf', w1)"
    by (cases "handshake_step L (tp_client pair) cf w") auto
  then have r: "r = 0" using Suc(2) by (auto split: if_split_asm)
  obtain r2 sf' w2 where s: "handshake_step L (tp_server pair) sf w1 = Some (r2, sf', w2)"
    using Suc(2) c r by (cases "handshake_step L (tp_server pair) sf w1") auto
  then have r2: "r2 = 0" using Suc(2) c r by (auto split: if_split_asm)
  have round: "handshake_round L pair (cf, sf, w) (cf', sf', w2)"
    using c s r r2 by (auto intro: both)
  show ?case
  proof (cases "cf' \<and> sf'")
    case True
    then have "w2 = w'" using Suc(2) c s r r2 by simp
    then show ?thesis using last round True by (intro exI [of _ 1]) auto
  next
    case False
    then have "handshake_loop L pair k cf' sf' w2 = Some (0, w')"
      using Suc(2) c s r r2 by (simp split: if_split_asm)
    from Suc(1) [OF this] obtain n where "n \<le> k" "connects L pair n (cf', sf', w2) w'" by blast
    then show ?thesis using more [OF round False] by (intro exI [of _ "Suc n"]) simp
  qed
qed simp

lemma handshake_loop_ok:
  assumes "kind_at (tp_client pair) w = Some (KSsl cb)"
    and "kind_at (tp_server pair) w = Some (KSsl sb)"
  shows "succeeds (handshake_loop L pair k cf sf w)
    (\<lambda>(r, w'). steps {tp_client pair, tp_server pair} w w')"
  using assms
proof (induction k arbitrary: cf sf w)
  case (Suc k)
  let ?S = "{tp_client pair, tp_server pair}"
  from handshake_step_ok [OF Suc(2), of L cf] obtain r cf' w1 where
    c: "handshake_step L (tp_client pair) cf w = Some (r, cf', w1)" "steps {tp_client pair} w w1"
    by (auto elim!: succeedsE)
  have k1: "kind_at q w1 = kind_at q w" for q by (rule steps_kind [OF c(2)])
  from handshake_step_ok [of "tp_server pair" w1 sb L sf] obtain r2 sf' w2 where
    s: "handshake_step L (tp_server pair) sf w1 = Some (r2, sf', w2)" "steps {tp_server pair} w1 w2"
    using Suc(3) k1 by (auto elim!: succeedsE)
  have t1: "steps ?S w w1" by (rule steps_mono [OF c(2)]) simp
  have t2: "steps ?S w w2" by (rule steps_trans [OF t1 steps_mono [OF s(2)]]) simp
  have k2: "kind_at q w2 = kind_at q w" for q by (rule steps_kind [OF t2])
  have "succeeds (handshake_loop L pair k cf' sf' w2) (\<lambda>(r, w'). steps ?S w2 w')"
    by (rule Suc(1)) (simp_all add: Suc(2,3) k2)
  then have "succeeds (handshake_loop L pair k cf' sf' w2) (\<lambda>(r, w'). steps ?S w w')"
    by (rule succeeds_mono) (auto intro: steps_trans [OF t2])
  then show ?case using c(1) s(1) t1 t2 by simp
qed simp

lemma SSL_set_bio_ok:
  assumes "kind_at p w = Some (KSsl NULL)" and "kind_at bio w = Some KBio"
  obtains w' where "SSL_set_bio L p bio w = Some w'" "touched {p} w w'"
    "kind_at p w' = Some (KSsl bio)" "\<forall>q. q \<noteq> p \<longrightarrow> lookup q w' = lookup q w"
proof -
  obtain s where s: "lookup p w = Some (Obj (SslObj s NULL))" using kind_sslD [OF assms(1)] by blast
  obtain b where b: "lookup bio w = Some (Obj (BioObj b))" using kind_bioD [OF assms(2)] by blast
  obtain s' l where f: "ssl_set_bio L b s (w_lib w) = (s', l)" by (cases "ssl_set_bio L b s (w_lib w)")
  let ?w = "(replace p (Obj (SslObj s' bio)) w)\<lparr>w_lib := l\<rparr>"
  have "touched {p} w (replace p (Obj (SslObj s' bio)) w)" using s by (rule touched_replace) simp
  then have "touched {p} w ?w" by (rule touched_lib)
  moreover have "SSL_set_bio L p bio w = Some ?w"
    using s b f by (simp add: SSL_set_bio_def get_obj_def)
  moreover have "p \<noteq> NULL" using s by auto
  ultimately show thesis by (intro that [of ?w]) (simp_all add: kind_at_def)
qed

lemma connect_pair_ok:
  assumes "kind_at (tp_client pair) w = Some (KSsl NULL)"
    and "kind_at (tp_server pair) w = Some (KSsl NULL)"
    and "kind_at cb w = Some KBio" and "kind_at sb w = Some KBio"
    and "tp_client pair \<noteq> tp_server pair"
  shows "succeeds (connect_pair L pair cb sb w) (\<lambda>(r, w').
    touched {tp_client pair, tp_server pair} w w' \<and>
    kind_at (tp_client pair) w' = Some (KSsl cb) \<and> kind_at (tp_server pair) w' = Some (KSsl sb) \<and>
    kind_at cb w' = Some KBio \<and> kind_at sb w' = Some KBio)"
proof -
  let ?c = "tp_client pair" and ?s = "tp_server pair"
  let ?S = "{?c, ?s}"
  obtain w1 where w1: "SSL_set_bio L ?c cb w = Some w1" "touched {?c} w w1"
    "kind_at ?c w1 = Some (KSsl cb)" "\<forall>q. q \<noteq> ?c \<longrightarrow> lookup q w1 = lookup q w"
    using SSL_set_bio_ok [OF assms(1,3)] .
  have ne: "cb \<noteq> ?c" "cb \<noteq> ?s" "sb \<noteq> ?c" "sb \<noteq> ?s" using assms by auto
  have k1: "kind_at ?s w1 = Some (KSsl NULL)" "kind_at cb w1 = Some KBio" "kind_at sb w1 = Some KBio"
    using assms ne w1(4) by (simp_all add: kind_at_def)
  obtain w2 where w2: "SSL_set_bio L ?s sb w1 = Some w2" "touched {?s} w1 w2"
    "kind_at ?s w2 = Some (KSsl sb)" "\<forall>q. q \<noteq> ?s \<longrightarrow> lookup q w2 = lookup q w1"
    using SSL_set_bio_ok [OF k1(1,3)] .
  have k2: "kind_at ?c w2 = Some (KSsl cb)" "kind_at cb w2 = Some KBio" "kind_at sb w2 = Some KBio"
    using assms(5) w1(3) k1 ne w2(4) by (simp_all add: kind_at_def)
  obtain u w3 where w3: "on_ssl ?c (ssl_set_connect_state L) w2 = Some (u, w3)" "steps {?c} w2 w3"
    using ssl_call [OF k2(1)] .
  have "kind_at ?s w3 = Some (KSsl sb)" using w2(3) steps_kind [OF w3(2)] by simp
  then obtain v w4 where
    w4: "on_ssl ?s (ssl_set_accept_state L) w3 = Some (v, w4)" "steps {?s} w3 w4"
    using ssl_call by blast
  have k4: "kind_at q w4 = kind_at q w2" for q using steps_kind [OF w3(2)] steps_kind [OF w4(2)] by simp
  have t4: "touched ?S w w4"
    using touched_mono [OF w1(2), of ?S] touched_mono [OF w2(2), of ?S]
      touched_mono [OF steps_touched [OF w3(2)], of ?S] touched_mono [OF steps_touched [OF w4(2)], of ?S]
    by (blast intro: touched_trans)
  have "succeeds (handshake_loop L pair 10000 False False w4) (\<lambda>(r, w'). steps ?S w4 w')"
    by (rule handshake_loop_ok) (simp_all add: k4 k2(1) w2(3))
  then show ?thesis
    using w1(1) w2(1,3) w3(1) w4(1) k2 k4 touched_trans [OF t4 steps_touched]
    by (auto simp: connect_pair_def steps_kind elim!: succeeds_mono)
qed

lemma SSL_new_ok:
  assumes "owned w0 ps w" and "kind_at ctx w = Some KCtx"
  obtains p w' where "SSL_new L ctx w = Some (p, w')" "owned w0 (p # ps) w'"
    "p \<noteq> NULL \<Longrightarrow> kind_at p w' = Some (KSsl NULL)"
    "\<forall>q. q \<noteq> p \<longrightarrow> lookup q w' = lookup q w" "lookup p w = None" "io w' = io w"
proof -
  obtain c where c: "lookup ctx w = Some (Obj (CtxObj c))" using kind_ctxD [OF assms(2)] by blast
  obtain x l where n: "ssl_new L c (w_lib w) = (x, l)" by (cases "ssl_new L c (w_lib w)")
  obtain p w' where new: "new_obj (map_option (\<lambda>s. SslObj s NULL) x) (w\<lparr>w_lib := l\<rparr>) = (p, w')"
    by (cases "new_obj (map_option (\<lambda>s. SslObj s NULL) x) (w\<lparr>w_lib := l\<rparr>)")
  have "kind_of (Some (Obj (SslObj v NULL))) = Some (KSsl NULL)" for v by simp
  note k = new_kind_ok [OF assms(1) new this]
  have "SSL_new L ctx w = Some (p, w')" using c n new by (simp add: SSL_new_def get_obj_def)
  from that [OF this k(1-5)] show thesis .
qed

lemma BIO_new_bio_pair_ok:
  assumes "tls_ok L" and "owned w0 ps w"
  obtains r p q w' where "BIO_new_bio_pair L w = (r, p, q, w')" "owned w0 (q # p # ps) w'"
    "r = 1 \<Longrightarrow> kind_at p w' = Some KBio \<and> kind_at q w' = Some KBio" "r \<noteq> 1 \<Longrightarrow> p = NULL \<and> q = NULL"
    "\<forall>x. lookup x w \<noteq> None \<longrightarrow> lookup x w' = lookup x w" "io w' = io w"
proof -
  obtain r a b l where n: "bio_new_pair L (w_lib w) = (r, a, b, l)" by (cases "bio_new_pair L (w_lib w)")
  obtain p w1 where p: "new_obj (map_option BioObj a) (w\<lparr>w_lib := l\<rparr>) = (p, w1)"
    by (cases "new_obj (map_option BioObj a) (w\<lparr>w_lib := l\<rparr>)")
  obtain q w2 where q: "new_obj (map_option BioObj b) w1 = (q, w2)"
    by (cases "new_obj (map_option BioObj b) w1")
  then have q': "new_obj (map_option BioObj b) (w1\<lparr>w_lib := w_lib w1\<rparr>) = (q, w2)" by simp
  have kb: "kind_of (Some (Obj (BioObj v))) = Some KBio" for v by simp
  note kp = new_kind_ok [OF assms(2) p kb] and kq = new_kind_ok [OF _ q' kb]
  note kq = kq [OF kp(1)]
  have ab: "if r = 1 then a \<noteq> None \<and> b \<noteq> None else a = None \<and> b = None"
    using assms(1) n unfolding tls_ok_def by blast
  have "kind_at p w2 = Some KBio \<and> kind_at q w2 = Some KBio" if "r = 1"
  proof -
    have nn: "p \<noteq> NULL" "q \<noteq> NULL" using ab that kp(6) kq(6) by simp_all
    then have "p \<noteq> q" using kq(4) kp(2) by (auto simp: kind_at_def)
    then show ?thesis using nn kp(2) kq(2,3) by (auto simp: kind_at_def)
  qed
  moreover have "lookup x w2 = lookup x w" if "lookup x w \<noteq> None" for x
    using that kp(3,4) kq(3,4) by (metis)
  moreover have "BIO_new_bio_pair L w = (r, p, q, w2)" using n p q by (simp add: BIO_new_bio_pair_def)
  ultimately show thesis
    using ab kp(5,6) kq(1,5,6) by (intro that [of r p q w2]) (auto split: if_splits)
qed

text \<open>What \<open>tls_pair_create\<close> leaves: a connected pair, or no trace.\<close>

definition pair_ok :: "tls_pair \<Rightarrow> ptr \<Rightarrow> ptr \<Rightarrow> ('c, 's, 'b, 'l) tls_world \<Rightarrow> bool" where
  "pair_ok pair cb sb w \<longleftrightarrow> ssl_ok (tp_client pair) cb w \<and> ssl_ok (tp_server pair) sb w"

lemma connect_created:
  assumes "owned w0 (tp_client pair # cb # tp_server pair # sb # ps) w"
    and "kind_at (tp_client pair) w = Some (KSsl NULL)"
    and "kind_at (tp_server pair) w = Some (KSsl NULL)"
    and "kind_at cb w = Some KBio" and "kind_at sb w = Some KBio"
    and "tp_client pair \<noteq> tp_server pair"
    and "tp_client pair \<notin> set ps" and "tp_server pair \<notin> set ps"
  shows "succeeds (finish_pair L pair cb sb w) (\<lambda>(r, pair', w'). io w' = io w \<and> (\<forall>q \<in> set ps. lookup q w' = lookup q w) \<and>
      (if r = 0 then pair' = pair \<and> owned w0 (tp_client pair # cb # tp_server pair # sb # ps) w' \<and>
         tp_client pair \<noteq> NULL \<and> tp_server pair \<noteq> NULL \<and> pair_ok pair cb sb w'
       else pair' = zero_pair \<and> owned w0 ps w'))"
proof -
  let ?c = "tp_client pair" and ?s = "tp_server pair"
  from connect_pair_ok [OF assms(2-6), of L] obtain r w1 where
    c: "connect_pair L pair cb sb w = Some (r, w1)" "touched {?c, ?s} w w1"
      "kind_at ?c w1 = Some (KSsl cb)" "kind_at ?s w1 = Some (KSsl sb)"
      "kind_at cb w1 = Some KBio" "kind_at sb w1 = Some KBio"
    by (auto elim!: succeedsE)
  have own: "owned w0 (?c # cb # ?s # sb # ps) w1"
    by (rule touched_owned [OF c(2) assms(1)]) auto
  have ok: "ssl_ok ?c cb w1" "ssl_ok ?s sb w1"
    using c(3-6) kind_at_not_NULL [OF c(3)] kind_at_not_NULL [OF c(4)] by (simp_all add: ssl_ok_def)
  have keep: "lookup q w1 = lookup q w" if "q \<in> set ps" for q
    using touched_lookup [OF c(2), of q] assms(7,8) that by blast
  show ?thesis
  proof (cases "r = 0")
    case True
    then show ?thesis
      using c own ok keep touched_io [OF c(2)] by (auto simp: finish_pair_def pair_ok_def)
  next
    case False
    from tls_pair_destroy_ok [OF own ok, of L] obtain w2 where
      "tls_pair_destroy L pair w1 = Some (zero_pair, w2)" "owned w0 ps w2" "io w2 = io w1"
      "\<forall>q \<in> set ps. lookup q w2 = lookup q w1"
      by (elim succeedsE) auto
    then show ?thesis using False c(1) keep touched_io [OF c(2)] by (simp add: finish_pair_def)
  qed
qed

lemma pair_cleanup:
  assumes "owned w0 (s # c # ps) w" and "c \<noteq> NULL \<Longrightarrow> kind_at c w = Some (KSsl NULL)"
    and "s \<noteq> NULL \<Longrightarrow> kind_at s w = Some (KSsl NULL)"
  shows "succeeds (tls_pair_destroy L \<lparr>tp_client = c, tp_server = s\<rparr> w) (\<lambda>(pair', w').
    pair' = zero_pair \<and> owned w0 ps w' \<and> (\<forall>q \<in> set ps. lookup q w' = lookup q w) \<and> io w' = io w)"
proof (rule tls_pair_destroy_ok [where cb = NULL and sb = NULL])
  let ?pair = "\<lparr>tp_client = c, tp_server = s\<rparr>"
  show "owned w0 (tp_client ?pair # NULL # tp_server ?pair # NULL # ps) w"
    by (rule owned_reorder [where ps = "NULL # NULL # s # c # ps"]) (use assms(1) in auto)
  show "ssl_ok (tp_client ?pair) NULL w" "ssl_ok (tp_server ?pair) NULL w"
    using assms(2,3) by (auto simp: ssl_ok_def)
qed

text \<open>The part of \<open>tls_pair_create\<close> after the two connections exist.\<close>

lemma pair_of_connections:
  assumes "tls_ok L" and "owned w0 (s # c # ps) w"
    and "kind_at c w = Some (KSsl NULL)" and "kind_at s w = Some (KSsl NULL)"
    and "c \<noteq> s" and "c \<notin> set ps" and "s \<notin> set ps"
  shows "succeeds (do {
      let (r, cb, sb, w) = BIO_new_bio_pair L w;
      if r \<noteq> 1
      then do {
        w \<leftarrow> BIO_free L cb w;
        w \<leftarrow> BIO_free L sb w;
        (pair, w) \<leftarrow> tls_pair_destroy L \<lparr>tp_client = c, tp_server = s\<rparr> w;
        Some (-1 :: int, pair, w)
      }
      else finish_pair L \<lparr>tp_client = c, tp_server = s\<rparr> cb sb w })
    (\<lambda>(r, pair, w'). io w' = io w \<and> (\<forall>q \<in> set ps. lookup q w' = lookup q w) \<and>
      (if r = 0 then \<exists>cb sb. owned w0 (tp_client pair # cb # tp_server pair # sb # ps) w' \<and>
         tp_client pair \<noteq> NULL \<and> tp_server pair \<noteq> NULL \<and> pair_ok pair cb sb w'
       else pair = zero_pair \<and> owned w0 ps w'))"
proof -
  let ?pair = "\<lparr>tp_client = c, tp_server = s\<rparr>"
  obtain r cb sb w3 where b: "BIO_new_bio_pair L w = (r, cb, sb, w3)"
    "owned w0 (sb # cb # s # c # ps) w3"
    "r = 1 \<Longrightarrow> kind_at cb w3 = Some KBio \<and> kind_at sb w3 = Some KBio"
    "r \<noteq> 1 \<Longrightarrow> cb = NULL \<and> sb = NULL" "\<forall>x. lookup x w \<noteq> None \<longrightarrow> lookup x w3 = lookup x w"
    "io w3 = io w"
    using BIO_new_bio_pair_ok [OF assms(1,2)] by blast
  have k3: "kind_at c w3 = Some (KSsl NULL)" "kind_at s w3 = Some (KSsl NULL)"
    using assms(3,4) b(5) by (auto simp: kind_at_def elim!: kind_ofE)
  have keep3: "lookup q w3 = lookup q w" if "q \<in> set ps" for q
    using owned_live [OF assms(2), of q] that b(5) by (cases "q = NULL") auto
  show ?thesis
  proof (cases "r = 1")
    case True
    have "owned w0 (c # cb # s # sb # ps) w3" by (rule owned_reorder [OF b(2)]) auto
    from connect_created [where pair = ?pair, simplified, OF this k3 _ _ assms(5-7), of L] b(3) [OF True]
    show ?thesis
      using True b(1,6) keep3
      by simp (erule succeeds_mono, simp split: prod.splits if_split_asm, blast)
  next
    case False
    have "owned w0 (s # c # ps) w3" using b(2) b(4) [OF False] by simp
    from pair_cleanup [OF this k3, of L] show ?thesis
      using False b(1,6) b(4) [OF False] keep3 by (auto simp: BIO_free_def elim!: succeeds_mono)
  qed
qed

lemma tls_pair_create_ok:
  assumes "tls_ok L" and "owned w0 ps w" and "kind_at cctx w = Some KCtx"
    and "kind_at sctx w = Some KCtx"
  shows "succeeds (tls_pair_create L cctx sctx w) (\<lambda>(r, pair, w').
    io w' = io w \<and> (\<forall>q \<in> set ps. lookup q w' = lookup q w) \<and>
    (if r = 0 then \<exists>cb sb. owned w0 (tp_client pair # cb # tp_server pair # sb # ps) w' \<and>
       tp_client pair \<noteq> NULL \<and> tp_server pair \<noteq> NULL \<and> pair_ok pair cb sb w'
     else pair = zero_pair \<and> owned w0 ps w'))"
proof -
  obtain c w1 where c: "SSL_new L cctx w = Some (c, w1)" "owned w0 (c # ps) w1"
    "c \<noteq> NULL \<Longrightarrow> kind_at c w1 = Some (KSsl NULL)"
    "\<forall>q. q \<noteq> c \<longrightarrow> lookup q w1 = lookup q w" "lookup c w = None" "io w1 = io w"
    using SSL_new_ok [OF assms(2,3)] by blast
  have "sctx \<noteq> c" using assms(4) c(5) by (auto simp: kind_at_def)
  then have "kind_at sctx w1 = Some KCtx" using assms(4) c(4) by (simp add: kind_at_def)
  then obtain s w2 where s: "SSL_new L sctx w1 = Some (s, w2)" "owned w0 (s # c # ps) w2"
    "s \<noteq> NULL \<Longrightarrow> kind_at s w2 = Some (KSsl NULL)"
    "\<forall>q. q \<noteq> s \<longrightarrow> lookup q w2 = lookup q w1" "lookup s w1 = None" "io w2 = io w1"
    using SSL_new_ok [OF c(2)] by blast
  have live: "lookup q w \<noteq> None" if "q \<in> set ps" "q \<noteq> NULL" for q
    using owned_live [OF assms(2) that] by auto
  have keep: "lookup q w2 = lookup q w" if "q \<in> set ps" for q
    using live [OF that] c(4,5) s(4,5) by (cases "q = NULL") (simp, metis)
  have cs: "c \<noteq> s" if "c \<noteq> NULL" using c(3) [OF that] s(5) by (auto simp: kind_at_def)
  then have kc: "kind_at c w2 = Some (KSsl NULL)" if "c \<noteq> NULL"
    using that c(3) [OF that] s(4) by (simp add: kind_at_def)
  show ?thesis
  proof (cases "c = NULL \<or> s = NULL")
    case True
    have "tls_pair_create L cctx sctx w =
      do { (pair, w) \<leftarrow> tls_pair_destroy L \<lparr>tp_client = c, tp_server = s\<rparr> w2; Some (-1, pair, w) }"
      using True c(1) s(1) by (auto simp: tls_pair_create_def BIO_free_def)
    then show ?thesis
      using pair_cleanup [OF s(2) kc s(3), of L] keep c(6) s(6) by (auto elim!: succeedsE)
  next
    case False
    then have nn: "c \<noteq> NULL" "s \<noteq> NULL" by simp_all
    have "c \<notin> set ps" using live [of c] c(5) nn(1) by blast
    moreover have "s \<notin> set ps"
      using live [of s] nn(2) c(4) s(5) cs [OF nn(1)] by metis
    moreover obtain r cb sb w3 where "BIO_new_bio_pair L w2 = (r, cb, sb, w3)"
      by (cases "BIO_new_bio_pair L w2")
    ultimately show ?thesis
      using pair_of_connections [OF assms(1) s(2) kc [OF nn(1)] s(3) [OF nn(2)] cs [OF nn(1)]]
        c(1,6) s(1,6) nn keep
      by (simp add: tls_pair_create_def Let_def)
  qed
qed

end
