(* ===== verification/Tls_Contract.thy ===== *)
theory Tls_Contract
  imports Tls_Frame
begin

unbundle bit_operations_syntax

text \<open>
  The TLS backend keeps the contract of \<open>bench_backend\<close>: transfers stay in their buffers, creation
  and destruction own exactly the blocks they should, verification and batches keep them.
\<close>

subsection \<open>Transfers\<close>

lemma initialised_extend:
  assumes "cells_write (int off) bs cs = Some cs'" and "initialised off cs"
  shows "initialised (off + length bs) cs'"
  using assms by (auto simp: cells_write_def initialised_def nth_append nth_map split: if_splits)

text \<open>The two ends and the two buffers of a transfer.\<close>

definition transfer_ok :: "ofb_tls_backend \<Rightarrow> ('c, 's, 'b, 'l) tls_world \<Rightarrow> bool" where
  "transfer_ok st w \<longleftrightarrow>
     (\<exists>cb. kind_at (tp_client (t_pair st)) w = Some (KSsl cb)) \<and>
     (\<exists>sb. kind_at (tp_server (t_pair st)) w = Some (KSsl sb)) \<and>
     has_bytes (t_plaintext st) (unat (t_message_size st)) w \<and>
     has_room (t_received st) (unat (t_message_size st)) w"

definition transfer_set :: "ofb_tls_backend \<Rightarrow> ptr set" where
  "transfer_set st = {tp_client (t_pair st), tp_server (t_pair st), t_received st}"

lemma transfer_ok_steps: "transfer_ok st w \<Longrightarrow> steps S w w' \<Longrightarrow> transfer_ok st w'"
  unfolding transfer_ok_def by (auto simp: steps_kind intro: has_touched dest: steps_touched)

lemma steps_store:
  assumes "has_room p m w" and "k + length bs \<le> m"
  obtains w' where "store p (int k) bs w = Some w'" "steps {p} w w'"
    "has_bytes p k w \<Longrightarrow> has_bytes p (k + length bs) w'" "w_lib w' = w_lib w"
proof -
  obtain cs where cs: "lookup p w = Some (Bytes cs)" "m \<le> length cs"
    using assms(1) by (auto simp: has_room_def)
  have "nat (int k) + length bs \<le> length cs" using assms(2) cs(2) by simp
  from store_ok [OF cs(1) _ this] obtain cs' where
    s: "cells_write (int k) bs cs = Some cs'" "store p (int k) bs w = Some (replace p (Bytes cs') w)"
      "touched {p} w (replace p (Bytes cs') w)" by auto
  have p: "p \<noteq> NULL" using cs(1) by auto
  have "kind_at q (replace p (Bytes cs') w) = kind_at q w" for q
    using cs(1) by (simp add: kind_at_def)
  then have "steps {p} w (replace p (Bytes cs') w)" using s(3) by (simp add: steps_def)
  moreover have "has_bytes p (k + length bs) (replace p (Bytes cs') w)" if "has_bytes p k w"
    using that s(1) cs(1) p initialised_extend by (auto simp: has_bytes_def)
  moreover have "w_lib (replace p (Bytes cs') w) = w_lib w" by (simp add: replace_def split: ptr.split)
  ultimately show thesis using s(2) that by blast
qed

lemma read_call:
  assumes "tls_ok L" and "kind_at p w = Some (KSsl sb)"
  obtains r bs w' where "on_ssl p (ssl_read L n) w = Some ((r, bs), w')" "steps {p} w w'"
    "length bs \<le> n" "0 < r \<Longrightarrow> r = int (length bs)"
proof -
  from on_ssl_ok [OF assms(2), of "ssl_read L n"] obtain r bs w' s s' where
    "on_ssl p (ssl_read L n) w = Some ((r, bs), w')" "steps {p} w w'"
    "ssl_read L n s (w_lib w) = ((r, bs), s', w_lib w')"
    by (auto elim!: succeedsE)
  moreover from this(3) assms(1) have "length bs \<le> n \<and> (0 < r \<longrightarrow> r = int (length bs))"
    unfolding tls_ok_def by blast
  ultimately show thesis using that by blast
qed

lemma read_loop_ok:
  assumes "tls_ok L" and "transfer_ok st w" and "offset + chunk \<le> unat (t_message_size st)"
    and "received \<le> chunk" and "has_bytes (t_received st) (offset + received) w"
  shows "succeeds (read_loop L st offset chunk received w) (\<lambda>(r, w').
    steps (transfer_set st) w w' \<and> (r = 0 \<longrightarrow> has_bytes (t_received st) (offset + chunk) w'))"
  using assms(2,4,5)
proof (induction "chunk - received" arbitrary: received w rule: less_induct)
  case less
  let ?S = "transfer_set st" and ?n = "chunk - received"
  show ?case
  proof (cases "received < chunk")
    case False
    then show ?thesis using less.prems by (simp add: read_loop.simps)
  next
    case True
    obtain sb where k: "kind_at (tp_server (t_pair st)) w = Some (KSsl sb)"
      using less.prems(1) by (auto simp: transfer_ok_def)
    obtain r bs w1 where c: "on_ssl (tp_server (t_pair st)) (ssl_read L ?n) w = Some ((r, bs), w1)"
      "steps {tp_server (t_pair st)} w w1" "length bs \<le> ?n" "0 < r \<Longrightarrow> r = int (length bs)"
      using read_call [OF assms(1) k, of ?n] by blast
    have t1: "steps ?S w w1" by (rule steps_mono [OF c(2)]) (simp add: transfer_set_def)
    have "has_room (t_received st) (unat (t_message_size st)) w1"
      using transfer_ok_steps [OF less.prems(1) t1] by (simp add: transfer_ok_def)
    moreover have "offset + received + length bs \<le> unat (t_message_size st)"
      using assms(3) c(3) True by linarith
    ultimately obtain w2 where s: "store (t_received st) (int (offset + received)) bs w1 = Some w2"
      "steps {t_received st} w1 w2"
      "has_bytes (t_received st) (offset + received) w1 \<Longrightarrow>
        has_bytes (t_received st) (offset + received + length bs) w2"
      by (rule steps_store) blast
    have t2: "steps ?S w w2"
      by (rule steps_trans [OF t1 steps_mono [OF s(2)]]) (simp add: transfer_set_def)
    have b2: "has_bytes (t_received st) (offset + received + length bs) w2"
      using s(3) has_bytes_touched [OF less.prems(3) steps_touched [OF t1]] by blast
    show ?thesis
    proof (cases "r \<le> 0")
      case True
      then show ?thesis
        using \<open>received < chunk\<close> c(1) s(1) t2 by (subst read_loop.simps) simp
    next
      case False
      then have r: "nat r = length bs" "0 < length bs" using c(4) by auto
      have "succeeds (read_loop L st offset chunk (received + length bs) w2) (\<lambda>(r, w').
        steps ?S w2 w' \<and> (r = 0 \<longrightarrow> has_bytes (t_received st) (offset + chunk) w'))"
      proof (rule less.hyps)
        show "chunk - (received + length bs) < chunk - received" using r(2) True by linarith
        show "received + length bs \<le> chunk" using c(3) True by linarith
        show "has_bytes (t_received st) (offset + (received + length bs)) w2"
          using b2 by (simp add: add.assoc)
      qed (rule transfer_ok_steps [OF less.prems(1) t2])
      then show ?thesis
        using True False c(1) s(1) r
        by (subst read_loop.simps) (auto elim!: succeeds_mono intro: steps_trans [OF t2])
    qed
  qed
qed

lemma transfer_loop_ok:
  assumes "tls_ok L" and "transfer_ok st w" and "offset \<le> unat (t_message_size st)"
    and "has_bytes (t_received st) offset w"
  shows "succeeds (transfer_loop L st offset w) (\<lambda>(r, w'). steps (transfer_set st) w w' \<and>
    (r = 0 \<longrightarrow> has_bytes (t_received st) (unat (t_message_size st)) w'))"
  using assms(2-4)
proof (induction "unat (t_message_size st) - offset" arbitrary: offset w rule: less_induct)
  case less
  let ?S = "transfer_set st" and ?n = "unat (t_message_size st)"
  show ?case
  proof (cases "offset < ?n")
    case False
    then show ?thesis using less.prems by (simp add: transfer_loop.simps)
  next
    case True
    define chunk where "chunk = min (?n - offset) OFB_TLS_RECORD_SIZE"
    have ch: "0 < chunk" "offset + chunk \<le> ?n" using True by (auto simp: chunk_def OFB_TLS_RECORD_SIZE_def)
    obtain cb where k: "kind_at (tp_client (t_pair st)) w = Some (KSsl cb)"
      and pt: "has_bytes (t_plaintext st) ?n w"
      using less.prems(1) by (auto simp: transfer_ok_def)
    obtain bs where bs: "load (t_plaintext st) offset chunk w = Some bs"
      using pt ch(2) load_ok [of "t_plaintext st" w _ ?n offset chunk] by (auto simp: has_bytes_def)
    obtain r w1 where c: "on_ssl (tp_client (t_pair st)) (ssl_write L bs) w = Some (r, w1)"
      "steps {tp_client (t_pair st)} w w1"
      using ssl_call [OF k] .
    have t1: "steps ?S w w1" by (rule steps_mono [OF c(2)]) (simp add: transfer_set_def)
    note ok1 = transfer_ok_steps [OF less.prems(1) t1]
    have b1: "has_bytes (t_received st) (offset + 0) w1"
      using has_bytes_touched [OF less.prems(3) steps_touched [OF t1]] by simp
    from read_loop_ok [OF assms(1) ok1 ch(2) _ b1] obtain r2 w2 where
      rd: "read_loop L st offset chunk 0 w1 = Some (r2, w2)" "steps ?S w1 w2"
        "r2 = 0 \<Longrightarrow> has_bytes (t_received st) (offset + chunk) w2"
      by (auto elim!: succeedsE)
    note t2 = steps_trans [OF t1 rd(2)]
    have run: "transfer_loop L st offset w =
      (if r \<noteq> int chunk then Some (-1, w1) else if r2 \<noteq> 0 then Some (-1, w2)
       else transfer_loop L st (offset + chunk) w2)"
      using True bs c(1) rd(1) by (subst transfer_loop.simps) (simp add: Let_def flip: chunk_def)
    have "succeeds (transfer_loop L st (offset + chunk) w2) (\<lambda>(r, w'). steps ?S w w' \<and>
        (r = 0 \<longrightarrow> has_bytes (t_received st) ?n w'))" if "r2 = 0"
    proof -
      have "succeeds (transfer_loop L st (offset + chunk) w2) (\<lambda>(r, w'). steps ?S w2 w' \<and>
          (r = 0 \<longrightarrow> has_bytes (t_received st) ?n w'))"
        by (rule less.hyps) (use ch True rd(3) [OF that] transfer_ok_steps [OF less.prems(1) t2] in simp_all)
      then show ?thesis by (rule succeeds_mono) (auto intro: steps_trans [OF t2])
    qed
    then show ?thesis using run t1 t2 by simp
  qed
qed

lemma transfer_once_ok:
  assumes "tls_ok L" and "get_struct p w = Some st" and "transfer_ok st w"
  shows "succeeds (transfer_once L p w) (\<lambda>(r, w'). steps (transfer_set st) w w' \<and>
    (r = 0 \<longrightarrow> has_bytes (t_received st) (unat (t_message_size st)) w'))"
proof -
  have "has_bytes (t_received st) 0 w"
    using assms(3) by (auto simp: transfer_ok_def has_room_def has_bytes_def)
  from transfer_loop_ok [OF assms(1,3) _ this] show ?thesis
    using assms(2) by (simp add: transfer_once_def)
qed

subsection \<open>Creating and destroying\<close>

definition tls_parts :: "ptr \<Rightarrow> ptr \<Rightarrow> ptr \<Rightarrow> ofb_tls_backend \<Rightarrow> ptr list" where
  "tls_parts cb sb p st =
     [tp_client (t_pair st), cb, tp_server (t_pair st), sb, t_client_ctx st, t_server_ctx st,
      t_plaintext st, t_received st, p]"

text \<open>What the fields offer from the allocations on, each only if not \<open>NULL\<close>.\<close>

definition tls_blocks_ok :: "ptr \<Rightarrow> ptr \<Rightarrow> ofb_tls_backend \<Rightarrow> ('c, 's, 'b, 'l) tls_world \<Rightarrow> bool" where
  "tls_blocks_ok cb sb st w \<longleftrightarrow> pair_ok (t_pair st) cb sb w \<and>
     (t_client_ctx st \<noteq> NULL \<longrightarrow> kind_at (t_client_ctx st) w = Some KCtx) \<and>
     (t_server_ctx st \<noteq> NULL \<longrightarrow> kind_at (t_server_ctx st) w = Some KCtx) \<and>
     (t_plaintext st \<noteq> NULL \<longrightarrow> has_room (t_plaintext st) (unat (t_message_size st)) w) \<and>
     (t_received st \<noteq> NULL \<longrightarrow> has_room (t_received st) (unat (t_message_size st)) w)"

lemma tls_blocks_steps: "tls_blocks_ok cb sb st w \<Longrightarrow> steps S w w' \<Longrightarrow> tls_blocks_ok cb sb st w'"
  unfolding tls_blocks_ok_def pair_ok_def
  by (simp add: steps_kind ssl_ok_steps) (blast intro: has_touched dest: steps_touched)

lemma put_struct_steps:
  assumes "lookup p w = Some (Struct s)"
  shows "put_struct p s' w = Some (replace p (Struct s') w)"
    and "steps {p} w (replace p (Struct s') w)"
    and "lookup p (replace p (Struct s') w) = Some (Struct s')"
proof -
  note p = put_struct_ok [OF assms, of s']
  show "put_struct p s' w = Some (replace p (Struct s') w)" by (rule p(1))
  have "kind_at q (replace p (Struct s') w) = kind_at q w" for q
    using assms by (simp add: kind_at_def)
  then show "steps {p} w (replace p (Struct s') w)" using p(2) by (simp add: steps_def)
  have "p \<noteq> NULL" using assms by auto
  then show "lookup p (replace p (Struct s') w) = Some (Struct s')" by simp
qed

lemma tls_destroy_ok:
  assumes "owned w0 (tls_parts cb sb p st) w" and "lookup p w = Some (Struct st)"
    and "tls_blocks_ok cb sb st w"
  shows "succeeds (ofb_tls_backend_destroy L p w) (\<lambda>w'. io w' = io w \<and> owned w0 [] w')"
proof -
  let ?cc = "t_client_ctx st" and ?sc = "t_server_ctx st" and ?pt = "t_plaintext st"
    and ?rc = "t_received st"
  have p: "p \<noteq> NULL" using assms(2) by auto
  note b = assms(3) [unfolded tls_blocks_ok_def pair_ok_def]
  have obj: "\<not> is_obj (lookup ?pt w)" "\<not> is_obj (lookup ?rc w)"
    using b room_not_obj [of ?pt "unat (t_message_size st)" w]
      room_not_obj [of ?rc "unat (t_message_size st)" w] by simp_all
  from tls_pair_destroy_ok [OF assms(1) [unfolded tls_parts_def], of L] b obtain w1 where
    w1: "tls_pair_destroy L (t_pair st) w = Some (zero_pair, w1)" "io w1 = io w"
      "owned w0 [?cc, ?sc, ?pt, ?rc, p] w1" "\<forall>q \<in> {?cc, ?sc, ?pt, ?rc, p}. lookup q w1 = lookup q w"
    by (auto elim!: succeedsE)
  have l1: "lookup p w1 = Some (Struct st)" using w1(4) assms(2) by simp
  define w2 where "w2 = replace p (Struct (st\<lparr>t_pair := zero_pair\<rparr>)) w1"
  note w2 = put_struct_steps [OF l1, of "st\<lparr>t_pair := zero_pair\<rparr>", folded w2_def]
  have own2: "owned w0 [?cc, ?sc, ?pt, ?rc, p] w2"
    by (rule touched_owned [OF steps_touched [OF w2(2)] w1(3)]) simp
  have k: "?cc \<noteq> NULL \<longrightarrow> kind_at ?cc w2 = Some KCtx" "?sc \<noteq> NULL \<longrightarrow> kind_at ?sc w2 = Some KCtx"
    using b w1(4) steps_kind [OF w2(2)] kind_at_lookup [of _ w1 w] by auto
  have nobj2: "\<not> is_obj (lookup ?pt w2)" "\<not> is_obj (lookup ?rc w2)"
    using obj w1(4) by (auto simp: w2_def)
  from SSL_CTX_free_ok [OF own2 k(1), of L] obtain w3 where
    w3: "SSL_CTX_free L ?cc w2 = Some w3" "owned w0 [?sc, ?pt, ?rc, p] w3" "io w3 = io w2"
      "\<forall>q \<in> {?sc, ?pt, ?rc, p}. lookup q w3 = lookup q w2"
    by (auto elim!: succeedsE)
  have "?sc \<noteq> NULL \<longrightarrow> kind_at ?sc w3 = Some KCtx" using k(2) w3(4) kind_at_lookup [of ?sc w3 w2] by simp
  from SSL_CTX_free_ok [OF w3(2) this, of L] obtain w4 where
    w4: "SSL_CTX_free L ?sc w3 = Some w4" "owned w0 [?pt, ?rc, p] w4" "io w4 = io w3"
      "\<forall>q \<in> {?pt, ?rc, p}. lookup q w4 = lookup q w3"
    by (auto elim!: succeedsE)
  from owned_free [OF w4(2)] nobj2 w3(4) w4(4) obtain w5 where
    w5: "free ?pt w4 = Some w5" "owned w0 [?rc, p] w5" "io w5 = io w4"
      "\<forall>q \<in> {?rc, p}. lookup q w5 = lookup q w4"
    by (auto elim!: succeedsE)
  from owned_free [OF w5(2)] nobj2 w3(4) w4(4) w5(4) obtain w6 where
    w6: "free ?rc w5 = Some w6" "owned w0 [p] w6" "io w6 = io w5" "lookup p w6 = lookup p w5"
    by (auto elim!: succeedsE)
  have l6: "lookup p w6 = lookup p w2" using w3(4) w4(4) w5(4) w6(4) by simp
  have "io w2 = io w1" using touched_io [OF steps_touched [OF w2(2)]] .
  then show ?thesis
    using owned_free [OF w6(2)] l6 w2(3) p assms(2) w1(1,2) w2(1) w3(1,3) w4(1,3) w5(1,3) w6(1,3)
    by (auto simp: ofb_tls_backend_destroy_def get_struct_def elim!: succeeds_mono)
qed

lemma SSL_CTX_new_ok:
  assumes "SSL_CTX_new L w = (p, w')" and "owned w0 ps w"
  shows "owned w0 (p # ps) w'" and "p \<noteq> NULL \<Longrightarrow> kind_at p w' = Some KCtx"
    and "\<forall>q. q \<noteq> p \<longrightarrow> lookup q w' = lookup q w" and "lookup p w = None" and "io w' = io w"
proof -
  obtain x l where n: "ssl_ctx_new L (w_lib w) = (x, l)" by (cases "ssl_ctx_new L (w_lib w)")
  then have new: "new_obj (map_option CtxObj x) (w\<lparr>w_lib := l\<rparr>) = (p, w')"
    using assms(1) by (simp add: SSL_CTX_new_def)
  have "kind_of (Some (Obj (CtxObj v))) = Some KCtx" for v by simp
  note k = new_kind_ok [OF assms(2) new this]
  show "owned w0 (p # ps) w'" "p \<noteq> NULL \<Longrightarrow> kind_at p w' = Some KCtx"
    "\<forall>q. q \<noteq> p \<longrightarrow> lookup q w' = lookup q w" "lookup p w = None" "io w' = io w"
    by (rule k(1), rule k(2), assumption, rule k(3), rule k(4), rule k(5))
qed

lemma kind_kept:
  assumes "\<forall>q. q \<noteq> c \<longrightarrow> lookup q w' = lookup q w" and "lookup c w = None"
    and "p \<noteq> NULL \<longrightarrow> kind_at p w = Some k"
  shows "p \<noteq> NULL \<longrightarrow> kind_at p w' = Some k"
  using assms by (cases "p = c") (auto simp: kind_at_def)

lemma create_tls_blocks_ok:
  assumes "owned w0 [p] w" and "lookup p w = Some b" and "create_tls_blocks L q w = (st, w')"
  shows "owned w0 (tls_parts NULL NULL p st) w'" and "lookup p w' = Some b" and "io w' = io w"
    and "tls_blocks_ok NULL NULL st w'" and "t_message_size st = q_message_size q"
    and "t_benchmark st = q_benchmark q" and "t_cipher st = q_cipher q" and "t_pair st = zero_pair"
proof -
  let ?n = "q_message_size q"
  let ?n1 = "if ?n = 0 then 1 else ?n"
  obtain cc w1 where cc: "SSL_CTX_new L w = (cc, w1)" by (cases "SSL_CTX_new L w")
  obtain sc w2 where sc: "SSL_CTX_new L w1 = (sc, w2)" by (cases "SSL_CTX_new L w1")
  obtain pt w3 where pt: "malloc ?n1 w2 = (pt, w3)" by (cases "malloc ?n1 w2")
  obtain rc w4 where rc: "malloc ?n1 w3 = (rc, w4)" by (cases "malloc ?n1 w3")
  have st: "st = zero_tls_backend\<lparr>t_client_ctx := cc, t_server_ctx := sc,
      t_benchmark := q_benchmark q, t_cipher := q_cipher q, t_message_size := ?n,
      t_plaintext := pt, t_received := rc\<rparr>" and w': "w' = w4"
    using assms(3) by (auto simp: create_tls_blocks_def cc sc pt rc Let_def)
  note cc' = SSL_CTX_new_ok [OF cc assms(1)]
  note sc' = SSL_CTX_new_ok [OF sc cc'(1)]
  note pt' = malloc_ok [OF sc'(1) pt]
  note rc' = malloc_ok [OF pt'(1) rc]
  note k1 = has_kept [OF cc'(3,4)] and k2 = has_kept [OF sc'(3,4)] and k3 = has_kept [OF pt'(3,4)]
    and k4 = has_kept [OF rc'(3,4)]
  have room: "has_room r (unat ?n1) v \<Longrightarrow> has_room r (unat ?n) v" for r v
    by (auto simp: has_room_def split: if_splits)
  have kcc: "cc \<noteq> NULL \<longrightarrow> kind_at cc w4 = Some KCtx"
    using cc'(2) by (intro kind_kept [OF rc'(3,4)] kind_kept [OF pt'(3,4)] kind_kept [OF sc'(3,4)]) blast
  have ksc: "sc \<noteq> NULL \<longrightarrow> kind_at sc w4 = Some KCtx"
    using sc'(2) by (intro kind_kept [OF rc'(3,4)] kind_kept [OF pt'(3,4)]) blast
  have "owned w0 (NULL # NULL # NULL # NULL # [rc, pt, sc, cc, p]) w4" using rc'(1) by simp
  then show "owned w0 (tls_parts NULL NULL p st) w'"
    unfolding w' by (rule owned_reorder) (auto simp: tls_parts_def st zero_tls_backend_def zero_pair_def)
  show "lookup p w' = Some b"
    unfolding w' using assms(2) by (intro k4(4) k3(4) k2(4) k1(4))
  show "io w' = io w" by (simp add: w' rc'(5) pt'(5) sc'(5) cc'(5))
  show "tls_blocks_ok NULL NULL st w'"
    unfolding tls_blocks_ok_def w' st pair_ok_def
    using kcc ksc pt'(2) rc'(2)
    by (auto simp: zero_tls_backend_def zero_pair_def intro: k4 room)
  show "t_message_size st = ?n" "t_benchmark st = q_benchmark q" "t_cipher st = q_cipher q"
    "t_pair st = zero_pair"
    by (simp_all add: st zero_tls_backend_def)
qed

lemma ctx_call:
  assumes "kind_at p w = Some KCtx"
  obtains r w' where "on_ctx p f w = Some (r, w')" "steps {p} w w'"
  using on_ctx_ok [OF assms, of f] by (auto elim!: succeedsE)

text \<open>One configuration call, in the shape of the condition.\<close>

lemma bind_ctx:
  assumes "kind_at p w = Some KCtx" and "steps S w w1" and "p \<in> S"
    and "\<And>w2. steps S w w2 \<Longrightarrow> Q (fail w2)"
    and "\<And>w2. steps S w w2 \<Longrightarrow> succeeds (g w2) Q"
  shows "succeeds (on_ctx p f w1 \<bind> (\<lambda>(r, w). if r \<noteq> (1 :: int) then Some (fail w) else g w)) Q"
proof -
  have "kind_at p w1 = Some KCtx" using assms(1) steps_kind [OF assms(2)] by simp
  then obtain r w2 where c: "on_ctx p f w1 = Some (r, w2)" "steps {p} w1 w2"
    by (rule ctx_call)
  have "steps S w w2" using assms(3) by (intro steps_trans [OF assms(2) steps_mono [OF c(2)]]) simp
  then show ?thesis using c(1) assms(4,5) by simp
qed

lemma configure_ok:
  assumes "kind_at cc w = Some KCtx" and "kind_at sc w = Some KCtx"
  shows "succeeds (configure L q cc sc w) (\<lambda>(ok, w'). steps {cc, sc} w w')"
proof -
  note c = bind_ctx [OF assms(1), where S = "{cc, sc}"] and s = bind_ctx [OF assms(2), where S = "{cc, sc}"]
  have final: "succeeds (on_ctx sc f w1 \<bind> (\<lambda>(r, w). Some (r = (1 :: int), w)))
    (\<lambda>(ok, w'). steps {cc, sc} w w')" if "steps {cc, sc} w w1" for f w1
  proof -
    have "kind_at sc w1 = Some KCtx" using assms(2) steps_kind [OF that] by simp
    then obtain r w2 where "on_ctx sc f w1 = Some (r, w2)" "steps {sc} w1 w2" by (rule ctx_call)
    then show ?thesis using steps_trans [OF that steps_mono [of "{sc}" w1 w2 "{cc, sc}"]] by simp
  qed
  show ?thesis
    unfolding configure_def
    by (rule c, rule steps_refl, simp, simp, rule c, assumption, simp, simp,
        rule s, assumption, simp, simp, rule s, assumption, simp, simp,
        rule c, assumption, simp, simp, rule s, assumption, simp, simp,
        rule s, assumption, simp, simp, rule s, assumption, simp, simp, rule final, assumption)
qed

text \<open>
  A backend that creation returned, and one that has passed its verification, after which the
  received message is initialised.
\<close>

definition tls_backend_ok :: "ptr \<Rightarrow> ptr \<Rightarrow> ofb_tls_backend \<Rightarrow> ('c, 's, 'b, 'l) tls_world \<Rightarrow> bool" where
  "tls_backend_ok cb sb st w \<longleftrightarrow>
     kind_at (t_client_ctx st) w = Some KCtx \<and> kind_at (t_server_ctx st) w = Some KCtx \<and>
     has_bytes (t_plaintext st) (unat (t_message_size st)) w \<and>
     has_room (t_received st) (unat (t_message_size st)) w \<and> pair_ok (t_pair st) cb sb w \<and>
     (t_benchmark st = OFB_TLS_TRANSFER \<longrightarrow> t_message_size st \<noteq> 0 \<and>
        tp_client (t_pair st) \<noteq> NULL \<and> tp_server (t_pair st) \<noteq> NULL)"

definition tls_at ::
  "('c, 's, 'b, 'l) tls_world \<Rightarrow> ptr \<Rightarrow> ptr \<Rightarrow> ptr \<Rightarrow> ofb_tls_backend \<Rightarrow>
   ('c, 's, 'b, 'l) tls_world \<Rightarrow> bool" where
  "tls_at w0 p cb sb st w \<longleftrightarrow> lookup p w = Some (Struct st) \<and> owned w0 (tls_parts cb sb p st) w \<and>
     tls_backend_ok cb sb st w"

definition tls_holds ::
  "('c, 's, 'b, 'l) tls_world \<Rightarrow> ptr \<Rightarrow> ('c, 's, 'b, 'l) tls_world \<Rightarrow> bool" where
  "tls_holds w0 p w \<longleftrightarrow> (\<exists>cb sb st. tls_at w0 p cb sb st w)"

definition tls_ready ::
  "('c, 's, 'b, 'l) tls_world \<Rightarrow> ptr \<Rightarrow> ('c, 's, 'b, 'l) tls_world \<Rightarrow> bool" where
  "tls_ready w0 p w \<longleftrightarrow> (\<exists>cb sb st. tls_at w0 p cb sb st w \<and>
     (t_benchmark st = OFB_TLS_TRANSFER \<longrightarrow>
       has_bytes (t_received st) (unat (t_message_size st)) w))"

definition tls_created ::
  "('c, 's, 'b, 'l) tls_world \<Rightarrow> ofb_tls_params \<Rightarrow> ptr \<Rightarrow> ('c, 's, 'b, 'l) tls_world \<Rightarrow> bool" where
  "tls_created w0 q p w \<longleftrightarrow> (\<exists>cb sb st. tls_at w0 p cb sb st w \<and> t_benchmark st = q_benchmark q \<and>
     t_cipher st = q_cipher q \<and> t_message_size st = q_message_size q)"

lemma tls_created_holds: "tls_created w0 q p w \<Longrightarrow> tls_holds w0 p w"
  by (auto simp: tls_created_def tls_holds_def)

definition tls_valid :: "ofb_tls_params \<Rightarrow> bool" where
  "tls_valid q \<longleftrightarrow> (q_benchmark q = OFB_TLS_TRANSFER \<longrightarrow> q_message_size q \<noteq> 0)"

lemma tls_fill_length [simp]: "length (tls_plaintext_fill n) = unat n"
  by (simp add: tls_plaintext_fill_def)

lemma tls_blocks_destroy:
  assumes "tls_at w0 p cb sb st w"
  shows "succeeds (ofb_tls_backend_destroy L p w) (\<lambda>w'. io w' = io w \<and> owned w0 [] w')"
  using assms unfolding tls_at_def tls_backend_ok_def
  by (intro tls_destroy_ok [where st = st and cb = cb and sb = sb])
    (auto simp: tls_blocks_ok_def intro: has_bytes_room)

lemma create_tail_ok:
  assumes "tls_ok L" and "tls_valid q" and "owned w0 (tls_parts NULL NULL p st) w"
    and "lookup p w = Some (Struct st)" and "tls_blocks_ok NULL NULL st w"
    and "t_message_size st = q_message_size q" and "t_benchmark st = q_benchmark q"
    and "t_cipher st = q_cipher q" and "t_pair st = zero_pair"
    and "t_client_ctx st \<noteq> NULL" and "t_server_ctx st \<noteq> NULL" and "t_plaintext st \<noteq> NULL"
    and "t_received st \<noteq> NULL"
  shows "succeeds (create_tail L q p st w) (\<lambda>(r, p', w'). io w' = io w \<and>
    (if r = 0 then p' = p \<and> tls_created w0 q p w' else p' = NULL \<and> owned w0 [] w'))"
proof -
  let ?n = "unat (t_message_size st)" and ?cc = "t_client_ctx st" and ?sc = "t_server_ctx st"
    and ?pt = "t_plaintext st" and ?rc = "t_received st"
  let ?ps = "[?cc, ?sc, ?pt, ?rc, p]"
  have own: "owned w0 ?ps w" using assms(3) by (simp add: tls_parts_def assms(9) zero_pair_def)
  have b: "kind_at ?cc w = Some KCtx" "kind_at ?sc w = Some KCtx" "has_room ?pt ?n w" "has_room ?rc ?n w"
    using assms(5,10-13) by (simp_all add: tls_blocks_ok_def)
  obtain u w1 where w1: "on_ctx ?cc (ctx_set_verify_none L) w = Some (u, w1)" "steps {?cc} w w1"
    using ctx_call [OF b(1)] .
  note room1 = has_room_touched [OF b(3) steps_touched [OF w1(2)]]
  obtain w2 where w2: "store ?pt 0 (tls_plaintext_fill (q_message_size q)) w1 = Some w2"
      "steps {?pt} w1 w2" "has_bytes ?pt ?n w2"
  proof -
    have "0 + length (tls_plaintext_fill (q_message_size q)) \<le> ?n" using assms(6) by simp
    from steps_store [OF room1 this] show ?thesis
      using that room1 assms(6) by (auto simp: has_bytes_def has_room_def)
  qed
  have t2: "steps {?cc, ?pt} w w2"
    by (rule steps_trans [OF steps_mono [OF w1(2)] steps_mono [OF w2(2)]]) simp_all
  have "p \<notin> {?cc, ?pt}" using b assms(4) by (auto simp: kind_at_def has_room_def)
  then have l2: "lookup p w2 = Some (Struct st)"
    using touched_lookup [OF steps_touched [OF t2]] assms(4) by simp
  have own2: "owned w0 ?ps w2" by (rule touched_owned [OF steps_touched [OF t2] own]) auto
  have k2: "kind_at ?cc w2 = Some KCtx" "kind_at ?sc w2 = Some KCtx"
    using b(1,2) steps_kind [OF t2] by simp_all
  have rc2: "has_room ?rc ?n w2" using b(4) has_room_touched steps_touched [OF t2] by blast
  have io2: "io w2 = io w" using touched_io [OF steps_touched [OF t2]] .
  show ?thesis
  proof (cases "q_benchmark q = OFB_TLS_TRANSFER")
    case False
    have "owned w0 (tls_parts NULL NULL p st) w2"
      using own2 by (simp add: tls_parts_def assms(9) zero_pair_def)
    then have "tls_at w0 p NULL NULL st w2"
      using l2 k2 w2(3) rc2 False assms(7,9)
      by (simp add: tls_at_def tls_backend_ok_def pair_ok_def zero_pair_def)
    then show ?thesis
      using w1(1) w2(1) False io2 assms(6-8) by (auto simp: create_tail_def tls_created_def)
  next
    case True
    from tls_pair_create_ok [OF assms(1) own2 k2] obtain r pair w3 where
      w3: "tls_pair_create L ?cc ?sc w2 = Some (r, pair, w3)" "io w3 = io w2"
        "\<forall>q \<in> set ?ps. lookup q w3 = lookup q w2"
        "if r = 0 then \<exists>cb sb. owned w0 (tp_client pair # cb # tp_server pair # sb # ?ps) w3 \<and>
           tp_client pair \<noteq> NULL \<and> tp_server pair \<noteq> NULL \<and> pair_ok pair cb sb w3
         else pair = zero_pair \<and> owned w0 ?ps w3"
      by (auto elim!: succeedsE)
    have l3: "lookup p w3 = Some (Struct st)" using w3(3) l2 by simp
    define w4 where "w4 = replace p (Struct (st\<lparr>t_pair := pair\<rparr>)) w3"
    note w4 = put_struct_steps [OF l3, of "st\<lparr>t_pair := pair\<rparr>", folded w4_def]
    have k4: "kind_at ?cc w4 = Some KCtx" "kind_at ?sc w4 = Some KCtx"
      using k2 w3(3) steps_kind [OF w4(2)] kind_at_lookup [of _ w3 w2] by simp_all
    have pt3: "has_bytes ?pt ?n w3" and rc3: "has_room ?rc ?n w3"
      using w2(3) rc2 w3(3) by (simp_all add: has_bytes_def has_room_def)
    have pt4: "has_bytes ?pt ?n w4" and rc4: "has_room ?rc ?n w4"
      using has_bytes_touched [OF pt3 steps_touched [OF w4(2)]]
        has_room_touched [OF rc3 steps_touched [OF w4(2)]] .
    have io4: "io w4 = io w" using io2 w3(2) touched_io [OF steps_touched [OF w4(2)]] by simp
    have run: "create_tail L q p st w =
      (if r \<noteq> 0 then do { w \<leftarrow> ofb_tls_backend_destroy L p w4; Some (-1, NULL, w) }
       else Some (0, p, w4))"
      using True w1(1) w2(1) w3(1) w4(1) by (simp add: create_tail_def)
    show ?thesis
    proof (cases "r = 0")
      case r: True
      then obtain cb sb where
        pair: "owned w0 (tp_client pair # cb # tp_server pair # sb # ?ps) w3"
          "tp_client pair \<noteq> NULL" "tp_server pair \<noteq> NULL" "pair_ok pair cb sb w3"
        using w3(4) by auto
      have "owned w0 (tp_client pair # cb # tp_server pair # sb # ?ps) w4"
        by (rule touched_owned [OF steps_touched [OF w4(2)] pair(1)]) simp
      moreover have "pair_ok pair cb sb w4"
        using pair(4) by (simp add: pair_ok_def ssl_ok_steps [OF w4(2)])
      ultimately have "tls_at w0 p cb sb (st\<lparr>t_pair := pair\<rparr>) w4"
        using w4(3) k4 pt4 rc4 pair(2,3) assms(2,6) True
        by (simp add: tls_at_def tls_backend_ok_def tls_parts_def tls_valid_def)
      then have "tls_created w0 q p w4"
        using assms(6-8) unfolding tls_created_def by fastforce
      then show ?thesis using run r io4 by simp
    next
      case False
      then have z: "pair = zero_pair" "owned w0 ?ps w3" using w3(4) by simp_all
      have "owned w0 (tls_parts NULL NULL p (st\<lparr>t_pair := zero_pair\<rparr>)) w4"
        using touched_owned [OF steps_touched [OF w4(2)] z(2)]
        by (simp add: tls_parts_def zero_pair_def)
      moreover have "tls_blocks_ok NULL NULL (st\<lparr>t_pair := zero_pair\<rparr>) w4"
        using k4 pt4 rc4 by (simp add: tls_blocks_ok_def pair_ok_def zero_pair_def has_bytes_room)
      ultimately have "succeeds (ofb_tls_backend_destroy L p w4) (\<lambda>w'. io w' = io w4 \<and> owned w0 [] w')"
        using w4(3) z(1) by (intro tls_destroy_ok) simp_all
      then show ?thesis using run False io4 by (auto elim!: succeedsE)
    qed
  qed
qed

lemma tls_create_ok:
  assumes "tls_ok L" and "tls_valid q" and "fresh w"
  shows "succeeds (ofb_tls_backend_create L q w) (\<lambda>(r, p, w'). io w' = io w \<and>
    (if r = 0 then tls_created w q p w' else p = NULL \<and> owned w [] w'))"
proof (cases "q_message_size q > INT_MAX")
  case True
  then show ?thesis using owned_refl [OF assms(3)] by (simp add: ofb_tls_backend_create_def)
next
  case size: False
  obtain p w1 where p: "alloc (Struct zero_tls_backend) w = (p, w1)"
    by (cases "alloc (Struct zero_tls_backend :: (ofb_tls_backend, _) block) w")
  note a = owned_alloc [OF owned_refl [OF assms(3)] p]
  show ?thesis
  proof (cases "p = NULL")
    case True
    then show ?thesis using a(1,5) p size by (simp add: ofb_tls_backend_create_def)
  next
    case False
    obtain st w2 where cb: "create_tls_blocks L q w1 = (st, w2)" by (cases "create_tls_blocks L q w1")
    note c = create_tls_blocks_ok [OF a(1) a(2) [OF False] cb]
    define w3 where "w3 = replace p (Struct st) w2"
    note w3 = put_struct_steps [OF c(2), of st, folded w3_def]
    have own3: "owned w (tls_parts NULL NULL p st) w3"
      by (rule touched_owned [OF steps_touched [OF w3(2)] c(1)]) (simp add: tls_parts_def)
    note b3 = tls_blocks_steps [OF c(4) w3(2)]
    have io3: "io w3 = io w" using touched_io [OF steps_touched [OF w3(2)]] c(3) a(5) by simp
    let ?null = "t_client_ctx st = NULL \<or> t_server_ctx st = NULL \<or> t_plaintext st = NULL \<or>
      t_received st = NULL"
    let ?conf = "if ?null then Some (False, w3) else configure L q (t_client_ctx st) (t_server_ctx st) w3"
    have "succeeds ?conf (\<lambda>(ok, w'). steps {t_client_ctx st, t_server_ctx st} w3 w' \<and> (ok \<longrightarrow> \<not> ?null))"
    proof (cases ?null)
      case False
      then have "succeeds (configure L q (t_client_ctx st) (t_server_ctx st) w3)
        (\<lambda>(ok, w'). steps {t_client_ctx st, t_server_ctx st} w3 w')"
        using b3 by (intro configure_ok) (simp_all add: tls_blocks_ok_def)
      then show ?thesis using False by (auto elim!: succeeds_mono)
    qed simp
    then obtain ok w4 where w4: "?conf = Some (ok, w4)"
        "steps {t_client_ctx st, t_server_ctx st} w3 w4" "ok \<Longrightarrow> \<not> ?null"
      by (elim succeedsE) auto
    have ctx: "p \<noteq> t_client_ctx st" "p \<noteq> t_server_ctx st"
      using b3 w3(3) False by (auto simp: tls_blocks_ok_def kind_at_def)
    then have l4: "lookup p w4 = Some (Struct st)"
      using touched_lookup [OF steps_touched [OF w4(2)], of p] w3(3) by simp
    have own4: "owned w (tls_parts NULL NULL p st) w4"
      by (rule touched_owned [OF steps_touched [OF w4(2)] own3]) (simp add: tls_parts_def)
    note b4 = tls_blocks_steps [OF b3 w4(2)]
    have io4: "io w4 = io w" using io3 touched_io [OF steps_touched [OF w4(2)]] by simp
    have run: "ofb_tls_backend_create L q w = (if \<not> ok
       then do { w \<leftarrow> ofb_tls_backend_destroy L p w4; Some (-1, NULL, w) }
       else create_tail L q p st w4)"
      using size p False cb w3(1) w4(1)
      by (simp add: ofb_tls_backend_create_def del: if_split cong: if_cong)
    show ?thesis
    proof (cases ok)
      case True
      then have nn: "\<not> ?null" using w4(3) by blast
      have "succeeds (create_tail L q p st w4) (\<lambda>(r, p', w'). io w' = io w4 \<and>
        (if r = 0 then p' = p \<and> tls_created w q p w' else p' = NULL \<and> owned w [] w'))"
        using nn by (intro create_tail_ok [OF assms(1,2) own4 l4 b4 c(5-8)]) simp_all
      then show ?thesis using run True io4 by (auto elim!: succeeds_mono split: if_splits)
    next
      case False
      then show ?thesis using run tls_destroy_ok [OF own4 l4 b4, of L] io4 by (auto elim!: succeedsE)
    qed
  qed
qed

subsection \<open>Verifying and running\<close>

lemma tls_atD:
  assumes "tls_at w0 p cb sb st w"
  shows "lookup p w = Some (Struct st)" "owned w0 (tls_parts cb sb p st) w"
    "kind_at (t_client_ctx st) w = Some KCtx" "kind_at (t_server_ctx st) w = Some KCtx"
    "has_bytes (t_plaintext st) (unat (t_message_size st)) w"
    "has_room (t_received st) (unat (t_message_size st)) w"
    "pair_ok (t_pair st) cb sb w"
    "t_benchmark st = OFB_TLS_TRANSFER \<Longrightarrow> t_message_size st \<noteq> 0"
    "t_benchmark st = OFB_TLS_TRANSFER \<Longrightarrow> transfer_ok st w"
  using assms unfolding tls_at_def tls_backend_ok_def transfer_ok_def pair_ok_def ssl_ok_def
  by auto

lemma tls_at_same:
  assumes "tls_at w0 p cb sb st w" and "\<forall>q \<in> set (tls_parts cb sb p st). lookup q w' = lookup q w"
    and "owned w0 (tls_parts cb sb p st) w'"
  shows "tls_at w0 p cb sb st w'"
  using assms
  by (simp add: tls_at_def tls_backend_ok_def pair_ok_def kind_at_lookup [of _ w' w]
      ssl_ok_lookup [of _ w' w] has_bytes_def has_room_def tls_parts_def)

lemma tls_at_steps:
  assumes "tls_at w0 p cb sb st w" and "steps (transfer_set st) w w'"
  shows "tls_at w0 p cb sb st w'"
proof -
  note a = tls_atD [OF assms(1)]
  have "p \<notin> transfer_set st"
    using a(1,6,7) by (auto simp: transfer_set_def has_room_def pair_ok_def ssl_ok_def kind_at_def split: if_splits)
  then have "lookup p w' = Some (Struct st)"
    using a(1) touched_lookup [OF steps_touched [OF assms(2)], of p] by simp
  moreover have "owned w0 (tls_parts cb sb p st) w'"
    by (rule touched_owned [OF steps_touched [OF assms(2)] a(2)])
      (simp add: transfer_set_def tls_parts_def)
  ultimately show ?thesis
    using assms unfolding tls_at_def tls_backend_ok_def pair_ok_def
    by (auto simp: steps_kind ssl_ok_steps intro: has_touched dest: steps_touched)
qed

lemma one_handshake_ok:
  assumes "tls_ok L" and "tls_at w0 p cb sb st w"
  shows "succeeds (tls_pair_create L (t_client_ctx st) (t_server_ctx st) w) (\<lambda>(r, pair, w').
    if r = 0
    then (\<exists>m. tls_pair_matches L pair c w' = Some m) \<and>
      succeeds (tls_pair_destroy L pair w') (\<lambda>(pair', w''). io w'' = io w \<and> tls_at w0 p cb sb st w'')
    else io w' = io w \<and> tls_at w0 p cb sb st w')"
proof -
  note a = tls_atD [OF assms(2)]
  let ?ps = "tls_parts cb sb p st"
  from tls_pair_create_ok [OF assms(1) a(2,3,4)] obtain r pair w1 where
    w1: "tls_pair_create L (t_client_ctx st) (t_server_ctx st) w = Some (r, pair, w1)" "io w1 = io w"
      "\<forall>q \<in> set ?ps. lookup q w1 = lookup q w"
      "if r = 0 then \<exists>cb sb. owned w0 (tp_client pair # cb # tp_server pair # sb # ?ps) w1 \<and>
         tp_client pair \<noteq> NULL \<and> tp_server pair \<noteq> NULL \<and> pair_ok pair cb sb w1
       else pair = zero_pair \<and> owned w0 ?ps w1"
    by (auto elim!: succeedsE)
  show ?thesis
  proof (cases "r = 0")
    case True
    then obtain cb' sb' where
      p: "owned w0 (tp_client pair # cb' # tp_server pair # sb' # ?ps) w1"
        "tp_client pair \<noteq> NULL" "tp_server pair \<noteq> NULL" "ssl_ok (tp_client pair) cb' w1"
        "ssl_ok (tp_server pair) sb' w1"
      using w1(4) by (auto simp: pair_ok_def)
    obtain s1 s2 where "lookup (tp_client pair) w1 = Some (Obj (SslObj s1 cb'))"
      "lookup (tp_server pair) w1 = Some (Obj (SslObj s2 sb'))"
      using p(2-5) kind_sslD [of _ w1] by (simp add: ssl_ok_def) blast
    then have m: "\<exists>m. tls_pair_matches L pair c w1 = Some m"
      by (simp add: tls_pair_matches_def get_ssl_def get_obj_def)
    have "succeeds (tls_pair_destroy L pair w1) (\<lambda>(pair', w'').
      io w'' = io w \<and> tls_at w0 p cb sb st w'')"
      by (rule succeeds_mono [OF tls_pair_destroy_ok [OF p(1,4,5)]])
        (use w1(2,3) tls_at_same [OF assms(2)] in auto)
    then show ?thesis using True w1(1) m by simp
  next
    case False
    then show ?thesis using w1 tls_at_same [OF assms(2)] by simp
  qed
qed

lemma compare_ok:
  assumes "tls_at w0 p cb sb st w" and "has_bytes (t_received st) (unat (t_message_size st)) w"
  obtains bs cs where "load (t_plaintext st) 0 (unat (t_message_size st)) w = Some bs"
    "load (t_received st) 0 (unat (t_message_size st)) w = Some cs"
    "length bs = unat (t_message_size st)" "length cs = unat (t_message_size st)"
proof -
  obtain bs where bs: "load (t_plaintext st) 0 (unat (t_message_size st)) w = Some bs"
    "length bs = unat (t_message_size st)"
    using has_bytes_load [OF tls_atD(5) [OF assms(1)]] by blast
  obtain cs where "load (t_received st) 0 (unat (t_message_size st)) w = Some cs"
    "length cs = unat (t_message_size st)"
    using has_bytes_load [OF assms(2)] by blast
  then show thesis using bs that by blast
qed

lemma tls_verify_ok:
  assumes "tls_ok L" and "tls_holds w0 p w"
  shows "succeeds (ofb_tls_backend_verify L p w) (\<lambda>(r, w').
    io w' = io w \<and> tls_holds w0 p w' \<and> (r = 0 \<longrightarrow> tls_ready w0 p w'))"
proof -
  obtain cb sb st where at: "tls_at w0 p cb sb st w" using assms(2) by (auto simp: tls_holds_def)
  note a = tls_atD [OF at]
  have st: "get_struct p w = Some st" using a(1) by (simp add: get_struct_lookup)
  show ?thesis
  proof (cases "t_benchmark st")
    case OFB_TLS_HANDSHAKE
    from one_handshake_ok [OF assms(1) at, of "t_cipher st"] obtain r pair w1 where
      w1: "tls_pair_create L (t_client_ctx st) (t_server_ctx st) w = Some (r, pair, w1)"
        "if r = 0
         then (\<exists>m. tls_pair_matches L pair (t_cipher st) w1 = Some m) \<and>
           succeeds (tls_pair_destroy L pair w1)
             (\<lambda>(pair', w''). io w'' = io w \<and> tls_at w0 p cb sb st w'')
         else io w1 = io w \<and> tls_at w0 p cb sb st w1"
      by (auto elim!: succeedsE)
    have ready: "tls_holds w0 p w'' \<and> tls_ready w0 p w''" if "tls_at w0 p cb sb st w''" for w''
      using that OFB_TLS_HANDSHAKE unfolding tls_holds_def tls_ready_def by fastforce
    show ?thesis
      using st w1 OFB_TLS_HANDSHAKE ready
      by (cases "r = 0") (auto simp: ofb_tls_backend_verify_def elim!: succeedsE)
  next
    case OFB_TLS_TRANSFER
    note tr = a(9) [OF OFB_TLS_TRANSFER]
    obtain s1 s2 b1 b2 where "lookup (tp_client (t_pair st)) w = Some (Obj (SslObj s1 b1))"
      "lookup (tp_server (t_pair st)) w = Some (Obj (SslObj s2 b2))"
      using tr kind_sslD [of _ w] unfolding transfer_ok_def by blast
    then obtain m where m: "tls_pair_matches L (t_pair st) (t_cipher st) w = Some m"
      by (simp add: tls_pair_matches_def get_ssl_def get_obj_def)
    from transfer_once_ok [OF assms(1) st tr] obtain r w1 where
      w1: "transfer_once L p w = Some (r, w1)" "steps (transfer_set st) w w1"
        "r = 0 \<Longrightarrow> has_bytes (t_received st) (unat (t_message_size st)) w1"
      by (auto elim!: succeedsE)
    note at1 = tls_at_steps [OF at w1(2)]
    have io: "io w1 = io w" using touched_io [OF steps_touched [OF w1(2)]] .
    have holds: "tls_holds w0 p w1" using at1 by (auto simp: tls_holds_def)
    show ?thesis
    proof (cases "m \<and> r = 0")
      case False
      then show ?thesis
        using st OFB_TLS_TRANSFER m w1(1) io holds assms(2)
        by (auto simp: ofb_tls_backend_verify_def)
    next
      case True
      then have hb: "has_bytes (t_received st) (unat (t_message_size st)) w1" using w1(3) by simp
      obtain bs cs where "load (t_plaintext st) 0 (unat (t_message_size st)) w1 = Some bs"
        "load (t_received st) 0 (unat (t_message_size st)) w1 = Some cs"
        using compare_ok [OF at1 hb] .
      moreover have "tls_ready w0 p w1" using at1 hb by (auto simp: tls_ready_def)
      ultimately show ?thesis
        using st OFB_TLS_TRANSFER m w1(1) io holds True
        by (auto simp: ofb_tls_backend_verify_def)
    qed
  qed
qed

lemma handshake_batch_ok:
  assumes "tls_ok L" and "tls_at w0 p cb sb st w"
  shows "succeeds (handshake_batch L st n w) (\<lambda>(r, w'). io w' = io w \<and> tls_at w0 p cb sb st w')"
  using assms(2)
proof (induction n arbitrary: w)
  case (Suc n)
  from one_handshake_ok [OF assms(1) Suc.prems, of "t_cipher st"] obtain r pair w1 where
    w1: "tls_pair_create L (t_client_ctx st) (t_server_ctx st) w = Some (r, pair, w1)"
      "if r = 0
       then (\<exists>m. tls_pair_matches L pair (t_cipher st) w1 = Some m) \<and>
         succeeds (tls_pair_destroy L pair w1)
           (\<lambda>(pair', w''). io w'' = io w \<and> tls_at w0 p cb sb st w'')
       else io w1 = io w \<and> tls_at w0 p cb sb st w1"
    by (auto elim!: succeedsE)
  show ?case
  proof (cases "r = 0")
    case False
    then show ?thesis using w1 by simp
  next
    case True
    then obtain pair' w2 where "tls_pair_destroy L pair w1 = Some (pair', w2)" "io w2 = io w"
      "tls_at w0 p cb sb st w2"
      using w1(2) by (auto elim!: succeedsE)
    then show ?thesis using True w1(1) Suc.IH [of w2] by simp
  qed
qed simp

lemma transfer_batch_ok:
  assumes "tls_ok L" and "tls_at w0 p cb sb st w" and "t_benchmark st = OFB_TLS_TRANSFER"
    and "has_bytes (t_received st) (unat (t_message_size st)) w"
  shows "succeeds (transfer_batch L p n w) (\<lambda>(r, w'). io w' = io w \<and> tls_at w0 p cb sb st w' \<and>
    has_bytes (t_received st) (unat (t_message_size st)) w')"
  using assms(2,4)
proof (induction n arbitrary: w)
  case (Suc n)
  note a = tls_atD [OF Suc.prems(1)]
  have st: "get_struct p w = Some st" using a(1) by (simp add: get_struct_lookup)
  from transfer_once_ok [OF assms(1) st a(9) [OF assms(3)]] obtain r w1 where
    w1: "transfer_once L p w = Some (r, w1)" "steps (transfer_set st) w w1"
    by (auto elim!: succeedsE)
  note t = steps_touched [OF w1(2)]
  have next1: "tls_at w0 p cb sb st w1" "has_bytes (t_received st) (unat (t_message_size st)) w1"
    using tls_at_steps [OF Suc.prems(1) w1(2)] has_bytes_touched [OF Suc.prems(2) t] .
  then show ?case using w1(1) touched_io [OF t] Suc.IH [OF next1] by simp
qed simp

lemma tls_run_batch_ok:
  assumes "tls_ok L" and "tls_ready w0 p w"
  shows "succeeds (ofb_tls_backend_run_batch L p n w) (\<lambda>(r, w'). io w' = io w \<and> tls_ready w0 p w')"
proof -
  obtain cb sb st where at: "tls_at w0 p cb sb st w"
    and hb: "t_benchmark st = OFB_TLS_TRANSFER \<Longrightarrow>
      has_bytes (t_received st) (unat (t_message_size st)) w"
    using assms(2) by (auto simp: tls_ready_def)
  have st: "get_struct p w = Some st" using tls_atD(1) [OF at] by (simp add: get_struct_lookup)
  show ?thesis
  proof (cases "t_benchmark st")
    case OFB_TLS_HANDSHAKE
    then have ready: "tls_ready w0 p w'" if "tls_at w0 p cb sb st w'" for w'
      using that unfolding tls_ready_def by fastforce
    show ?thesis
      using st OFB_TLS_HANDSHAKE handshake_batch_ok [OF assms(1) at, of "unat n"] ready
      by (auto simp: ofb_tls_backend_run_batch_def elim!: succeeds_mono)
  next
    case OFB_TLS_TRANSFER
    from transfer_batch_ok [OF assms(1) at OFB_TLS_TRANSFER hb [OF OFB_TLS_TRANSFER], of "unat n"]
    obtain r w1 where w1: "transfer_batch L p (unat n) w = Some (r, w1)" "io w1 = io w"
        "tls_at w0 p cb sb st w1" "has_bytes (t_received st) (unat (t_message_size st)) w1"
      by (auto elim!: succeedsE)
    note a = tls_atD [OF w1(3)]
    let ?off = "if t_message_size st = 0 then 0 else unat (t_message_size st - 1)"
    have nz: "t_message_size st \<noteq> 0" using a(8) [OF OFB_TLS_TRANSFER] .
    then have off: "?off + 1 \<le> unat (t_message_size st)"
      using unat_minus_one [of "t_message_size st"] by (simp add: unat_gt_0)
    obtain bs cs where ld: "load (t_plaintext st) 0 (unat (t_message_size st)) w1 = Some bs"
      "load (t_received st) 0 (unat (t_message_size st)) w1 = Some cs"
      using compare_ok [OF w1(3,4)] .
    have "\<exists>xs. load (t_received st) ?off 1 w1 = Some xs \<and> length xs = 1"
      using w1(4) off by (auto simp: has_bytes_def intro: load_ok)
    then obtain xs where xs: "load (t_received st) ?off 1 w1 = Some xs" by blast
    let ?st = "st\<lparr>t_checksum := t_checksum st XOR hd xs\<rparr>"
    define w2 where "w2 = replace p (Struct ?st) w1"
    note w2 = put_struct_steps [OF a(1), of ?st, folded w2_def]
    have "owned w0 (tls_parts cb sb p ?st) w2"
      using touched_owned [OF steps_touched [OF w2(2)] a(2)] by (simp add: tls_parts_def)
    moreover have "tls_backend_ok cb sb ?st w2"
      using w1(3) unfolding tls_at_def tls_backend_ok_def pair_ok_def
      by (auto simp: steps_kind [OF w2(2)] ssl_ok_steps [OF w2(2)]
          intro: has_touched steps_touched [OF w2(2)])
    ultimately have "tls_at w0 p cb sb ?st w2" using w2(3) by (simp add: tls_at_def)
    moreover have "has_bytes (t_received ?st) (unat (t_message_size ?st)) w2"
      using has_bytes_touched [OF w1(4) steps_touched [OF w2(2)]] by simp
    ultimately have ready: "tls_ready w0 p w2" unfolding tls_ready_def by blast
    have "tls_ready w0 p w1" using w1(3,4) by (auto simp: tls_ready_def)
    then show ?thesis
      using st OFB_TLS_TRANSFER w1(1,2) ld xs w2(1) ready touched_io [OF steps_touched [OF w2(2)]]
      by (auto simp: ofb_tls_backend_run_batch_def)
  qed
qed

subsection \<open>The contract\<close>

lemma tls_io_updates [simp]:
  "tls_at w0 p cb sb st (w\<lparr>w_reads := k\<rparr>) = tls_at w0 p cb sb st w"
  "tls_at w0 p cb sb st (w\<lparr>w_out := s\<rparr>) = tls_at w0 p cb sb st w"
  "tls_at w0 p cb sb st (w\<lparr>w_err := s\<rparr>) = tls_at w0 p cb sb st w"
  by (simp_all add: tls_at_def tls_backend_ok_def pair_ok_def ssl_ok_def kind_at_def has_bytes_def
      has_room_def)

lemma has_bytes_io [simp]:
  "has_bytes q n (w\<lparr>w_reads := k\<rparr>) = has_bytes q n w"
  "has_bytes q n (w\<lparr>w_out := s\<rparr>) = has_bytes q n w"
  by (simp_all add: has_bytes_def)

lemma tls_destroy_holds:
  "tls_holds w0 p w \<Longrightarrow> succeeds (ofb_tls_backend_destroy L p w) (\<lambda>w'. io w' = io w \<and> owned w0 [] w')"
  unfolding tls_holds_def by (blast intro: tls_blocks_destroy)

interpretation tls: bench_backend "tls_ops name L" tls_holds tls_ready tls_valid "tls_ok L"
  for name :: string and L :: "('c, 's, 'b, 'l) tls_lib"
proof
  fix q and w :: "('c, 's, 'b, 'l) tls_world"
  assume "tls_ok L" "tls_valid q" "fresh w"
  from tls_create_ok [OF this] show "succeeds (op_create (tls_ops name L) q w) (\<lambda>(r, p, w').
    io w' = io w \<and> (if r = 0 then tls_holds w p w' else p = NULL \<and> owned w [] w'))"
    by (auto simp: tls_ops_def tls_created_holds elim!: succeeds_mono split: if_splits)
next
  fix w0 p and w :: "('c, 's, 'b, 'l) tls_world"
  assume "tls_ok L" "tls_holds w0 p w"
  from tls_verify_ok [OF this] show "succeeds (op_verify (tls_ops name L) p w) (\<lambda>(r, w').
    io w' = io w \<and> tls_holds w0 p w' \<and> (r = 0 \<longrightarrow> tls_ready w0 p w'))"
    by (simp add: tls_ops_def)
next
  fix w0 p n and w :: "('c, 's, 'b, 'l) tls_world"
  assume "tls_ok L" "tls_ready w0 p w"
  from tls_run_batch_ok [OF this] show "succeeds (op_run_batch (tls_ops name L) p n w) (\<lambda>(r, w').
    io w' = io w \<and> tls_ready w0 p w')"
    by (simp add: tls_ops_def)
next
  fix w0 p and w :: "('c, 's, 'b, 'l) tls_world"
  assume "tls_holds w0 p w"
  from tls_destroy_holds [OF this] show "succeeds (op_destroy (tls_ops name L) p w) (\<lambda>w'.
    io w' = io w \<and> owned w0 [] w')"
    by (simp add: tls_ops_def)
qed (auto simp: tls_ops_def tls_holds_def tls_ready_def ofb_tls_backend_destroy_def)

end
