(* ===== verification/Tls_Handshake.thy ===== *)
theory Tls_Handshake
  imports Tls_Frame
begin

text \<open>
  Connecting two ends as a function of the library's states alone. \<open>negotiate\<close> runs the
  handshake of the two ends without the heap, and \<open>establish\<close> all of \<^verbatim>\<open>tls_pair_create\<close>; the
  definitions of \<open>Tls_Backend\<close> on the heap refine them, the abstraction being \<open>ends_are\<close>. From
  it: a pair is connected if the two ends make progress.
\<close>

subsection \<open>The abstract handshake\<close>

text \<open>One attempt of one end: \<open>None\<close> is an error other than waiting for the peer.\<close>

definition end_step ::
  "('c, 's, 'b, 'l) tls_lib \<Rightarrow> bool \<Rightarrow> 's \<Rightarrow> 'l \<Rightarrow> (bool \<times> 's \<times> 'l) option" where
  "end_step L finished s l =
     (if finished then Some (True, s, l)
      else let (r, s, l) = ssl_do_handshake L s l
        in if r = 1 then Some (True, s, l)
           else let (e, s, l) = ssl_get_error L r s l
             in if e = SSL_ERROR_WANT_READ \<or> e = SSL_ERROR_WANT_WRITE then Some (False, s, l) else None)"

text \<open>The two ends in turn: the client first.\<close>

definition round_step ::
  "('c, 's, 'b, 'l) tls_lib \<Rightarrow> bool \<times> 's \<times> bool \<times> 's \<times> 'l \<Rightarrow> (bool \<times> 's \<times> bool \<times> 's \<times> 'l) option" where
  "round_step L = (\<lambda>(cf, c, sf, s, l). do {
     (cf, c, l) \<leftarrow> end_step L cf c l;
     (sf, s, l) \<leftarrow> end_step L sf s l;
     Some (cf, c, sf, s, l)
   })"

fun connected :: "bool \<times> 's \<times> bool \<times> 's \<times> 'l \<Rightarrow> bool" where
  "connected (cf, c, sf, s, l) = (cf \<and> sf)"

fun negotiate ::
  "('c, 's, 'b, 'l) tls_lib \<Rightarrow> nat \<Rightarrow> bool \<times> 's \<times> bool \<times> 's \<times> 'l \<Rightarrow>
   (bool \<times> 's \<times> bool \<times> 's \<times> 'l) option" where
  "negotiate L 0 x = None"
| "negotiate L (Suc k) x = do {
     x \<leftarrow> round_step L x;
     if connected x then Some x else negotiate L k x
   }"

subsection \<open>The loop refines it\<close>

text \<open>The abstraction of a world with two connections.\<close>

definition ends_are ::
  "tls_pair \<Rightarrow> ptr \<Rightarrow> ptr \<Rightarrow> 's \<Rightarrow> 's \<Rightarrow> 'l \<Rightarrow> ('c, 's, 'b, 'l) tls_world \<Rightarrow> bool" where
  "ends_are pair cb sb c s l w \<longleftrightarrow> tp_client pair \<noteq> tp_server pair \<and>
     lookup (tp_client pair) w = Some (Obj (SslObj c cb)) \<and>
     lookup (tp_server pair) w = Some (Obj (SslObj s sb)) \<and> w_lib w = l"

lemma on_ssl_run:
  assumes "lookup p w = Some (Obj (SslObj s bio))" and "f s (w_lib w) = (r, s', l')"
  shows "\<exists>w'. on_ssl p f w = Some (r, w') \<and> lookup p w' = Some (Obj (SslObj s' bio)) \<and>
    w_lib w' = l' \<and> (\<forall>q. q \<noteq> p \<longrightarrow> lookup q w' = lookup q w)"
proof -
  have "p \<noteq> NULL" using assms(1) by auto
  then show ?thesis using assms by (auto simp: on_ssl_def get_obj_def)
qed

lemma handshake_step_run:
  assumes "lookup p w = Some (Obj (SslObj s bio))"
  shows "\<exists>r finished' w'. handshake_step L p finished w = Some (r, finished', w') \<and>
    (case end_step L finished s (w_lib w) of
       None \<Rightarrow> r \<noteq> 0
     | Some (finished'', s', l') \<Rightarrow> r = 0 \<and> finished' = finished'' \<and>
         lookup p w' = Some (Obj (SslObj s' bio)) \<and> w_lib w' = l' \<and>
         (\<forall>q. q \<noteq> p \<longrightarrow> lookup q w' = lookup q w))"
proof (cases finished)
  case False
  obtain r s1 l1 where h: "ssl_do_handshake L s (w_lib w) = (r, s1, l1)" by (metis prod.exhaust)
  obtain e s2 l2 where e: "ssl_get_error L r s1 l1 = (e, s2, l2)" by (metis prod.exhaust)
  from on_ssl_run [OF assms, of "ssl_do_handshake L", OF h] obtain w1 where
    w1: "on_ssl p (ssl_do_handshake L) w = Some (r, w1)" "lookup p w1 = Some (Obj (SslObj s1 bio))"
      "w_lib w1 = l1" "\<forall>q. q \<noteq> p \<longrightarrow> lookup q w1 = lookup q w" by blast
  from on_ssl_run [OF w1(2), of "ssl_get_error L r" e s2 l2] e w1(3) obtain w2 where
    w2: "on_ssl p (ssl_get_error L r) w1 = Some (e, w2)" "lookup p w2 = Some (Obj (SslObj s2 bio))"
      "w_lib w2 = l2" "\<forall>q. q \<noteq> p \<longrightarrow> lookup q w2 = lookup q w1" by auto
  show ?thesis
    using False h e w1 w2 by (auto simp: handshake_step_def end_step_def)
qed (auto simp: handshake_step_def end_step_def assms)

lemma handshake_loop_refines:
  assumes "ends_are pair cb sb c s l w"
  shows "\<exists>r w'. handshake_loop L pair k cf sf w = Some (r, w') \<and>
    (case negotiate L k (cf, c, sf, s, l) of
       None \<Rightarrow> r \<noteq> 0
     | Some (cf', c', sf', s', l') \<Rightarrow> r = 0 \<and> ends_are pair cb sb c' s' l' w')"
  using assms
proof (induction k arbitrary: cf c sf s l w)
  case (Suc k)
  let ?c = "tp_client pair" and ?s = "tp_server pair"
  have ends: "?c \<noteq> ?s" "lookup ?c w = Some (Obj (SslObj c cb))" "lookup ?s w = Some (Obj (SslObj s sb))"
    "w_lib w = l" using Suc.prems by (simp_all add: ends_are_def)
  from handshake_step_run [OF ends(2), of L cf] obtain r1 f1 w1 where
    c: "handshake_step L ?c cf w = Some (r1, f1, w1)"
      "case end_step L cf c l of None \<Rightarrow> r1 \<noteq> 0
       | Some (f', c', l') \<Rightarrow> r1 = 0 \<and> f1 = f' \<and> lookup ?c w1 = Some (Obj (SslObj c' cb)) \<and>
           w_lib w1 = l' \<and> (\<forall>q. q \<noteq> ?c \<longrightarrow> lookup q w1 = lookup q w)"
    unfolding ends(4) by blast
  show ?case
  proof (cases "end_step L cf c l")
    case None
    then show ?thesis using c by (simp add: round_step_def)
  next
    case (Some x)
    then obtain c1 l1 where e1: "end_step L cf c l = Some (f1, c1, l1)" and r1: "r1 = 0"
      and l1: "lookup ?c w1 = Some (Obj (SslObj c1 cb))" "w_lib w1 = l1"
        "\<forall>q. q \<noteq> ?c \<longrightarrow> lookup q w1 = lookup q w"
      using c(2) by (cases x) auto
    have s1: "lookup ?s w1 = Some (Obj (SslObj s sb))" using l1(3) ends(1,3) by simp
    from handshake_step_run [OF s1, of L sf] obtain r2 f2 w2 where
      s: "handshake_step L ?s sf w1 = Some (r2, f2, w2)"
        "case end_step L sf s l1 of None \<Rightarrow> r2 \<noteq> 0
         | Some (f', s', l') \<Rightarrow> r2 = 0 \<and> f2 = f' \<and> lookup ?s w2 = Some (Obj (SslObj s' sb)) \<and>
             w_lib w2 = l' \<and> (\<forall>q. q \<noteq> ?s \<longrightarrow> lookup q w2 = lookup q w1)"
      unfolding l1(2) by blast
    show ?thesis
    proof (cases "end_step L sf s l1")
      case None
      then show ?thesis using c(1) r1 s e1 by (simp add: round_step_def)
    next
      case (Some y)
      then obtain s2 l2 where e2: "end_step L sf s l1 = Some (f2, s2, l2)" and r2: "r2 = 0"
        and l2: "lookup ?s w2 = Some (Obj (SslObj s2 sb))" "w_lib w2 = l2"
          "\<forall>q. q \<noteq> ?s \<longrightarrow> lookup q w2 = lookup q w1"
        using s(2) by (cases y) auto
      have ends2: "ends_are pair cb sb c1 s2 l2 w2"
        using l1 l2 ends(1) by (simp add: ends_are_def)
      then show ?thesis
        using c(1) r1 s(1) r2 e1 e2 Suc.IH [OF ends2, of f1 f2] by (simp add: round_step_def)
    qed
  qed
qed simp

text \<open>It ends in the first round after which both are finished.\<close>

lemma negotiate_connected: "negotiate L k x = Some y \<Longrightarrow> connected y"
  by (induction k arbitrary: x) (auto split: bind_splits if_splits)

text \<open>The relation of the rounds in the world says the same of the number of rounds.\<close>

lemma handshake_loop_connects:
  "handshake_loop L pair k cf sf w = Some (0, w') \<longleftrightarrow>
    (\<exists>n \<le> k. connects L pair n (cf, sf, w) w')"
  using loop_connects connects_loop [of L pair _ "(cf, sf, w)"] by auto

subsection \<open>A connection from nothing\<close>

text \<open>The calls that give both ends their BIO and their role.\<close>

definition attach ::
  "('c, 's, 'b, 'l) tls_lib \<Rightarrow> 's \<Rightarrow> 's \<Rightarrow> 'b \<Rightarrow> 'b \<Rightarrow> 'l \<Rightarrow> 's \<times> 's \<times> 'l" where
  "attach L c s p q l =
     (let (c, l) = ssl_set_bio L p c l; (s, l) = ssl_set_bio L q s l;
          (_, c, l) = ssl_set_connect_state L c l; (_, s, l) = ssl_set_accept_state L s l
      in (c, s, l))"

text \<open>Two connections from the contexts \<open>a\<close> and \<open>b\<close>, before the handshake.\<close>

definition start_ends ::
  "('c, 's, 'b, 'l) tls_lib \<Rightarrow> 'c \<Rightarrow> 'c \<Rightarrow> 'l \<Rightarrow> ('s \<times> 's \<times> 'l) option" where
  "start_ends L a b l =
     (let (x, l) = ssl_new L a l; (y, l) = ssl_new L b l
      in case (x, y) of
           (Some c, Some s) \<Rightarrow>
             (case bio_new_pair L l of
                (r, Some p, Some q, l) \<Rightarrow> if r = 1 then Some (attach L c s p q l) else None
              | _ \<Rightarrow> None)
         | _ \<Rightarrow> None)"

definition establish ::
  "('c, 's, 'b, 'l) tls_lib \<Rightarrow> 'c \<Rightarrow> 'c \<Rightarrow> 'l \<Rightarrow> (bool \<times> 's \<times> bool \<times> 's \<times> 'l) option" where
  "establish L a b l = do {
     (c, s, l) \<leftarrow> start_ends L a b l;
     negotiate L 10000 (False, c, False, s, l)
   }"

lemma new_obj_run:
  assumes "fresh w" and "new_obj (Some v) w = (p, w')"
  shows "p \<noteq> NULL" "lookup p w = None" "lookup p w' = Some (Obj v)" "fresh w'" "w_lib w' = w_lib w"
    "\<And>q. q \<noteq> p \<Longrightarrow> lookup q w' = lookup q w"
  using assms by (auto simp: new_obj_def place_def fresh_def lookup_def Let_def
      split: ptr.split if_splits)

lemma SSL_set_bio_run:
  assumes "lookup p w = Some (Obj (SslObj s NULL))" and "lookup bio w = Some (Obj (BioObj b))"
    and "ssl_set_bio L b s (w_lib w) = (s', l')"
  shows "\<exists>w'. SSL_set_bio L p bio w = Some w' \<and> lookup p w' = Some (Obj (SslObj s' bio)) \<and>
    w_lib w' = l' \<and> (\<forall>q. q \<noteq> p \<longrightarrow> lookup q w' = lookup q w)"
proof -
  have "p \<noteq> NULL" using assms(1) by auto
  then show ?thesis using assms by (auto simp: SSL_set_bio_def get_obj_def)
qed

lemma connect_pair_run:
  assumes "lookup (tp_client pair) w = Some (Obj (SslObj c NULL))"
    and "lookup (tp_server pair) w = Some (Obj (SslObj s NULL))"
    and "lookup cb w = Some (Obj (BioObj p))" and "lookup sb w = Some (Obj (BioObj q))"
    and "tp_client pair \<noteq> tp_server pair" and "attach L c s p q (w_lib w) = (c', s', l')"
  shows "\<exists>w'. connect_pair L pair cb sb w = handshake_loop L pair 10000 False False w' \<and>
    ends_are pair cb sb c' s' l' w'"
proof -
  let ?c = "tp_client pair" and ?s = "tp_server pair"
  obtain c1 l1 where 1: "ssl_set_bio L p c (w_lib w) = (c1, l1)" by (metis prod.exhaust)
  obtain s2 l2 where 2: "ssl_set_bio L q s l1 = (s2, l2)" by (metis prod.exhaust)
  obtain u3 c3 l3 where 3: "ssl_set_connect_state L c1 l2 = (u3, c3, l3)" by (metis prod.exhaust)
  obtain u4 s4 l4 where 4: "ssl_set_accept_state L s2 l3 = (u4, s4, l4)" by (metis prod.exhaust)
  have eq: "c' = c3" "s' = s4" "l' = l4" using assms(6) by (simp_all add: attach_def 1 2 3 4)
  have ne: "sb \<noteq> ?c" using assms(1,4) by auto
  from SSL_set_bio_run [OF assms(1,3) 1] obtain w1 where
    w1: "SSL_set_bio L ?c cb w = Some w1" "lookup ?c w1 = Some (Obj (SslObj c1 cb))" "w_lib w1 = l1"
      "\<forall>r. r \<noteq> ?c \<longrightarrow> lookup r w1 = lookup r w" by blast
  have "lookup ?s w1 = Some (Obj (SslObj s NULL))" "lookup sb w1 = Some (Obj (BioObj q))"
    using w1(4) assms(2,4,5) ne by simp_all
  from SSL_set_bio_run [OF this, of L s2 l2] 2 w1(3) obtain w2 where
    w2: "SSL_set_bio L ?s sb w1 = Some w2" "lookup ?s w2 = Some (Obj (SslObj s2 sb))" "w_lib w2 = l2"
      "\<forall>r. r \<noteq> ?s \<longrightarrow> lookup r w2 = lookup r w1" by auto
  have "lookup ?c w2 = Some (Obj (SslObj c1 cb))" using w1(2) w2(4) assms(5) by simp
  from on_ssl_run [OF this, of "ssl_set_connect_state L"] 3 w2(3) obtain w3 where
    w3: "on_ssl ?c (ssl_set_connect_state L) w2 = Some (u3, w3)"
      "lookup ?c w3 = Some (Obj (SslObj c3 cb))" "w_lib w3 = l3"
      "\<forall>r. r \<noteq> ?c \<longrightarrow> lookup r w3 = lookup r w2" by fastforce
  have "lookup ?s w3 = Some (Obj (SslObj s2 sb))" using w2(2) w3(4) assms(5) by simp
  from on_ssl_run [OF this, of "ssl_set_accept_state L"] 4 w3(3) obtain w4 where
    w4: "on_ssl ?s (ssl_set_accept_state L) w3 = Some (u4, w4)"
      "lookup ?s w4 = Some (Obj (SslObj s4 sb))" "w_lib w4 = l4"
      "\<forall>r. r \<noteq> ?s \<longrightarrow> lookup r w4 = lookup r w3" by fastforce
  have "ends_are pair cb sb c' s' l' w4"
    using w4 w3(2) assms(5) by (simp add: ends_are_def eq)
  then show ?thesis by (auto simp: connect_pair_def w1(1) w2(1) w3(1) w4(1))
qed

lemma finish_pair_run:
  assumes "connect_pair L pair cb sb w = handshake_loop L pair 10000 False False w1"
    and "ends_are pair cb sb c s l w1" and "finish_pair L pair cb sb w = Some (r, pair', w')"
  shows "r = 0 \<longleftrightarrow> negotiate L 10000 (False, c, False, s, l) \<noteq> None"
    and "negotiate L 10000 (False, c, False, s, l) = Some (cf', c', sf', s', l') \<Longrightarrow>
      pair' = pair \<and> ends_are pair cb sb c' s' l' w'"
proof -
  from handshake_loop_refines [OF assms(2), of L 10000 False False] obtain r1 w2 where
    h: "connect_pair L pair cb sb w = Some (r1, w2)"
      "case negotiate L 10000 (False, c, False, s, l) of None \<Rightarrow> r1 \<noteq> 0
       | Some (cf', c', sf', s', l') \<Rightarrow> r1 = 0 \<and> ends_are pair cb sb c' s' l' w2"
    unfolding assms(1) by blast
  have r: "if r1 = 0 then r = 0 \<and> pair' = pair \<and> w' = w2 else r = -1"
    using assms(3) h(1) by (auto simp: finish_pair_def split: bind_splits if_splits)
  show "r = 0 \<longleftrightarrow> negotiate L 10000 (False, c, False, s, l) \<noteq> None"
    using h(2) r by (cases "negotiate L 10000 (False, c, False, s, l)") (auto split: if_splits)
  show "pair' = pair \<and> ends_are pair cb sb c' s' l' w'"
    if "negotiate L 10000 (False, c, False, s, l) = Some (cf', c', sf', s', l')"
    using h(2) r that by simp
qed

text \<open>The library may also return nothing.\<close>

lemma new_obj_option:
  assumes "fresh w" and "new_obj x w = (p, w')"
  shows "fresh w'" "w_lib w' = w_lib w" "p = NULL \<longleftrightarrow> x = None" "lookup p w = None"
    "\<And>q. q \<noteq> p \<Longrightarrow> lookup q w' = lookup q w" "\<And>v. x = Some v \<Longrightarrow> lookup p w' = Some (Obj v)"
proof -
  have none: "p = NULL \<and> w' = w" if "x = None" using assms(2) that by (simp add: new_obj_def)
  have some: "new_obj (Some v) w = (p, w')" if "x = Some v" for v using assms(2) that by simp
  note k = new_obj_run [OF assms(1) some]
  show "fresh w'" "w_lib w' = w_lib w" "p = NULL \<longleftrightarrow> x = None" "lookup p w = None"
    using none k(1,2,4,5) assms(1) by (cases x; simp)+
  show "lookup q w' = lookup q w" if "q \<noteq> p" for q using none k(6) that by (cases x) simp_all
  show "lookup p w' = Some (Obj v)" if "x = Some v" for v using k(3) that by simp
qed

lemma SSL_new_run:
  assumes "lookup ctx w = Some (Obj (CtxObj a))" and "ssl_new L a (w_lib w) = (x, l)"
  shows "SSL_new L ctx w = Some (new_obj (map_option (\<lambda>s. SslObj s NULL) x) (w\<lparr>w_lib := l\<rparr>))"
  using assms by (simp add: SSL_new_def get_obj_def)

lemma two_connections:
  assumes "fresh w" and "lookup cctx w = Some (Obj (CtxObj a))"
    and "lookup sctx w = Some (Obj (CtxObj b))"
    and "ssl_new L a (w_lib w) = (x, l1)" and "ssl_new L b l1 = (y, l2)"
  obtains c s w1 w2 where "SSL_new L cctx w = Some (c, w1)" "SSL_new L sctx w1 = Some (s, w2)"
    "w_lib w2 = l2" "fresh w2" "c = NULL \<longleftrightarrow> x = None" "s = NULL \<longleftrightarrow> y = None"
    "\<And>u v. x = Some u \<Longrightarrow> y = Some v \<Longrightarrow> c \<noteq> s \<and> lookup c w2 = Some (Obj (SslObj u NULL)) \<and>
       lookup s w2 = Some (Obj (SslObj v NULL))"
proof -
  obtain c w1 where c: "new_obj (map_option (\<lambda>s. SslObj s NULL) x) (w\<lparr>w_lib := l1\<rparr>) = (c, w1)"
    by (metis prod.exhaust)
  obtain s w2 where s: "new_obj (map_option (\<lambda>s. SslObj s NULL) y) (w1\<lparr>w_lib := l2\<rparr>) = (s, w2)"
    by (metis prod.exhaust)
  have f: "fresh (w\<lparr>w_lib := l1\<rparr>)" using assms(1) by (simp add: fresh_def)
  note w1 = new_obj_option [OF f c]
  have f1: "fresh (w1\<lparr>w_lib := l2\<rparr>)" using w1(1) by (simp add: fresh_def)
  note w2 = new_obj_option [OF f1 s]
  have "sctx \<noteq> c" using assms(3) w1(4) by auto
  then have "lookup sctx w1 = Some (Obj (CtxObj b))" using w1(5) [of sctx] assms(3) by simp
  from SSL_new_run [OF this, of L y l2] assms(5) w1(2) s have new2: "SSL_new L sctx w1 = Some (s, w2)"
    by simp
  have new1: "SSL_new L cctx w = Some (c, w1)" using SSL_new_run [OF assms(2,4)] c by simp
  show thesis
  proof (rule that [OF new1 new2])
    show "w_lib w2 = l2" "fresh w2" "c = NULL \<longleftrightarrow> x = None" "s = NULL \<longleftrightarrow> y = None"
      using w1(3) w2(1-3) by simp_all
    fix u v assume "x = Some u" "y = Some v"
    then have k: "lookup c w1 = Some (Obj (SslObj u NULL))" "lookup s w2 = Some (Obj (SslObj v NULL))"
      using w1(6) w2(6) by simp_all
    then have "c \<noteq> s" using w2(4) by auto
    then show "c \<noteq> s \<and> lookup c w2 = Some (Obj (SslObj u NULL)) \<and> lookup s w2 = Some (Obj (SslObj v NULL))"
      using k w2(5) [of c] by simp
  qed
qed

lemma two_bios:
  assumes "tls_ok L" and "fresh w" and "bio_new_pair L (w_lib w) = (r, x, y, l)" and "r = 1"
  obtains cb sb w' p q where "BIO_new_bio_pair L w = (1, cb, sb, w')" "x = Some p" "y = Some q"
    "lookup cb w' = Some (Obj (BioObj p))" "lookup sb w' = Some (Obj (BioObj q))" "w_lib w' = l"
    "\<And>z. lookup z w \<noteq> None \<Longrightarrow> lookup z w' = lookup z w"
proof -
  obtain p q where xy: "x = Some p" "y = Some q"
    using assms(1,3,4) unfolding tls_ok_def by (metis (full_types) option.exhaust)
  obtain cb w1 where c: "new_obj (Some (BioObj p)) (w\<lparr>w_lib := l\<rparr>) = (cb, w1)" by (metis prod.exhaust)
  obtain sb w2 where s: "new_obj (Some (BioObj q)) w1 = (sb, w2)" by (metis prod.exhaust)
  have "fresh (w\<lparr>w_lib := l\<rparr>)" using assms(2) by (simp add: fresh_def)
  note k1 = new_obj_run [OF this c]
  note k2 = new_obj_run [OF k1(4) s]
  have "BIO_new_bio_pair L w = (1, cb, sb, w2)"
    using assms(3,4) c s by (simp add: BIO_new_bio_pair_def xy)
  then show thesis
  proof (rule that [OF _ xy _ k2(3)])
    have "cb \<noteq> sb" using k1(3) k2(2) by auto
    then show "lookup cb w2 = Some (Obj (BioObj p))" using k1(3) k2(6) [of cb] by simp
    show "w_lib w2 = l" using k1(5) k2(5) by simp
    fix z assume z: "lookup z w \<noteq> None"
    then have "z \<noteq> cb" using k1(2) by auto
    then have "lookup z w1 = lookup z w" using k1(6) [of z] by simp
    moreover then have "z \<noteq> sb" using z k2(2) by auto
    ultimately show "lookup z w2 = lookup z w" using k2(6) [of z] by simp
  qed
qed

lemma pair_create_refines:
  assumes "tls_ok L" and "fresh w" and "lookup cctx w = Some (Obj (CtxObj a))"
    and "lookup sctx w = Some (Obj (CtxObj b))"
  shows "\<exists>r pair w'. tls_pair_create L cctx sctx w = Some (r, pair, w') \<and>
    (case establish L a b (w_lib w) of
       None \<Rightarrow> r \<noteq> 0
     | Some (cf, c, sf, s, l) \<Rightarrow> r = 0 \<and> (\<exists>cb sb. ends_are pair cb sb c s l w'))"
proof -
  have "kind_at cctx w = Some KCtx" "kind_at sctx w = Some KCtx"
    using assms(3,4) by (simp_all add: kind_at_def)
  from tls_pair_create_ok [OF assms(1) owned_refl [OF assms(2)] this] obtain r pair w' where
    run: "tls_pair_create L cctx sctx w = Some (r, pair, w')" by (auto elim!: succeedsE)
  obtain x l1 where x: "ssl_new L a (w_lib w) = (x, l1)" by (metis prod.exhaust)
  obtain y l2 where y: "ssl_new L b l1 = (y, l2)" by (metis prod.exhaust)
  obtain c s w1 w2 where new: "SSL_new L cctx w = Some (c, w1)" "SSL_new L sctx w1 = Some (s, w2)"
    "w_lib w2 = l2" "fresh w2" "c = NULL \<longleftrightarrow> x = None" "s = NULL \<longleftrightarrow> y = None"
    "\<And>u v. x = Some u \<Longrightarrow> y = Some v \<Longrightarrow> c \<noteq> s \<and> lookup c w2 = Some (Obj (SslObj u NULL)) \<and>
       lookup s w2 = Some (Obj (SslObj v NULL))"
    by (rule two_connections [OF assms(2-4) x y]) blast
  let ?pair = "\<lparr>tp_client = c, tp_server = s\<rparr>"
  obtain br p q l3 where bio: "bio_new_pair L l2 = (br, p, q, l3)" by (metis prod.exhaust)
  show ?thesis
  proof (cases "x \<noteq> None \<and> y \<noteq> None \<and> br = 1")
    case False
    have "start_ends L a b (w_lib w) = None"
      using False by (auto simp: start_ends_def x y bio split: option.split)
    moreover have "fst (BIO_new_bio_pair L w2) = br"
      by (simp add: BIO_new_bio_pair_def new(3) bio split: prod.split)
    then have "r = -1"
      using False run new(1,2,5,6)
      by (auto simp: tls_pair_create_def Let_def split: prod.splits bind_splits if_splits)
    ultimately show ?thesis using run by (simp add: establish_def)
  next
    case True
    then obtain u v where uv: "x = Some u" "y = Some v" by blast
    note k = new(7) [OF uv]
    have "bio_new_pair L (w_lib w2) = (br, p, q, l3)" using bio new(3) by simp
    from two_bios [OF assms(1) new(4) this conjunct2 [OF conjunct2 [OF True]]] obtain cb sb w3 p' q' where
      b: "BIO_new_bio_pair L w2 = (1, cb, sb, w3)" "p = Some p'" "q = Some q'"
        "lookup cb w3 = Some (Obj (BioObj p'))" "lookup sb w3 = Some (Obj (BioObj q'))" "w_lib w3 = l3"
        "\<And>z. lookup z w2 \<noteq> None \<Longrightarrow> lookup z w3 = lookup z w2" by blast
    have k3: "lookup c w3 = Some (Obj (SslObj u NULL))" "lookup s w3 = Some (Obj (SslObj v NULL))"
      using b(7) k by simp_all
    obtain c' s' l' where att: "attach L u v p' q' l3 = (c', s', l')" by (metis prod.exhaust)
    from connect_pair_run [of ?pair w3 u v cb p' sb q' L c' s' l'] k k3 b(4-6) att obtain w4 where
      w4: "connect_pair L ?pair cb sb w3 = handshake_loop L ?pair 10000 False False w4"
        "ends_are ?pair cb sb c' s' l' w4" by auto
    have "finish_pair L ?pair cb sb w3 = Some (r, pair, w')"
      using run new(1,2,5,6) b(1) uv by (simp add: tls_pair_create_def)
    note f = finish_pair_run [OF w4 this]
    have "start_ends L a b (w_lib w) = Some (c', s', l')"
      using True by (simp add: start_ends_def x y bio uv b(2,3) att)
    then have e: "establish L a b (w_lib w) = negotiate L 10000 (False, c', False, s', l')"
      by (simp add: establish_def)
    show ?thesis
    proof (cases "negotiate L 10000 (False, c', False, s', l')")
      case None
      then show ?thesis using run f(1) e by simp
    next
      case (Some z)
      obtain cf c2 sf s2 l2 where z: "z = (cf, c2, sf, s2, l2)" by (cases z)
      have "r = 0" using f(1) Some by simp
      moreover have "ends_are pair cb sb c2 s2 l2 w'" using f(2) [OF Some [unfolded z]] by simp
      ultimately show ?thesis unfolding e Some z using run by auto
    qed
  qed
qed

subsection \<open>Progress\<close>

lemma negotiate_progress:
  assumes "good x" and "rank x < k"
    and "\<And>x. good x \<Longrightarrow> \<exists>y. round_step L x = Some y \<and> (connected y \<or> good y \<and> rank y < (rank x :: nat))"
  shows "negotiate L k x \<noteq> None"
  using assms(1,2)
proof (induction k arbitrary: x)
  case (Suc k)
  from assms(3) [OF Suc.prems(1)] obtain y where
    y: "round_step L x = Some y" "connected y \<or> good y \<and> rank y < rank x" by blast
  show ?case
  proof (cases "connected y")
    case False
    then have "negotiate L k y \<noteq> None" using y(2) Suc.prems(2) by (intro Suc.IH) auto
    then show ?thesis using y(1) False by simp
  qed (use y in simp)
qed simp

end
