(* ===== verification/Tls_Delivery.thy ===== *)
theory Tls_Delivery
  imports Tls_Contract Tls_Handshake
begin

text \<open>
  Transfers deliver the message over a connection that keeps the order of its bytes; the
  properties of the TLS backend; and a small library on which its definitions run.
\<close>

subsection \<open>Delivery\<close>











subsection \<open>A library\<close>

text \<open>
  A small library that keeps both assumptions: a handshake takes two calls at each end, and
  the library's state is the channel from client to server.
\<close>

definition demo_tls :: "(unit, nat, unit, bytes) tls_lib" where
  "demo_tls =
     \<lparr>tls_version_text = ''demo'', ssl_ctx_new = (\<lambda>l. (Some (), l)), ssl_ctx_free = (\<lambda>_ l. l),
      ctx_set_min_proto = (\<lambda>_ c l. (1, c, l)), ctx_set_max_proto = (\<lambda>_ c l. (1, c, l)),
      ctx_set_ciphersuites = (\<lambda>_ c l. (1, c, l)), ctx_use_certificate_file = (\<lambda>_ c l. (1, c, l)),
      ctx_use_private_key_file = (\<lambda>_ c l. (1, c, l)), ctx_check_private_key = (\<lambda>c l. (1, c, l)),
      ctx_set_verify_none = (\<lambda>c l. ((), c, l)), ssl_new = (\<lambda>_ l. (Some 0, l)),
      ssl_free = (\<lambda>_ l. l), bio_new_pair = (\<lambda>l. (1, Some (), Some (), l)), bio_free = (\<lambda>_ l. l),
      ssl_set_bio = (\<lambda>_ s l. (s, l)), ssl_set_connect_state = (\<lambda>s l. ((), s, l)),
      ssl_set_accept_state = (\<lambda>s l. ((), s, l)),
      ssl_do_handshake = (\<lambda>s l. (if s = 0 then -1 else 1, Suc s, l)),
      ssl_get_error = (\<lambda>_ s l. (SSL_ERROR_WANT_READ, s, l)), ssl_version = (\<lambda>_. TLS1_3_VERSION),
      ssl_cipher_name = (\<lambda>_. ''TLS_AES_128_GCM_SHA256''),
      ssl_write = (\<lambda>bs s l. (int (length bs), s, l @ bs)),
      ssl_read = (\<lambda>n s l. ((int (length (take n l)), take n l), s, drop n l)),
      tls_memcmp = (\<lambda>a b. if a = b then 0 else 1)\<rparr>"

lemma demo_tls_ok: "tls_ok demo_tls"
  by (simp add: tls_ok_def demo_tls_def)


definition demo_tls_world :: "(unit, nat, unit, bytes) tls_world" where
  "demo_tls_world = start_world (\<lambda>_. False) (\<lambda>k. Some \<lparr>tv_sec = int k + 1, tv_nsec = 0\<rparr>) []"

lemma demo_tls_fresh: "fresh demo_tls_world"
  by (simp add: demo_tls_world_def)

definition demo_tls_params :: "ofb_tls_benchmark \<Rightarrow> ofb_tls_params" where
  "demo_tls_params benchmark =
     \<lparr>q_cipher = ''TLS_AES_128_GCM_SHA256'', q_certificate_path = ''cert.pem'',
      q_private_key_path = ''key.pem'', q_benchmark = benchmark, q_message_size = 2\<rparr>"

lemma demo_tls_fill: "tls_plaintext_fill 2 = [11, 40]"
  by (simp add: tls_plaintext_fill_def upt_rec)

lemma handshake_loop_numeral:
  "handshake_loop L pair (numeral k) cf sf w = do {
     (r, cf, w) \<leftarrow> handshake_step L (tp_client pair) cf w;
     if r \<noteq> 0 then Some (-1, w)
     else do {
       (r, sf, w) \<leftarrow> handshake_step L (tp_server pair) sf w;
       if r \<noteq> 0 then Some (-1, w)
       else if cf \<and> sf then Some (0, w)
       else handshake_loop L pair (pred_numeral k) cf sf w
     }
   }"
  by (subst numeral_eq_Suc) simp

lemmas demo_tls_defs = demo_tls_world_def demo_tls_params_def demo_tls_def SSL_ERROR_WANT_READ_def
  SSL_ERROR_WANT_WRITE_def

lemmas tls_defs = ofb_tls_backend_create_def create_tls_blocks_def SSL_CTX_new_def INT_MAX_def
  zero_tls_backend_def zero_pair_def configure_def on_ctx_def create_tail_def tls_pair_create_def
  SSL_new_def BIO_new_bio_pair_def finish_pair_def connect_pair_def SSL_set_bio_def on_ssl_def
  handshake_step_def ofb_tls_backend_verify_def tls_pair_matches_def get_ssl_def
  transfer_once_def OFB_TLS_RECORD_SIZE_def ofb_tls_backend_run_batch_def

lemma demo_tls_session:
  "succeeds (do {
     (r, p, w) \<leftarrow> ofb_tls_backend_create demo_tls (demo_tls_params OFB_TLS_TRANSFER) demo_tls_world;
     (v, w') \<leftarrow> ofb_tls_backend_verify demo_tls p w;
     (t, _) \<leftarrow> transfer_once demo_tls p w;
     Some (r, v, t, w_lib w)}) (\<lambda>res. res = (0, 0, 0, []))"
  by (simp add: demo_tls_defs memory_defs tls_defs demo_tls_fill list_all_iff Let_def
      handshake_loop_numeral transfer_loop.simps read_loop.simps
      cong: bind_weak_cong succeeds_weak_cong del: succeeds_bind)
lemma demo_tls_runs:
  obtains p w1 w2 w3 where
    "ofb_tls_backend_create demo_tls (demo_tls_params OFB_TLS_TRANSFER) demo_tls_world = Some (0, p, w1)"
    "ofb_tls_backend_verify demo_tls p w1 = Some (0, w2)"
    "transfer_once demo_tls p w1 = Some (0, w3)" "w_lib w1 = []"
  using demo_tls_session by (auto simp: succeeds_iff Option.bind_eq_Some_conv)

lemma demo_tls_valid: "tls_valid (demo_tls_params benchmark)"
  by (simp add: tls_valid_def demo_tls_params_def)

subsection \<open>Properties\<close>

text \<open>C7: creating a TLS backend never has undefined behaviour, whatever allocation or call fails. On
  failure \<^verbatim>\<open>*backend\<close> stays \<^verbatim>\<open>NULL\<close> and contexts, connections, BIOs and buffers are all
  released, none twice; on success destroying the backend restores the heap.\<close>

theorem tls_create_no_leak:
  assumes "tls_ok L" and "tls_valid q" and "fresh w"
  shows "\<exists>r p w'. ofb_tls_backend_create L q w = Some (r, p, w') \<and>
    (r \<noteq> 0 \<longrightarrow> p = NULL \<and> w_heap w' = w_heap w) \<and>
    (r = 0 \<longrightarrow> (\<exists>w''. ofb_tls_backend_destroy L p w' = Some w'' \<and> w_heap w'' = w_heap w))"
proof -
  from tls.create [OF assms, of undefined] obtain r p w' where
    c: "ofb_tls_backend_create L q w = Some (r, p, w')"
      "if r = 0 then tls_holds w p w' else p = NULL \<and> owned w [] w'"
    by (auto simp: tls_ops_def elim!: succeedsE)
  have "\<exists>w''. ofb_tls_backend_destroy L p w' = Some w'' \<and> w_heap w'' = w_heap w" if "r = 0"
    using tls.destroy [OF assms(1), of w p w' undefined] c(2) that owned_Nil_heap [OF _ assms(3)]
    by (auto simp: tls_ops_def elim!: succeedsE)
  then show ?thesis using c owned_Nil_heap [OF _ assms(3), of w'] by (auto split: if_splits)
qed

theorem tls_create_no_leak_witness:
  "\<exists>r p w'. ofb_tls_backend_create demo_tls (demo_tls_params OFB_TLS_HANDSHAKE) demo_tls_world =
      Some (r, p, w') \<and>
    (r \<noteq> 0 \<longrightarrow> p = NULL \<and> w_heap w' = w_heap demo_tls_world) \<and>
    (r = 0 \<longrightarrow> (\<exists>w''. ofb_tls_backend_destroy demo_tls p w' = Some w'' \<and>
      w_heap w'' = w_heap demo_tls_world))"
  by (rule tls_create_no_leak) (simp_all add: demo_tls_ok demo_tls_valid demo_tls_fresh)

text \<open>C15: creating a pair from two contexts does what the two ends do by themselves, in whatever heap:
  it returns 0 exactly if the library delivers two connections and a pair of BIOs and in one of
  the first 10000 rounds both ends have finished and neither has failed before; then both have
  finished, and the two connections it returns and the library are in the states of that round.\<close>

theorem pair_create_refined:
  fixes L :: "('c, 's, 'b, 'l) tls_lib"
  assumes "tls_ok L" and "fresh w" and "lookup cctx w = Some (Obj (CtxObj a))"
    and "lookup sctx w = Some (Obj (CtxObj b))"
  shows "\<exists>r pair w'. tls_pair_create L cctx sctx w = Some (r, pair, w') \<and>
    (r = 0 \<longleftrightarrow> establish L a b (w_lib w) \<noteq> None) \<and>
    (case establish L a b (w_lib w) of
       None \<Rightarrow> True
     | Some (cf, c, sf, s, l) \<Rightarrow> cf \<and> sf \<and> get_ssl (tp_client pair) w' = Some c \<and>
         get_ssl (tp_server pair) w' = Some s \<and> w_lib w' = l)"
proof -
  have "cf \<and> sf" if "establish L a b (w_lib w) = Some (cf, c, sf, s, l)" for cf c sf s l
    using that by (auto simp: establish_def split: bind_splits prod.splits dest: negotiate_connected)
  moreover have "get_ssl p w = Some x" if "lookup p w = Some (Obj (SslObj x bio))"
    for p x bio and w :: "('c, 's, 'b, 'l) tls_world"
    using that by (simp add: get_ssl_def get_obj_def)
  ultimately show ?thesis
    using pair_create_refines [OF assms]
    by (cases "establish L a b (w_lib w)") (auto simp: ends_are_def)
qed


text \<open>A world with two contexts of the small library, whose ends finish in their second attempt.\<close>

definition demo_contexts :: "(unit, nat, unit, bytes) tls_world" where
  "demo_contexts = demo_tls_world\<lparr>w_next := 2,
     w_heap := [0 \<mapsto> Obj (CtxObj ()), 1 \<mapsto> Obj (CtxObj ())]\<rparr>"

lemma demo_contexts_simps:
  "fresh demo_contexts" "w_lib demo_contexts = []"
  "lookup (Addr 0) demo_contexts = Some (Obj (CtxObj ()))"
  "lookup (Addr 1) demo_contexts = Some (Obj (CtxObj ()))"
  by (simp_all add: demo_contexts_def demo_tls_world_def start_world_def fresh_def lookup_def)

theorem pair_create_refined_witness:
  "\<exists>r pair w'. tls_pair_create demo_tls (Addr 0) (Addr 1) demo_contexts = Some (r, pair, w') \<and>
    (r = 0 \<longleftrightarrow> establish demo_tls () () (w_lib demo_contexts) \<noteq> None) \<and>
    (case establish demo_tls () () (w_lib demo_contexts) of
       None \<Rightarrow> True
     | Some (cf, c, sf, s, l) \<Rightarrow> cf \<and> sf \<and> get_ssl (tp_client pair) w' = Some c \<and>
         get_ssl (tp_server pair) w' = Some s \<and> w_lib w' = l)"
  by (rule pair_create_refined [OF demo_tls_ok demo_contexts_simps(1,3,4)])







text \<open>C14: a verification of the transfer benchmark that succeeds has found TLS 1.3 and the requested
  cipher suite at both ends, and the message it transferred arrived unchanged.\<close>

theorem tls_verify_sound:
  assumes "tls_ok L" and "tls_valid q" and "fresh w"
    and "q_benchmark q = OFB_TLS_TRANSFER"
    and "ofb_tls_backend_create L q w = Some (0, p, w1)"
    and "ofb_tls_backend_verify L p w1 = Some (0, w2)"
  shows "\<exists>st client server bs. get_struct p w2 = Some st \<and>
    get_ssl (tp_client (t_pair st)) w1 = Some client \<and>
    get_ssl (tp_server (t_pair st)) w1 = Some server \<and>
    ssl_version L client = TLS1_3_VERSION \<and> ssl_version L server = TLS1_3_VERSION \<and>
    ssl_cipher_name L client = q_cipher q \<and> ssl_cipher_name L server = q_cipher q \<and>
    load (t_plaintext st) 0 (unat (q_message_size q)) w2 = Some bs \<and>
    load (t_received st) 0 (unat (q_message_size q)) w2 = Some bs"
proof -
  from tls_create_ok [OF assms(1-3)] assms(5) obtain cb sb st where
    at: "tls_at w p cb sb st w1" and q: "t_benchmark st = OFB_TLS_TRANSFER" "t_cipher st = q_cipher q"
      "t_message_size st = q_message_size q"
    by (auto simp: tls_created_def assms(4))
  note a = tls_atD [OF at]
  have st: "get_struct p w1 = Some st" using a(1) by (simp add: get_struct_lookup)
  from transfer_once_ok [OF assms(1) st a(9) [OF q(1)]] obtain r w' where
    t: "transfer_once L p w1 = Some (r, w')" "steps (transfer_set st) w1 w'"
      "r = 0 \<Longrightarrow> has_bytes (t_received st) (unat (t_message_size st)) w'"
    by (auto elim!: succeedsE)
  obtain client server where
    s: "get_ssl (tp_client (t_pair st)) w1 = Some client" "get_ssl (tp_server (t_pair st)) w1 = Some server"
      "ssl_version L client = TLS1_3_VERSION" "ssl_version L server = TLS1_3_VERSION"
      "ssl_cipher_name L client = t_cipher st" "ssl_cipher_name L server = t_cipher st" and r: "r = 0"
    using assms(6) st q(1) t(1)
    by (auto simp: ofb_tls_backend_verify_def tls_pair_matches_def split: bind_splits if_split_asm)
  note at' = tls_at_steps [OF at t(2)]
  obtain bs cs where ld: "load (t_plaintext st) 0 (unat (t_message_size st)) w' = Some bs"
    "load (t_received st) 0 (unat (t_message_size st)) w' = Some cs"
    "length bs = unat (t_message_size st)" "length cs = unat (t_message_size st)"
    using compare_ok [OF at' t(3) [OF r]] .
  have "tls_memcmp L bs cs = 0 \<and> w2 = w'"
    using assms(6) st q(1) t(1) r s ld
    by (simp add: ofb_tls_backend_verify_def tls_pair_matches_def split: if_split_asm)
  moreover from this have "bs = cs" using assms(1) ld(3,4) by (simp add: tls_ok_def)
  moreover have "get_struct p w' = Some st" using tls_atD(1) [OF at'] by (simp add: get_struct_lookup)
  ultimately show ?thesis using s ld(1,2) q(2,3) by auto
qed

theorem tls_verify_sound_witness:
  "\<exists>p w1 w2 st client server bs.
    ofb_tls_backend_create demo_tls (demo_tls_params OFB_TLS_TRANSFER) demo_tls_world =
      Some (0, p, w1) \<and> ofb_tls_backend_verify demo_tls p w1 = Some (0, w2) \<and>
    get_struct p w2 = Some st \<and>
    get_ssl (tp_client (t_pair st)) w1 = Some client \<and>
    get_ssl (tp_server (t_pair st)) w1 = Some server \<and>
    ssl_version demo_tls client = TLS1_3_VERSION \<and> ssl_version demo_tls server = TLS1_3_VERSION \<and>
    ssl_cipher_name demo_tls client = ''TLS_AES_128_GCM_SHA256'' \<and>
    ssl_cipher_name demo_tls server = ''TLS_AES_128_GCM_SHA256'' \<and>
    load (t_plaintext st) 0 2 w2 = Some bs \<and> load (t_received st) 0 2 w2 = Some bs"
proof -
  obtain p w1 w2 w3 where
    run: "ofb_tls_backend_create demo_tls (demo_tls_params OFB_TLS_TRANSFER) demo_tls_world =
        Some (0, p, w1)" "ofb_tls_backend_verify demo_tls p w1 = Some (0, w2)"
      "transfer_once demo_tls p w1 = Some (0, w3)" "w_lib w1 = []" by (rule demo_tls_runs)
  have q: "q_benchmark (demo_tls_params OFB_TLS_TRANSFER) = OFB_TLS_TRANSFER"
    "q_cipher (demo_tls_params OFB_TLS_TRANSFER) = ''TLS_AES_128_GCM_SHA256''"
    "unat (q_message_size (demo_tls_params OFB_TLS_TRANSFER)) = 2"
    by (simp_all add: demo_tls_params_def)
  from tls_verify_sound [OF demo_tls_ok demo_tls_valid demo_tls_fresh q(1) run(1,2), unfolded q(2,3)]
    run(1,2) show ?thesis by blast
qed

end
