(* ===== verification/Tls_Program.thy ===== *)
theory Tls_Program
  imports Tls_Options Tls_Delivery Case_Plan
begin

text \<open>
  The whole TLS program: its loops over cipher suites, benchmarks and sizes run a plan of cases; a
  case and the program are safe and print what they should over every backend that keeps the
  contract, and so over the TLS backend.
\<close>

subsection \<open>The plan of a run\<close>

type_synonym tls_case = "string \<times> ofb_tls_benchmark \<times> u64"

definition cipher_selected :: "tls_options \<Rightarrow> string \<Rightarrow> bool" where
  "cipher_selected options cipher \<longleftrightarrow> to_cipher options = ''all'' \<or> to_cipher options = cipher"

definition transfer_sizes :: "tls_options \<Rightarrow> u64 list" where
  "transfer_sizes options =
     (if to_size_set options then [to_size options] else tls_default_sizes)"

definition benchmarks_of :: "tls_options \<Rightarrow> (ofb_tls_benchmark \<times> u64) list" where
  "benchmarks_of options =
     (if to_benchmark options = ''all'' \<or> to_benchmark options = ''handshake''
      then [(OFB_TLS_HANDSHAKE, 0)] else []) @
     (if to_benchmark options = ''all'' \<or> to_benchmark options = ''transfer''
      then map (Pair OFB_TLS_TRANSFER) (transfer_sizes options) else [])"

definition tls_plan :: "tls_options \<Rightarrow> string list \<Rightarrow> tls_case list" where
  "tls_plan options cs =
     [(c, b). c \<leftarrow> filter (cipher_selected options) cs, b \<leftarrow> benchmarks_of options]"

definition tls_exec_case ::
  "nat \<Rightarrow> string \<Rightarrow> (ofb_tls_params, ('s, 'o, 'l) world) backend_ops \<Rightarrow> tls_options \<Rightarrow> tls_case \<Rightarrow>
   ('s, 'o, 'l) world \<Rightarrow> (int \<times> ('s, 'o, 'l) world) option" where
  "tls_exec_case ldp arch B options c w =
     (case c of (cipher, benchmark, n) \<Rightarrow> tls_run_case ldp arch B options cipher benchmark n w)"

lemma tls_exec_case_simp [simp]:
  "tls_exec_case ldp arch B options (cipher, benchmark, n) =
    tls_run_case ldp arch B options cipher benchmark n"
  by (simp add: tls_exec_case_def fun_eq_iff)

lemma tls_run_sizes_plan:
  "tls_run_sizes ldp arch B options cipher ns w =
    run_plan (tls_exec_case ldp arch B options)
      (map (\<lambda>n. (cipher, OFB_TLS_TRANSFER, n)) ns) w"
  by (induction ns arbitrary: w) (simp_all cong: if_cong)

lemma tls_run_cipher_plan:
  "tls_run_cipher ldp arch B options cipher w =
    run_plan (tls_exec_case ldp arch B options) (map (Pair cipher) (benchmarks_of options)) w"
  by (auto simp: tls_run_cipher_def benchmarks_of_def tls_run_sizes_plan transfer_sizes_def comp_def
      cong: if_cong)

lemma tls_plan_Cons:
  "tls_plan options (c # cs) = (if cipher_selected options c
    then map (Pair c) (benchmarks_of options) else []) @ tls_plan options cs"
  by (simp add: tls_plan_def)

lemma tls_run_ciphers_plan:
  "tls_run_ciphers ldp arch B options cs matched w = do {
     (r, w) \<leftarrow> run_plan (tls_exec_case ldp arch B options) (tls_plan options cs) w;
     Some (r, matched \<or> list_ex (cipher_selected options) cs, w) }"
proof (induction cs arbitrary: matched w)
  case (Cons c cs)
  show ?case
  proof (cases "cipher_selected options c")
    case True
    then show ?thesis using Cons [of True]
      by (cases "run_plan (tls_exec_case ldp arch B options) (map (Pair c) (benchmarks_of options)) w")
        (auto simp: tls_plan_Cons run_plan_append tls_run_cipher_plan cipher_selected_def)
  next
    case False
    then show ?thesis using Cons [of matched] by (simp add: tls_plan_Cons cipher_selected_def)
  qed
qed (simp add: tls_plan_def)

text \<open>C19: the loops of \<^verbatim>\<open>main\<close> over cipher suites, benchmarks and transfer sizes run exactly the
  cases of the plan in its order, stop with code 1 at the first case that fails, and set the
  flag \<^verbatim>\<open>matched\<close> exactly if a suite was selected.\<close>

theorem tls_main_follows_plan:
  "tls_run_ciphers ldp arch B options cs False w = do {
     (r, w) \<leftarrow> run_plan (\<lambda>(c, b, n). tls_run_case ldp arch B options c b n) (tls_plan options cs) w;
     Some (r, list_ex (cipher_selected options) cs, w) }"
proof -
  have "tls_exec_case ldp arch B options = (\<lambda>(c, b, n). tls_run_case ldp arch B options c b n)"
    by (auto simp: fun_eq_iff)
  then show ?thesis by (simp add: tls_run_ciphers_plan)
qed

subsection \<open>A case, over any backend\<close>

text \<open>A handshake counts no bytes, and its iterations start at 1; those of a transfer at 16.\<close>

definition tls_sample_ok :: "u64 \<Rightarrow> ofb_tls_benchmark \<Rightarrow> u64 \<Rightarrow> timed_sample \<Rightarrow> bool" where
  "tls_sample_ok iterations benchmark n s \<longleftrightarrow>
     ts_iterations s = iterations \<and> 0 < unat (ts_elapsed_ns s) \<and>
     unat (ts_bytes s) = (if benchmark = OFB_TLS_TRANSFER then unat iterations * unat n else 0)"

text \<open>What a case prints that gets as far as \<open>k\<close> samples.\<close>

definition tls_case_output ::
  "nat \<Rightarrow> string \<Rightarrow> ofb_backend_info \<Rightarrow> tls_options \<Rightarrow> tls_case \<Rightarrow> nat \<Rightarrow> string \<Rightarrow> bool" where
  "tls_case_output ldp arch info options c k out \<longleftrightarrow>
     (case c of (cipher, benchmark, n) \<Rightarrow> \<exists>iterations ss.
       unat (start_count benchmark) \<le> unat iterations \<and> length ss = k \<and>
       list_all (tls_sample_ok iterations benchmark n) ss \<and>
       out = report (tls_sample_line ldp arch info options cipher benchmark n) 0 ss)"

lemma tls_case_output_0: "tls_case_output ldp arch info options c 0 []"
  by (auto simp: tls_case_output_def split: prod.split)

definition tls_case_title :: "tls_case \<Rightarrow> string" where
  "tls_case_title c = (case c of (cipher, benchmark, n) \<Rightarrow> tls_case_name cipher benchmark n)"

lemma tls_case_title_simp [simp]:
  "tls_case_title (cipher, benchmark, n) = tls_case_name cipher benchmark n"
  by (simp add: tls_case_title_def)

definition tls_case_result ::
  "nat \<Rightarrow> string \<Rightarrow> ofb_backend_info \<Rightarrow> tls_options \<Rightarrow> tls_case \<Rightarrow> ('s, 'o, 'l) world \<Rightarrow>
   int \<times> ('s, 'o, 'l) world \<Rightarrow> bool" where
  "tls_case_result ldp arch info options =
     case_result (tls_case_output ldp arch info options) tls_case_title (unat (to_samples options))"

locale tls_client = bench_backend B holds ready valid lib_ok
  for B :: "(ofb_tls_params, ('s, 'o, 'l) world) backend_ops"
    and holds ready valid lib_ok +
  assumes valid_case:
    "(q_benchmark q = OFB_TLS_TRANSFER \<longrightarrow> q_message_size q \<noteq> 0) \<Longrightarrow> valid q"
begin

lemma tls_fail_case_run:
  assumes "lib_ok" and "holds w0 p w"
  obtains w' where "tls_fail_case B p m w = Some (-1, w')" "owned w0 [] w'" "w_out w' = w_out w"
    "w_err w' = w_err w @ m"
  by (rule destroy_message [OF assms, of m]) (rule that; simp add: tls_fail_case_def)

lemma tls_sample_loop_ok:
  assumes "lib_ok" and "ready w0 p w"
  shows "succeeds (tls_sample_loop ldp arch B options c b n p it i k w) (\<lambda>(r, w').
    \<exists>ss. list_all (tls_sample_ok it b n) ss \<and>
      w_out w' = w_out w @ report (tls_sample_line ldp arch (op_info B) options c b n) i ss \<and>
      (if r = 0 then ready w0 p w' \<and> length ss = k \<and> w_err w' = w_err w
       else owned w0 [] w' \<and> length ss < k \<and>
         w_err w' = w_err w @ ''TLS benchmark failed: '' @ tls_case_name c b n))"
  using assms(2)
proof (induction k arbitrary: i w)
  case (Suc k)
  from run_timed_ok [OF assms(1) Suc.prems, of it b n] obtain s w1 where
    run: "run_timed B p it b n w = Some (s, w1)" "ready w0 p w1" "streams w1 = streams w"
    by (auto elim!: succeedsE)
  show ?case
  proof (cases s)
    case None
    obtain w2 where w2: "tls_fail_case B p (''TLS benchmark failed: '' @ tls_case_name c b n) w1 =
        Some (-1, w2)" "owned w0 [] w2" "w_out w2 = w_out w1"
      "w_err w2 = w_err w1 @ ''TLS benchmark failed: '' @ tls_case_name c b n"
      using tls_fail_case_run [OF assms(1) ready_holds [OF run(2)]] .
    have "tls_sample_loop ldp arch B options c b n p it i (Suc k) w = Some (-1, w2)"
      using run(1) None w2(1) by simp
    then show ?thesis using run(3) w2(2-4) by (simp add: streams_def exI [of _ "[]"])
  next
    case (Some x)
    let ?line = "tls_sample_line ldp arch (op_info B) options c b n i x"
    have "ready w0 p (print_out ?line w1)" using run(2) by (simp add: print_out_def ready_out)
    moreover have "tls_sample_ok it b n x"
      using run_timed_cases [OF run(1) [unfolded Some]]
      by (simp add: tls_sample_ok_def counted_size_def)
    ultimately show ?thesis
      using run(1,3) Some Suc.IH [of "print_out ?line w1" "Suc i"]
      by (auto simp: streams_def print_out_def elim!: succeeds_mono split: if_splits
          intro: exI [of _ "x # _"])
  qed
qed simp

lemma tls_case_early:
  assumes "to_samples options \<noteq> 0" and "owned w [] w'" and "w_out w' = w_out w"
    and "w_err w' = w_err w @ m @ tls_case_name c b n"
  shows "tls_case_result ldp arch (op_info B) options (c, b, n) w (-1, w')"
  using assms tls_case_output_0 unfolding tls_case_result_def case_result_def
  by (auto simp: unat_gt_0 intro!: exI [of _ 0] exI [of _ "[]"])

text \<open>After its creation a case ends in one of three ways.\<close>

lemma tls_case_loop:
  assumes "lib_ok" and "0 < ldp" and "ready w0 p w" and "w_out w = w_out w0" and "w_err w = w_err w0"
    and "unat (start_count b) \<le> unat it"
  shows "succeeds (do {
      (r, w) \<leftarrow> tls_sample_loop ldp arch B options c b n p it 0 (unat (to_samples options)) w;
      if r \<noteq> 0 then Some (-1, w) else do { w \<leftarrow> op_destroy B p w; Some (0, w) } })
    (tls_case_result ldp arch (op_info B) options (c, b, n) w0)"
proof -
  from tls_sample_loop_ok [OF assms(1,3), of ldp arch options c b n it 0 "unat (to_samples options)"]
  obtain r w1 ss where
    l: "tls_sample_loop ldp arch B options c b n p it 0 (unat (to_samples options)) w = Some (r, w1)"
      "list_all (tls_sample_ok it b n) ss"
      "w_out w1 = w_out w @ report (tls_sample_line ldp arch (op_info B) options c b n) 0 ss"
      "if r = 0 then ready w0 p w1 \<and> length ss = unat (to_samples options) \<and> w_err w1 = w_err w
       else owned w0 [] w1 \<and> length ss < unat (to_samples options) \<and>
         w_err w1 = w_err w @ ''TLS benchmark failed: '' @ tls_case_name c b n"
    by (auto elim!: succeedsE)
  have out: "tls_case_output ldp arch (op_info B) options (c, b, n) (length ss)
    (report (tls_sample_line ldp arch (op_info B) options c b n) 0 ss)"
    using assms(6) l(2) by (auto simp: tls_case_output_def)
  show ?thesis
  proof (cases "r = 0")
    case False
    then show ?thesis
      using out l assms(4,5) by (auto simp: tls_case_result_def case_result_def)
  next
    case True
    then have "holds w0 p w1" using l(4) ready_holds by simp
    from destroy [OF assms(1) this] obtain w2 where
      "op_destroy B p w1 = Some w2" "io w2 = io w1" "owned w0 [] w2"
      by (auto elim!: succeedsE)
    then show ?thesis
      using True out l assms(4,5) io_eqD [of w2 w1]
      by (auto simp: tls_case_result_def case_result_def)
  qed
qed

lemma tls_run_case_ok:
  assumes "lib_ok" and "0 < ldp" and "b = OFB_TLS_TRANSFER \<longrightarrow> n \<noteq> 0" and "to_samples options \<noteq> 0"
    and "fresh w"
  shows "succeeds (tls_run_case ldp arch B options c b n w)
    (tls_case_result ldp arch (op_info B) options (c, b, n) w)"
proof -
  let ?q = "\<lparr>q_cipher = c, q_certificate_path = to_certificate_path options,
    q_private_key_path = to_private_key_path options, q_benchmark = b, q_message_size = n\<rparr>"
  have "valid ?q" using assms(3) by (intro valid_case) simp
  from create [OF assms(1) this assms(5)] obtain r p w1 where
    c: "op_create B ?q w = Some (r, p, w1)" "io w1 = io w"
      "if r = 0 then holds w p w1 else p = NULL \<and> owned w [] w1"
    by (auto elim!: succeedsE)
  note early = tls_case_early [OF assms(4)]
  show ?thesis
  proof (cases "r = 0")
    case False
    have "owned w [] (print_err m w1)" for m using c(3) False by (simp add: print_err_def)
    then show ?thesis using c False io_eqD [OF c(2)]
      by (auto simp: tls_run_case_def print_err_def intro!: early)
  next
    case True
    then have h1: "holds w p w1" using c(3) by simp
    from verify [OF assms(1) h1] obtain r2 w2 where
      v: "op_verify B p w1 = Some (r2, w2)" "io w2 = io w1" "holds w p w2"
        "r2 = 0 \<Longrightarrow> ready w p w2"
      by (auto elim!: succeedsE)
    have io2: "w_out w2 = w_out w" "w_err w2 = w_err w"
      using io_eqD [OF c(2)] io_eqD [OF v(2)] by simp_all
    have "\<exists>it w3. (if r2 \<noteq> 0 then Some (None, w2)
          else tls_calibrate ldp B p b n (to_sample_ns options) w2) = Some (it, w3) \<and>
        holds w p w3 \<and> streams w3 = streams w2 \<and>
        (it \<noteq> None \<longrightarrow> ready w p w3 \<and> unat (start_count b) \<le> unat (the it))"
    proof (cases "r2 = 0")
      case r2: True
      from tls_calibrate_ok [OF assms(1) v(4) [OF r2], of ldp b n "to_sample_ns options"] obtain it w3
        where k: "tls_calibrate ldp B p b n (to_sample_ns options) w2 = Some (it, w3)"
          "ready w p w3" "streams w3 = streams w2"
        by (auto elim!: succeedsE)
      have "unat (start_count b) \<le> unat (the it)" if "it \<noteq> None"
        using tls_calibrate_positive [OF assms(2)] k(1) that by auto
      then show ?thesis using k r2 ready_holds by simp
    qed (use v(3) in simp)
    then obtain it w3 where
      k: "(if r2 \<noteq> 0 then Some (None, w2)
          else tls_calibrate ldp B p b n (to_sample_ns options) w2) = Some (it, w3)"
        "holds w p w3" "streams w3 = streams w2"
        "it \<noteq> None \<Longrightarrow> ready w p w3 \<and> unat (start_count b) \<le> unat (the it)"
      by blast
    have io3: "w_out w3 = w_out w" "w_err w3 = w_err w" using io2 k(3) by (simp_all add: streams_def)
    have run: "tls_run_case ldp arch B options c b n w = (case it of
        None \<Rightarrow> tls_fail_case B p (''TLS verification or calibration failed: '' @ tls_case_name c b n) w3
      | Some it \<Rightarrow> do {
          (r, w) \<leftarrow> tls_sample_loop ldp arch B options c b n p it 0 (unat (to_samples options)) w3;
          if r \<noteq> 0 then Some (-1, w) else do { w \<leftarrow> op_destroy B p w; Some (0, w) } })"
      using c(1) True v(1) k(1) by (simp add: tls_run_case_def)
    show ?thesis
    proof (cases it)
      case None
      obtain w4 where w4: "tls_fail_case B p (''TLS verification or calibration failed: '' @
            tls_case_name c b n) w3 = Some (-1, w4)" "owned w [] w4" "w_out w4 = w_out w3"
          "w_err w4 = w_err w3 @ ''TLS verification or calibration failed: '' @ tls_case_name c b n"
        using tls_fail_case_run [OF assms(1) k(2)] .
      have "tls_case_result ldp arch (op_info B) options (c, b, n) w (-1, w4)"
        using early [OF w4(2)] w4(3,4) unfolding io3 by blast
      then show ?thesis unfolding run None by (simp only: option.case w4(1) succeeds_Some)
    next
      case (Some n')
      then show ?thesis
        using tls_case_loop [OF assms(1,2) _ io3] k(4) unfolding run by simp
    qed
  qed
qed

end

subsection \<open>The program, over any backend\<close>

text \<open>
  What the whole program does with options that pass the checks: it runs the plan; a cipher suite
  that the backend does not have is reported after that, the plan then being empty.
\<close>

definition tls_main_result ::
  "nat \<Rightarrow> string \<Rightarrow> ofb_backend_info \<Rightarrow> tls_options \<Rightarrow> ('s, 'o, 'l) world \<Rightarrow>
   int \<times> ('s, 'o, 'l) world \<Rightarrow> bool" where
  "tls_main_result ldp arch info options w res \<longleftrightarrow>
     (if list_ex (cipher_selected options) (i_algorithms info)
      then plan_result (tls_case_output ldp arch info options) tls_case_title
        (unat (to_samples options)) (tls_plan options (i_algorithms info)) w res
      else res = (2, print_err (''unsupported cipher: '' @ to_cipher options @ newline) w))"

lemma tls_plan_sizes:
  assumes "tls_options_ok options" and "(c, b, n) \<in> set (tls_plan options cs)"
  shows "b = OFB_TLS_TRANSFER \<longrightarrow> n \<noteq> 0"
  using assms by (auto simp: tls_plan_def benchmarks_of_def transfer_sizes_def tls_default_sizes_def
      tls_options_ok_def split: if_splits)

lemma tls_plan_unsupported:
  "\<not> list_ex (cipher_selected options) cs \<Longrightarrow> tls_plan options cs = []"
proof -
  assume "\<not> list_ex (cipher_selected options) cs"
  then have "filter (cipher_selected options) cs = []"
    by (auto simp: filter_empty_conv list_ex_iff)
  then show ?thesis by (simp add: tls_plan_def)
qed

lemma tls_main_parsed:
  assumes "tls_parse_args B program args (tls_default_options cert key) w = (Inr options, w)"
    and "tls_check_options options w = (Inr options, w)"
  shows "tls_main ldp arch cert key B program args w = do {
    (r, w) \<leftarrow> run_plan (tls_exec_case ldp arch B options) (tls_plan options (i_algorithms (op_info B))) w;
    if r \<noteq> 0 then Some (r, w)
    else if \<not> list_ex (cipher_selected options) (i_algorithms (op_info B))
    then Some (2, print_err (''unsupported cipher: '' @ to_cipher options @ newline) w)
    else Some (0, w) }"
  using assms by (auto simp: tls_main_def tls_run_ciphers_plan cong: if_cong intro!: Option.bind_cong)

context tls_client
begin

lemma tls_main_run_ok:
  assumes "lib_ok" and "0 < ldp" and "fresh w"
    and "tls_parse_args B program args (tls_default_options cert key) w = (Inr options, w)"
    and "tls_check_options options w = (Inr options, w)"
  shows "succeeds (tls_main ldp arch cert key B program args w)
    (tls_main_result ldp arch (op_info B) options w)"
proof -
  let ?cs = "i_algorithms (op_info B)"
  let ?run = "run_plan (tls_exec_case ldp arch B options) (tls_plan options ?cs) w"
  have ok: "tls_options_ok options"
    using tls_parse_args_ok [OF tls_default_options_ok assms(4)] by simp
  then have "to_samples options \<noteq> 0" by (simp add: tls_options_ok_def)
  note case_ok = tls_run_case_ok [OF assms(1,2) _ this, unfolded tls_case_result_def]
  have run: "succeeds ?run (plan_result (tls_case_output ldp arch (op_info B) options)
      tls_case_title (unat (to_samples options)) (tls_plan options ?cs) w)"
    by (rule run_plan_ok [OF _ assms(3)]) (use tls_plan_sizes [OF ok] case_ok in fastforce)
  show ?thesis
  proof (cases "list_ex (cipher_selected options) ?cs")
    case False
    then show ?thesis using tls_plan_unsupported
      by (simp add: tls_main_parsed [OF assms(4,5)] tls_main_result_def)
  next
    case True
    then have res: "tls_main_result ldp arch (op_info B) options w =
      plan_result (tls_case_output ldp arch (op_info B) options) tls_case_title
        (unat (to_samples options)) (tls_plan options ?cs) w"
      by (intro ext) (auto simp: tls_main_result_def)
    have "tls_main ldp arch cert key B program args w = ?run"
      using True unfolding tls_main_parsed [OF assms(4,5)] by (cases ?run) auto
    then show ?thesis using run res by simp
  qed
qed

lemma tls_main_ok:
  assumes "lib_ok" and "0 < ldp" and "fresh w"
  shows "succeeds (tls_main ldp arch cert key B program args w)
    (\<lambda>(r, w'). w_heap w' = w_heap w \<and> r \<in> {0, 1, 2})"
proof -
  obtain res w1 where
    p: "tls_parse_args B program args (tls_default_options cert key) w = (res, w1)"
    by (cases "tls_parse_args B program args (tls_default_options cert key) w")
  show ?thesis
  proof (cases res)
    case (Inl code)
    then show ?thesis
      using p tls_parse_args_exit [of B program args "tls_default_options cert key" w code w1]
      by (auto simp: tls_main_def)
  next
    case (Inr options)
    then have w1: "w1 = w" using tls_parse_args_ok [OF tls_default_options_ok] p by blast
    from tls_check_options_cases [of options w] show ?thesis
    proof (elim disjE exE)
      assume ok: "tls_check_options options w = (Inr options, w)"
      from tls_main_run_ok [OF assms p [unfolded Inr w1] ok, of arch] show ?thesis
        by (rule succeeds_mono) (auto simp: tls_main_result_def plan_result_def print_err_def
            dest: owned_Nil_heap [OF _ assms(3)] plan_trace_code split: if_splits)
    next
      fix m assume "tls_check_options options w = (Inl 2, print_err m w)"
      then show ?thesis using p Inr w1 by (simp add: tls_main_def print_err_def)
    qed
  qed
qed

end

subsection \<open>The program on the TLS backend\<close>

interpretation tcli: tls_client "tls_ops name L" tls_holds tls_ready tls_valid "tls_ok L"
  for name :: string and L :: "('c, 's, 'b, 'l) tls_lib"
  by unfold_locales (simp add: tls_valid_def)

lemma tls_info: "op_info (tls_ops name L) = ofb_tls_backend_info name L"
  by (simp add: tls_ops_def)

text \<open>C4: on every input, clock, allocator and library that keeps its contract, the TLS program
  terminates without undefined behaviour, with exit code 0, 1 or 2, and everything it created has
  been released: buffers, contexts, connections and BIOs.\<close>

theorem tls_main_safe:
  assumes "tls_ok L" and "0 < ldp" and "fresh w"
  shows "\<exists>r w'. tls_main ldp arch cert key (tls_ops name L) program args w = Some (r, w') \<and>
    w_heap w' = w_heap w \<and> r \<in> {0, 1, 2}"
  using tcli.tls_main_ok [OF assms, of arch cert key name program args] by (auto simp: succeeds_iff)

theorem tls_main_safe_witness:
  "\<exists>r w'. tls_main 64 ''x86_64'' ''c.pem'' ''k.pem'' (tls_ops ''demo'' demo_tls) ''tls''
      [''--benchmark'', ''transfer'', ''--samples'', ''2''] demo_tls_world = Some (r, w') \<and>
    w_heap w' = w_heap demo_tls_world \<and> r \<in> {0, 1, 2}"
  by (rule tls_main_safe) (simp_all add: demo_tls_ok demo_tls_fresh)

text \<open>C3: with options that parse and pass the checks, the TLS program prints what the plan asks
  for: for every case one line for each sample, numbered from 0, all with the same positive count
  of iterations (at least 16 for a transfer), a positive duration and the exact number of bytes.
  It exits with 0 after the last case, or with 1 after the first case that fails, which it names
  on the error stream; it exits with 2 and prints no result if the backend does not have the
  cipher suite.\<close>

theorem tls_main_output:
  assumes "tls_ok L" and "0 < ldp" and "fresh w"
    and "tls_parse_args (tls_ops name L) program args (tls_default_options cert key) w =
      (Inr options, w)"
    and "tls_check_options options w = (Inr options, w)"
  shows "\<exists>res. tls_main ldp arch cert key (tls_ops name L) program args w = Some res \<and>
    tls_main_result ldp arch (ofb_tls_backend_info name L) options w res"
  using tcli.tls_main_run_ok [OF assms(1-3) assms(4,5), of arch]
  by (auto simp: succeeds_iff tls_info)

theorem tls_main_output_witness:
  "\<exists>res. tls_main 64 ''x86_64'' ''c'' ''k'' (tls_ops ''demo'' demo_tls) ''tls''
      [''--benchmark'', ''handshake''] demo_tls_world = Some res \<and>
    tls_main_result 64 ''x86_64'' (ofb_tls_backend_info ''demo'' demo_tls)
      (tls_default_options ''c'' ''k''\<lparr>to_benchmark := ''handshake''\<rparr>) demo_tls_world res"
  by (rule tls_main_output)
    (simp_all add: demo_tls_ok demo_tls_fresh tls_set_option_text tls_check_options_def
      tls_default_options_def)

end
