(* ===== verification/Legacy_Bench.thy ===== *)
theory Legacy_Bench
  imports Runner C_Text
begin

text \<open>
  What the older one-file benchmarks share (the text of \<^verbatim>\<open>cryptobench.c\<close> that the other files
  repeat): a clock in microseconds, the rate computed in 64-bit arithmetic, and the loops of
  \<^verbatim>\<open>main\<close> over a table and over block sizes that double from 1 to 65536. A reading of an
  uninitialised structure, a division by zero and a loop that does not end are \<open>None\<close>.

  The locale \<open>block_bench\<close> is the contract of the two programs with block sizes: one
  measurement of a cipher that fits the program's fixed arrays ends without undefined behaviour, leaves the heap as it was, reads the clock twice,
  and returns the rate of the time between the two readings.
\<close>

subsection \<open>The clock\<close>

definition time_now :: "('s, 'o, 'l) world \<Rightarrow> (u64 \<times> ('s, 'o, 'l) world) option" where
  "time_now w =
     (let k = w_reads w; w' = w\<lparr>w_reads := Suc k\<rparr>
      in case w_clock w k of
           None \<Rightarrow> None
         | Some ts \<Rightarrow> Some (word_of_int (tv_sec ts) * 1000000 + word_of_int (tv_nsec ts sdiv 1000), w'))"

text \<open>The branches for Apple and Windows, of what the system call delivers.\<close>

definition time_now_apple :: "(int \<times> int) option \<Rightarrow> u64 option" where
  "time_now_apple tv =
     (case tv of
        None \<Rightarrow> None
      | Some (sec, usec) \<Rightarrow> Some (word_of_int sec * 1000000 + word_of_int usec))"

definition time_now_windows :: "u64 \<Rightarrow> u64" where
  "time_now_windows ticks = ticks * 1000"

subsection \<open>The rates\<close>

definition block_rate :: "u64 \<Rightarrow> u64 \<Rightarrow> u64 option" where
  "block_rate total_size duration =
     (if duration * 1024 * 1024 = 0 then None
      else Some (total_size * 8 * 1000000 div (duration * 1024 * 1024)))"

definition round_rate :: "u32 \<Rightarrow> u64 \<Rightarrow> u64 option" where
  "round_rate rounds duration =
     (if duration = 0 then None else Some (ucast rounds * 1000000 div duration))"

subsection \<open>The loops of the main functions\<close>

definition rule_line :: string where
  "rule_line = newline @ ''--------'' @ newline @ newline"

definition block_line :: "u64 \<Rightarrow> u64 \<Rightarrow> string" where
  "block_line block_size rate =
     pad_left 5 CHR '' '' (dec (unat block_size)) @ [CHR 0x09] @
     pad_left 6 CHR '' '' (dec (unat rate)) @ newline"

definition block_header :: "string \<Rightarrow> string" where
  "block_header name = name @ newline @ newline @ ''BlkSize'' @ [CHR 0x09] @ '' MiB/s'' @ newline"

partial_function (option) block_loop ::
  "(u64 \<Rightarrow> ('s, 'o, 'l) world \<Rightarrow> (u64 \<times> ('s, 'o, 'l) world) option) \<Rightarrow> u64 \<Rightarrow> ('s, 'o, 'l) world \<Rightarrow>
   ('s, 'o, 'l) world option" where
  "block_loop run block_size w =
     (if block_size \<le> 65536
      then do {
        (rate, w) \<leftarrow> run block_size w;
        block_loop run (block_size * 2) (print_out (block_line block_size rate) w)
      }
      else Some w)"

fun cipher_loop ::
  "('k \<Rightarrow> u64 \<Rightarrow> ('s, 'o, 'l) world \<Rightarrow> (u64 \<times> ('s, 'o, 'l) world) option) \<Rightarrow> (string \<times> 'k) list \<Rightarrow>
   ('s, 'o, 'l) world \<Rightarrow> ('s, 'o, 'l) world option" where
  "cipher_loop run [] w = Some w"
| "cipher_loop run ((name, key) # table) w = do {
     w \<leftarrow> block_loop (run key) 1 (print_out (block_header name) w);
     cipher_loop run table (print_out rule_line w)
   }"

text \<open>The loop of the three public-key programs, which measure every entry of the table once.\<close>

fun entry_loop ::
  "('k \<Rightarrow> ('s, 'o, 'l) world \<Rightarrow> (u64 \<times> ('s, 'o, 'l) world) option) \<Rightarrow> (string \<times> 'k) list \<Rightarrow>
   ('s, 'o, 'l) world \<Rightarrow> ('s, 'o, 'l) world option" where
  "entry_loop run [] w = Some w"
| "entry_loop run ((name, key) # table) w = do {
     (rate, w) \<leftarrow> run key (print_out (name @ newline) w);
     entry_loop run table (print_out (dec (unat rate) @ newline @ rule_line) w)
   }"

subsection \<open>Time between two readings\<close>

definition micros :: "timespec \<Rightarrow> int" where
  "micros ts = tv_sec ts * 1000000 + tv_nsec ts sdiv 1000"

definition elapsed_us :: "(nat \<Rightarrow> timespec option) \<Rightarrow> nat \<Rightarrow> int" where
  "elapsed_us clock k = micros (the (clock (Suc k))) - micros (the (clock k))"

text \<open>A clock that works, and on which every measurement takes between 1 microsecond and 101 days.\<close>

definition steady :: "(nat \<Rightarrow> timespec option) \<Rightarrow> bool" where
  "steady clock \<longleftrightarrow>
     (\<forall>k. clock k \<noteq> None \<and> 1 \<le> elapsed_us clock k \<and> elapsed_us clock k < 2 ^ 43)"

text \<open>The 64-bit difference of two readings is the true one, even if the readings have wrapped.\<close>

lemma time_now_micros:
  "time_now w = map_option (\<lambda>ts. (word_of_int (micros ts), w\<lparr>w_reads := Suc (w_reads w)\<rparr>))
    (w_clock w (w_reads w))"
  by (simp add: time_now_def micros_def Let_def split: option.split)

lemma unat_word_of_int_u64:
  "0 \<le> x \<Longrightarrow> x < 2 ^ 64 \<Longrightarrow> unat (word_of_int x :: u64) = nat x"
  using int_unat_word_of_int_u64 [of x] by linarith

lemma duration_exact:
  assumes "steady clock" and "clock k = Some a" and "clock (Suc k) = Some b"
  shows "unat (word_of_int (micros b) - word_of_int (micros a) :: u64) = nat (elapsed_us clock k)"
proof -
  have "(word_of_int (micros b) - word_of_int (micros a) :: u64) = word_of_int (elapsed_us clock k)"
    by (simp add: elapsed_us_def assms(2,3))
  moreover have "0 \<le> elapsed_us clock k" "elapsed_us clock k < 2 ^ 64"
    using assms(1) by (auto simp: steady_def dest: spec [of _ k])
  ultimately show ?thesis by (simp only: unat_word_of_int_u64)
qed

lemma steadyD: "steady clock \<Longrightarrow> \<exists>ts. clock k = Some ts"
  by (simp add: steady_def)

subsection \<open>The rates are exact\<close>

lemma block_rate_value:
  assumes "unat total_size * 8000000 < 2 ^ 64" and "unat duration * 1048576 < 2 ^ 64"
    and "duration \<noteq> 0"
  shows "block_rate total_size duration =
    Some (of_nat (unat total_size * 8000000 div (unat duration * 1048576)))"
proof -
  have t8: "unat total_size * unat (8 :: u64) < 2 ^ 64" using assms(1) by simp
  have t: "unat (total_size * 8 * 1000000) = unat total_size * 8000000"
    using assms(1) by (simp add: unat_mult_exact [OF t8] unat_mult_exact)
  have d1: "unat duration * unat (1024 :: u64) < 2 ^ 64" using assms(2) by simp
  have d: "unat (duration * 1024 * 1024) = unat duration * 1048576"
    using assms(2) by (simp add: unat_mult_exact [OF d1] unat_mult_exact)
  have "0 < unat duration" using assms(3) by (simp add: unat_gt_0)
  then have "duration * 1024 * 1024 \<noteq> 0" using d by (metis mult_is_0 neq0_conv unat_0 zero_neq_numeral)
  moreover have "unat (total_size * 8 * 1000000 div (duration * 1024 * 1024)) =
      unat total_size * 8000000 div (unat duration * 1048576)"
    by (simp only: unat_div t d)
  then have "total_size * 8 * 1000000 div (duration * 1024 * 1024) =
      of_nat (unat total_size * 8000000 div (unat duration * 1048576))"
    by (metis of_nat_unat ucast_id)
  ultimately show ?thesis by (simp add: block_rate_def)
qed

lemma round_rate_value:
  assumes "duration \<noteq> 0"
  shows "round_rate rounds duration = Some (of_nat (unat rounds * 1000000 div unat duration))"
proof -
  have r: "unat (ucast rounds :: u64) = unat rounds"
    using unsigned_less [of rounds, where ?'a = nat]
    by (simp add: unsigned_ucast_eq take_bit_nat_eq_self)
  then have "unat (ucast rounds :: u64) * unat (1000000 :: u64) < 2 ^ 64"
    using unsigned_less [of rounds, where ?'a = nat] by simp
  from unat_mult_exact [OF this]
  have "unat (ucast rounds * 1000000 div duration) = unat rounds * 1000000 div unat duration"
    by (simp add: unat_div r)
  then have "ucast rounds * 1000000 div duration = of_nat (unat rounds * 1000000 div unat duration)"
    by (metis of_nat_unat ucast_id)
  then show ?thesis using assms by (simp add: round_rate_def)
qed

text \<open>The rate of 512 MiB in the time between readings \<open>k\<close> and \<open>k + 1\<close>.\<close>

definition shown_rate :: "(nat \<Rightarrow> timespec option) \<Rightarrow> nat \<Rightarrow> u64" where
  "shown_rate clock k = of_nat (4096000000 div nat (elapsed_us clock k))"

lemma block_rate_shown:
  assumes "steady clock" and "clock k = Some a" and "clock (Suc k) = Some b"
  shows "block_rate 536870912 (word_of_int (micros b) - word_of_int (micros a)) =
    Some (shown_rate clock k)"
proof -
  let ?d = "word_of_int (micros b) - word_of_int (micros a) :: u64"
  note d = duration_exact [OF assms]
  have e: "1 \<le> elapsed_us clock k" "elapsed_us clock k < 2 ^ 43"
    using assms(1) by (auto simp: steady_def)
  have "unat ?d < 2 ^ 43" using e d by (simp add: nat_less_iff)
  then have "unat ?d * 1048576 < 2 ^ 64" by simp
  moreover have "?d \<noteq> 0" using d e(1) by (metis unat_0 nat_0_iff not_one_le_zero order_trans)
  ultimately have "block_rate 536870912 ?d = Some (of_nat (4294967296000000 div (unat ?d * 1048576)))"
    by (subst block_rate_value) simp_all
  also have "(4294967296000000 :: nat) div (unat ?d * 1048576) = 4096000000 div unat ?d"
    using div_mult_mult2 [of 1048576 4096000000 "unat ?d"] by simp
  finally show ?thesis unfolding shown_rate_def d .
qed

subsection \<open>The sizes of the sweep\<close>

text \<open>The block sizes in the order of the loop.\<close>

definition block_sizes :: "u64 list" where
  "block_sizes = map (\<lambda>i. 2 ^ i) [0..<17]"

text \<open>The measurements of a list of block sizes.\<close>

fun run_blocks ::
  "(u64 \<Rightarrow> ('s, 'o, 'l) world \<Rightarrow> (u64 \<times> ('s, 'o, 'l) world) option) \<Rightarrow> u64 list \<Rightarrow>
   ('s, 'o, 'l) world \<Rightarrow> ('s, 'o, 'l) world option" where
  "run_blocks run [] w = Some w"
| "run_blocks run (n # ns) w = do {
     (rate, w) \<leftarrow> run n w;
     run_blocks run ns (print_out (block_line n rate) w)
   }"

lemma unat_pow2: "i < 64 \<Longrightarrow> unat ((2 :: u64) ^ i) = 2 ^ i"
proof -
  assume "i < 64"
  then have "(2 :: nat) ^ i < 2 ^ 64" by (intro power_strict_increasing) simp_all
  moreover have "(2 :: u64) ^ i = of_nat (2 ^ i)" by simp
  ultimately show ?thesis by (simp only: unat_of_nat len_num1) (simp add: take_bit_nat_eq_self)
qed

lemma block_loop_sizes:
  "k \<le> 17 \<Longrightarrow> block_loop run (2 ^ (17 - k)) w =
    run_blocks run (map (\<lambda>i. 2 ^ i) [17 - k..<17]) w"
proof (induction k arbitrary: w)
  case 0
  then show ?case by (simp add: block_loop.simps)
next
  case (Suc k)
  define j where "j = 17 - Suc k"
  have j: "17 - k = Suc j" "j < 17" using Suc.prems by (simp_all add: j_def)
  have "[j..<17] = j # [Suc j..<17]" using j(2) by (simp add: upt_rec)
  moreover have "(2 :: u64) ^ j \<le> 65536"
  proof -
    have "(2 :: nat) ^ j \<le> 2 ^ 16" using j(2) by (intro power_increasing) simp_all
    moreover have "unat ((2 :: u64) ^ j) = 2 ^ j" using j(2) by (intro unat_pow2) simp
    ultimately show ?thesis by (simp add: word_le_nat_alt)
  qed
  moreover have "block_loop run (2 ^ Suc j) w = run_blocks run (map (\<lambda>i. 2 ^ i) [Suc j..<17]) w" for w
    using Suc.IH [of w] Suc.prems unfolding j(1) by simp
  ultimately show ?case
    unfolding j_def [symmetric]
    by (subst block_loop.simps) (simp add: mult.commute [of _ 2])
qed

text \<open>The loop over a table in two parts.\<close>

lemma cipher_loop_append:
  "cipher_loop run (xs @ ys) w = cipher_loop run xs w \<bind> cipher_loop run ys"
proof (induction xs arbitrary: w)
  case (Cons x xs)
  then show ?case by (cases x) simp
qed simp

lemma block_loop_all: "block_loop run 1 w = run_blocks run block_sizes w"
  using block_loop_sizes [of 17 run w] by (simp add: block_sizes_def)

text \<open>Every size divides 512 MiB, and the number of rounds fits the loop counter.\<close>

lemma block_sizes_ok:
  assumes "n \<in> set block_sizes"
  shows "n \<noteq> 0" and "unat n \<le> 65536" and "unat (536870912 div n) * unat n = 536870912"
    and "\<not> 536870912 div n > UINT_MAX"
proof -
  obtain i where i: "i < 17" "n = 2 ^ i" using assms by (auto simp: block_sizes_def)
  have n: "unat n = 2 ^ i" unfolding i(2) using i(1) by (intro unat_pow2) simp
  then show "n \<noteq> 0" by (metis power_not_zero unat_0 zero_neq_numeral)
  have "(2 :: nat) ^ i \<le> 2 ^ 16" using i(1) by (intro power_increasing) simp_all
  then show "unat n \<le> 65536" by (simp add: n)
  have "(536870912 :: nat) = 2 ^ (29 - i) * 2 ^ i" using i(1) by (simp flip: power_add)
  then have "(2 :: nat) ^ i dvd 536870912" by (metis dvd_triv_right)
  then show "unat (536870912 div n) * unat n = 536870912" by (simp add: unat_div n)
  have "unat (536870912 div n) \<le> 536870912" by (simp add: unat_div n)
  then show "\<not> 536870912 div n > UINT_MAX" by (simp add: word_less_nat_alt)
qed

subsection \<open>Programs that measure block sizes\<close>

text \<open>What the loops print when the first measurement starts with clock reading \<open>k\<close>.\<close>

fun block_lines :: "(nat \<Rightarrow> timespec option) \<Rightarrow> nat \<Rightarrow> u64 list \<Rightarrow> string" where
  "block_lines clock k [] = []"
| "block_lines clock k (n # ns) =
     block_line n (shown_rate clock k) @ block_lines clock (k + 2) ns"

fun cipher_text :: "(nat \<Rightarrow> timespec option) \<Rightarrow> nat \<Rightarrow> string list \<Rightarrow> string" where
  "cipher_text clock k [] = []"
| "cipher_text clock k (name # names) =
     block_header name @ block_lines clock k block_sizes @ rule_line @ cipher_text clock (k + 34) names"

text \<open>
  \<open>advanced w0 k out w\<close>: the world \<open>w\<close> is \<open>w0\<close> after \<open>k\<close> readings of the clock and the
  output \<open>out\<close>, with the same heap.
\<close>

definition advanced :: "('s, 'o, 'l) world \<Rightarrow> nat \<Rightarrow> string \<Rightarrow> ('s, 'o, 'l) world \<Rightarrow> bool" where
  "advanced w0 k out w \<longleftrightarrow> owned w0 [] w \<and> w_heap w = w_heap w0 \<and> w_oom w = w_oom w0 \<and>
     w_clock w = w_clock w0 \<and> w_reads w = w_reads w0 + k \<and> w_out w = w_out w0 @ out \<and>
     w_err w = w_err w0"

lemma advanced_refl: "fresh w \<Longrightarrow> advanced w 0 [] w"
  by (simp add: advanced_def owned_refl)

lemma advanced_fresh: "advanced w0 k out w \<Longrightarrow> fresh w"
  by (simp add: advanced_def owned_def)

lemma advanced_print: "advanced w0 k out w \<Longrightarrow> advanced w0 k (out @ s) (print_out s w)"
  by (simp add: advanced_def print_out_def)

lemma advanced_trans:
  "advanced w0 k out w \<Longrightarrow> advanced w j out' w' \<Longrightarrow> advanced w0 (k + j) (out @ out') w'"
  by (auto simp: advanced_def owned_def)

definition usable :: "('s, 'o, 'l) world \<Rightarrow> bool" where
  "usable w \<longleftrightarrow> fresh w \<and> steady (w_clock w) \<and> (\<forall>n. \<not> w_oom w n)"

lemma usable_advanced: "usable w0 \<Longrightarrow> advanced w0 k out w \<Longrightarrow> usable w"
  by (simp add: usable_def advanced_def owned_def)

locale block_bench =
  fixes run :: "'k \<Rightarrow> u64 \<Rightarrow> ('s, 'o, 'l) world \<Rightarrow> (u64 \<times> ('s, 'o, 'l) world) option"
    and fits :: "'k \<Rightarrow> bool"
  assumes bench:
    "fits key \<Longrightarrow> usable w \<Longrightarrow> n \<in> set block_sizes \<Longrightarrow> succeeds (run key n w)
      (\<lambda>(rate, w'). advanced w 2 [] w' \<and> rate = shown_rate (w_clock w) (w_reads w))"
begin

lemma run_blocks_ok:
  assumes "fits key" and "usable w" and "set ns \<subseteq> set block_sizes"
  shows "succeeds (run_blocks (run key) ns w)
    (advanced w (2 * length ns) (block_lines (w_clock w) (w_reads w) ns))"
  using assms(2,3)
proof (induction ns arbitrary: w)
  case Nil
  then show ?case by (simp add: advanced_refl usable_def)
next
  case (Cons n ns)
  from bench [OF assms(1) Cons.prems(1), of n] Cons.prems(2) obtain w1 where
    run: "run key n w = Some (shown_rate (w_clock w) (w_reads w), w1)" "advanced w 2 [] w1"
    by (auto elim!: succeedsE)
  let ?line = "block_line n (shown_rate (w_clock w) (w_reads w))"
  let ?w2 = "print_out ?line w1"
  have a: "advanced w 2 ?line ?w2" using advanced_print [OF run(2), of ?line] by simp
  then have c: "w_clock ?w2 = w_clock w" "w_reads ?w2 = w_reads w + 2"
    by (simp_all add: advanced_def)
  have "usable ?w2" using Cons.prems(1) a by (rule usable_advanced)
  then have "succeeds (run_blocks (run key) ns ?w2)
      (advanced ?w2 (2 * length ns) (block_lines (w_clock w) (w_reads w + 2) ns))"
    using Cons.IH [of ?w2] Cons.prems(2) c by simp
  then show ?case
    using run(1) advanced_trans [OF a] by (auto elim!: succeeds_mono)
qed

lemma cipher_loop_ok:
  assumes "\<forall>key\<in>snd ` set table. fits key" and "usable w"
  shows "succeeds (cipher_loop run table w)
    (advanced w (34 * length table) (cipher_text (w_clock w) (w_reads w) (map fst table)))"
  using assms
proof (induction table arbitrary: w)
  case Nil
  then show ?case by (simp add: advanced_refl usable_def)
next
  case (Cons entry table)
  obtain name key where e: "entry = (name, key)" by (cases entry)
  have fits: "fits key" using Cons.prems(1) by (simp add: e)
  let ?w1 = "print_out (block_header name) w"
  have "fresh w" using Cons.prems(2) by (simp add: usable_def)
  from advanced_print [OF advanced_refl [OF this], of "block_header name"]
  have a1: "advanced w 0 (block_header name) ?w1" by simp
  then have c1: "w_clock ?w1 = w_clock w" "w_reads ?w1 = w_reads w" by (simp_all add: advanced_def)
  have "usable ?w1" using Cons.prems(2) a1 by (rule usable_advanced)
  from run_blocks_ok [OF fits this order_refl] obtain w2 where
    w2: "run_blocks (run key) block_sizes ?w1 = Some w2"
      "advanced ?w1 34 (block_lines (w_clock w) (w_reads w) block_sizes) w2"
    by (auto simp: c1 block_sizes_def elim!: succeedsE)
  let ?w3 = "print_out rule_line w2"
  have a3: "advanced w 34 (block_header name @ block_lines (w_clock w) (w_reads w) block_sizes @ rule_line)
      ?w3"
    using advanced_print [OF advanced_trans [OF a1 w2(2)], of rule_line] by simp
  then have c3: "w_clock ?w3 = w_clock w" "w_reads ?w3 = w_reads w + 34"
    by (simp_all add: advanced_def)
  have "usable ?w3" using Cons.prems(2) a3 by (rule usable_advanced)
  then have "succeeds (cipher_loop run table ?w3)
      (advanced ?w3 (34 * length table) (cipher_text (w_clock w) (w_reads w + 34) (map fst table)))"
    using Cons.IH [of ?w3] Cons.prems(1) c3 by simp
  then show ?case
    using w2(1) advanced_trans [OF a3] by (auto simp: e block_loop_all elim!: succeeds_mono)
qed

end

subsection \<open>A measurement\<close>

text \<open>Calls whose results are ignored.\<close>

lemma bind_any:
  assumes "has_obj c w" and "touched S w w1" and "c \<in> S"
    and "\<And>r w2. touched S w w2 \<Longrightarrow> succeeds (g (r, w2)) Q"
  shows "succeeds (on_obj c f w1 \<bind> g) Q"
  unfolding succeeds_bind by (rule step_obj [OF assms(1-3)]) (rule assms(4))

lemma time_now_some:
  "w_clock w (w_reads w) = Some ts \<Longrightarrow>
   time_now w = Some (word_of_int (micros ts), w\<lparr>w_reads := Suc (w_reads w)\<rparr>)"
  by (simp add: time_now_micros)

lemma has_reads [simp]:
  "has_bytes p n (w\<lparr>w_reads := k\<rparr>) = has_bytes p n w"
  "has_room p n (w\<lparr>w_reads := k\<rparr>) = has_room p n w"
  "has_obj p (w\<lparr>w_reads := k\<rparr>) = has_obj p w"
  by (simp_all add: has_bytes_def has_room_def has_obj_def)

lemma advanced_end:
  assumes "owned w [] w'" and "fresh w" and "io w' = io (w\<lparr>w_reads := w_reads w + k\<rparr>)"
  shows "advanced w k [] w'"
  using assms owned_Nil_heap [OF assms(1,2)] by (simp add: advanced_def io_def)

text \<open>Rounds between two readings of the clock.\<close>

lemma timed_rounds:
  assumes "w_clock w (w_reads w) = Some a" and "w_clock w (Suc (w_reads w)) = Some b"
    and "\<And>w1. w1 = w\<lparr>w_reads := Suc (w_reads w)\<rparr> \<Longrightarrow> succeeds (rounds w1) (touched S w1)"
  obtains w1 w2 w3 where "time_now w = Some (word_of_int (micros a), w1)" "rounds w1 = Some w2"
    "time_now w2 = Some (word_of_int (micros b), w3)" "io w3 = io (w\<lparr>w_reads := w_reads w + 2\<rparr>)"
    "\<And>w0 ps. owned w0 ps w \<Longrightarrow> S \<subseteq> set ps \<Longrightarrow> owned w0 ps w3"
    "\<And>p n. has_bytes p n w \<Longrightarrow> has_bytes p n w3"
    "\<And>p n. has_room p n w \<Longrightarrow> has_room p n w3" "\<And>p. has_obj p w \<Longrightarrow> has_obj p w3"
proof -
  define w1 where "w1 = w\<lparr>w_reads := Suc (w_reads w)\<rparr>"
  from assms(3) [OF w1_def] obtain w2 where r: "rounds w1 = Some w2" "touched S w1 w2"
    by (auto elim!: succeedsE)
  define w3 where "w3 = w2\<lparr>w_reads := Suc (Suc (w_reads w))\<rparr>"
  note io2 = io_eqD [OF touched_io [OF r(2)]]
  show thesis
  proof (rule that [of w1 w2 w3])
    show "time_now w = Some (word_of_int (micros a), w1)"
      using time_now_some [OF assms(1)] by (simp add: w1_def)
    show "time_now w2 = Some (word_of_int (micros b), w3)"
      using time_now_some [of w2 b] assms(2) io2 by (simp add: w1_def w3_def)
    show "io w3 = io (w\<lparr>w_reads := w_reads w + 2\<rparr>)"
      using io2 by (simp add: io_def w1_def w3_def)
    show "owned w0 ps w3" if "owned w0 ps w" "S \<subseteq> set ps" for w0 ps
      using touched_owned [OF r(2), of w0 ps] that by (simp add: w1_def w3_def)
    show "has_bytes p n w3" if "has_bytes p n w" for p n
      using has_bytes_touched [OF _ r(2), of p n] that by (simp add: w1_def w3_def)
    show "has_room p n w3" if "has_room p n w" for p n
      using has_room_touched [OF _ r(2), of p n] that by (simp add: w1_def w3_def)
    show "has_obj p w3" if "has_obj p w" for p
      using has_obj_touched [OF _ r(2), of p] that by (simp add: w1_def w3_def)
  qed (rule r(1))
qed

subsection \<open>Properties\<close>

text \<open>C30: the rate of the block benchmarks is the exact quotient, rounded down, of bits and time in
  units of \<open>2 ^ 20\<close> per second, as long as neither product wraps around; a measurement that takes
  less than one tick of the clock is a division by zero.\<close>

theorem block_rate_exact:
  assumes "unat total_size * 8000000 < 2 ^ 64" and "unat duration * 1048576 < 2 ^ 64"
  shows "block_rate total_size duration = (if duration = 0 then None
    else Some (of_nat (unat total_size * 8000000 div (unat duration * 1048576))))"
proof (cases "duration = 0")
  case True
  then show ?thesis by (simp add: block_rate_def)
next
  case False
  then show ?thesis using block_rate_value [OF assms False] by simp
qed

text \<open>512 MiB in 1.5 seconds.\<close>

theorem block_rate_exact_witness:
  "block_rate 536870912 1500000 = (if (1500000 :: u64) = 0 then None
    else Some (of_nat (unat (536870912 :: u64) * 8000000 div (unat (1500000 :: u64) * 1048576))))"
  by (rule block_rate_exact) simp_all

text \<open>C29: the loop over the block sizes ends, and measures exactly the 17 powers of two from 1 to
  65536, in this order; each divides the 512 MiB that are processed, so none is cut short, and
  the number of rounds fits the 32-bit loop counter.\<close>

theorem block_loop_sweep:
  "block_loop run 1 w = run_blocks run (map (\<lambda>i. 2 ^ i) [0..<17]) w \<and>
   list_all (\<lambda>n. unat (536870912 div n) * unat n = 536870912 \<and> \<not> 536870912 div n > UINT_MAX)
     (map (\<lambda>i. 2 ^ i) [0..<17])"
  using block_loop_all [of run w] block_sizes_ok
  unfolding block_sizes_def list_all_iff by blast

end
