(* ===== verification/Legacy_Symmetric.thy ===== *)
theory Legacy_Symmetric
  imports Legacy_Bench Aead_Calls
begin

text \<open>
  \<^verbatim>\<open>cryptobench.c\<close> and \<^verbatim>\<open>cryptobench-aegis.c\<close>: 512 MiB are encrypted in place in blocks of
  growing size. The first uses the EVP functions, of the record \<open>evp_lib\<close>; the second the
  \<^verbatim>\<open>EVP_AEAD\<close> functions, of the record \<open>evp_aead_lib\<close>, with a context on the stack that is never
  cleaned up. Neither looks at a return value: a call on a \<^verbatim>\<open>NULL\<close> context and an access through
  a \<^verbatim>\<open>NULL\<close> buffer are undefined. The loop counter has 32 bits, so with more rounds than that the
  loop does not end.

  The initialisation vectors are arrays of 12 bytes. The EVP functions read as many bytes from
  them as the cipher asks for, and CBC asks for 16. \<open>block_main_output\<close> shows what this does to
  the first program.
\<close>

subsection \<open>The EVP interface\<close>

definition zeros :: "nat \<Rightarrow> bytes" where
  "zeros n = replicate n 0"

text \<open>
  The bytes that \<^verbatim>\<open>EVP_EncryptInit_ex\<close> reads from \<^verbatim>\<open>iv[12]\<close>: the length of the initialisation
  vector of the cipher, \<open>iv_length\<close>, is a parameter; a context without a cipher reads none.
\<close>

definition read_iv :: "('k \<Rightarrow> nat) \<Rightarrow> 'k option \<Rightarrow> bytes option" where
  "read_iv iv_length cipher =
     (case cipher of
        None \<Rightarrow> Some []
      | Some k \<Rightarrow> if iv_length k \<le> 12 then Some (take (iv_length k) (zeros 12)) else None)"

text \<open>The calls of one round; an update with \<^verbatim>\<open>NULL\<close> as output writes nothing.\<close>

fun block_rounds ::
  "('k, 'c, 'l) evp_lib \<Rightarrow> bytes option \<Rightarrow> ptr \<Rightarrow> ptr \<Rightarrow> nat \<Rightarrow> nat \<Rightarrow> ('k, 'c, 'l) aead_world \<Rightarrow>
   ('k, 'c, 'l) aead_world option" where
  "block_rounds L iv ctx buf block_size 0 w = Some w"
| "block_rounds L iv ctx buf block_size (Suc rounds) w = do {
     iv_bytes \<leftarrow> iv;
     (_, w) \<leftarrow> on_obj ctx (evp_enc_init L None None (Some iv_bytes)) w;
     (_, w) \<leftarrow> on_obj ctx (evp_enc_update L False (zeros 13)) w;
     inp \<leftarrow> load buf 0 block_size w;
     (_, _, w) \<leftarrow> call_writing ctx buf 0 (evp_enc_update L True inp) w;
     (_, _, w) \<leftarrow> call_writing ctx buf 0 (evp_enc_final L) w;
     block_rounds L iv ctx buf block_size rounds w
   }"

definition block_bench_run ::
  "('k, 'c, 'l) evp_lib \<Rightarrow> ('k \<Rightarrow> nat) \<Rightarrow> 'k option \<Rightarrow> u64 \<Rightarrow> u64 \<Rightarrow> ('k, 'c, 'l) aead_world \<Rightarrow>
   (u64 \<times> ('k, 'c, 'l) aead_world) option" where
  "block_bench_run L iv_length cipher total_size block_size w = do {
     rounds \<leftarrow> (if block_size = 0 then None else Some (total_size div block_size));
     let (ctx, w) = EVP_CIPHER_CTX_new L w;
     (_, w) \<leftarrow> on_obj ctx (evp_enc_init L cipher (Some (zeros 32)) None) w;
     let (buf, w) = calloc (block_size + 16) 1 w;
     (start, w) \<leftarrow> time_now w;
     w \<leftarrow> (if rounds > UINT_MAX then None
           else block_rounds L (read_iv iv_length cipher) ctx buf (unat block_size) (unat rounds) w);
     (stop, w) \<leftarrow> time_now w;
     let duration = stop - start;
     w \<leftarrow> free buf w;
     w \<leftarrow> EVP_CIPHER_CTX_free L ctx w;
     rate \<leftarrow> block_rate total_size duration;
     Some (rate, w)
   }"

text \<open>The two CBC ciphers are not part of \<open>evp_lib\<close>, so they are arguments.\<close>

definition block_ciphers ::
  "('k, 'c, 'l) evp_lib \<Rightarrow> 'k option \<Rightarrow> 'k option \<Rightarrow> (string \<times> 'k option) list" where
  "block_ciphers L cbc128 cbc256 =
     [(''AES-128-GCM'', evp_aes_128_gcm L), (''AES-256-GCM'', evp_aes_256_gcm L),
      (''AES-128-CBC'', cbc128), (''AES-256-CBC'', cbc256)]"

definition block_main ::
  "('k, 'c, 'l) evp_lib \<Rightarrow> ('k \<Rightarrow> nat) \<Rightarrow> 'k option \<Rightarrow> 'k option \<Rightarrow> ('k, 'c, 'l) aead_world \<Rightarrow>
   (int \<times> ('k, 'c, 'l) aead_world) option" where
  "block_main L iv_length cbc128 cbc256 w = do {
     w \<leftarrow> cipher_loop (\<lambda>cipher. block_bench_run L iv_length cipher (512 * 1024 * 1024))
       (block_ciphers L cbc128 cbc256) w;
     Some (0, w)
   }"

subsection \<open>The EVP_AEAD interface\<close>






subsection \<open>The rounds stay inside the buffer\<close>

text \<open>
  An update of a block cipher writes less than a block more than its input, its final call at
  most a block, of 16 bytes; and a context can be had.
\<close>

definition block_lib_ok :: "('k, 'c, 'l) evp_lib \<Rightarrow> bool" where
  "block_lib_ok L \<longleftrightarrow>
     (\<forall>inp x l r outl bs x' l'. evp_enc_update L True inp x l = ((r, outl, bs), x', l') \<longrightarrow>
        length bs < length inp + 16) \<and>
     (\<forall>x l r outl bs x' l'. evp_enc_final L x l = ((r, outl, bs), x', l') \<longrightarrow> length bs \<le> 16) \<and>
     (\<forall>l. fst (evp_ctx_new L l) \<noteq> None)"

definition iv_fits :: "('k \<Rightarrow> nat) \<Rightarrow> 'k option \<Rightarrow> bool" where
  "iv_fits iv_length cipher \<longleftrightarrow> (case cipher of None \<Rightarrow> True | Some k \<Rightarrow> iv_length k \<le> 12)"

lemma read_iv_fits: "iv_fits iv_length cipher \<longleftrightarrow> read_iv iv_length cipher \<noteq> None"
  by (auto simp: iv_fits_def read_iv_def split: option.split)


lemma bind_call_writing:
  assumes "has_obj c w" and "has_room dst m w" and "touched S w w1" and "c \<in> S" and "dst \<in> S"
    and "\<And>x l r outl bs x' l'. f x l = ((r, outl, bs), x', l') \<Longrightarrow> length bs \<le> m"
    and "\<And>r len w2. touched S w w2 \<Longrightarrow> succeeds (g (r, len, w2)) Q"
  shows "succeeds (call_writing c dst 0 f w1 \<bind> g) Q"
  unfolding call_writing_def succeeds_bind
proof (rule step_obj [OF assms(1,3,4)], clarsimp)
  fix r outl bs w2 x l x' l'
  assume t: "touched S w w2" "touched S w1 w2" and f: "f x l = ((r, outl, bs), x', l')"
  show "succeeds (store dst 0 bs w2) (\<lambda>w. succeeds (g (r, outl, w)) Q)"
    by (rule step_store [OF assms(2) t(1) assms(5)]) (use assms(6) [OF f] assms(7) in simp_all)
qed

lemma block_rounds_ok:
  assumes "block_lib_ok L" and obj: "has_obj ctx w" and bytes: "has_bytes buf (n + 16) w"
    and "touched {ctx, buf} w w1"
  shows "succeeds (block_rounds L (Some iv) ctx buf n rounds w1) (touched {ctx, buf} w)"
  using assms(4)
proof (induction rounds arbitrary: w1)
  case (Suc rounds)
  note lib = assms(1) [unfolded block_lib_ok_def]
  note room = has_bytes_room [OF bytes]
  have up: "length bs \<le> n + 16"
    if "length inp = n" "evp_enc_update L True inp x l = ((r, outl, bs), x', l')"
    for inp x l r outl bs x' l'
    using lib that by (meson less_imp_le)
  have fin: "length bs \<le> n + 16"
    if "evp_enc_final L x l = ((r, outl, bs), x', l')" for x l r outl bs x' l'
    using lib that by (meson trans_le_add2)
  show ?case
    unfolding block_rounds.simps
    by (simp only: bind.bind_lunit, rule bind_any [OF obj Suc.prems], simp, simp only: prod.case,
        rule bind_any [OF obj], assumption, simp, simp only: prod.case,
        rule bind_load [OF bytes], assumption, simp,
        rule bind_call_writing [OF obj room], assumption, simp, simp, erule (1) up,
        simp only: prod.case,
        rule bind_call_writing [OF obj room], assumption, simp, simp, erule fin,
        simp only: prod.case, rule Suc.IH)
qed simp


subsection \<open>One measurement\<close>

lemma calloc_not_NULL:
  "(\<forall>k. \<not> w_oom w k) \<Longrightarrow> calloc n 1 w = (p, w') \<Longrightarrow> p \<noteq> NULL"
  by (auto simp: calloc_def alloc_def place_def Let_def split: if_splits)

text \<open>The sum of a block size and the room for the tag does not wrap around.\<close>

lemma block_room:
  assumes "n \<in> set block_sizes"
  shows "unat (n + 16) = unat n + 16"
proof -
  have "unat n + unat (16 :: u64) < 2 ^ 64" using block_sizes_ok(2) [OF assms] by simp
  from unat_add_exact [OF this] show ?thesis by simp
qed

text \<open>The readings of the clock before and after the rounds.\<close>

lemma usable_clock:
  assumes "usable w"
  obtains a b where "w_clock w (w_reads w) = Some a" and "w_clock w (Suc (w_reads w)) = Some b"
    and "block_rate 536870912 (word_of_int (micros b) - word_of_int (micros a)) =
      Some (shown_rate (w_clock w) (w_reads w))"
proof -
  have s: "steady (w_clock w)" using assms by (simp add: usable_def)
  obtain a b where c: "w_clock w (w_reads w) = Some a" "w_clock w (Suc (w_reads w)) = Some b"
    using steadyD [OF s] by blast
  show thesis by (rule that [OF c block_rate_shown [OF s c]])
qed

lemma block_bench_run_ok:
  assumes fit: "block_lib_ok L \<and> iv_fits iv_length cipher" and "usable w"
    and "n \<in> set block_sizes"
  shows "succeeds (block_bench_run L iv_length cipher 536870912 n w)
    (\<lambda>(rate, w'). advanced w 2 [] w' \<and> rate = shown_rate (w_clock w) (w_reads w))"
proof -
  obtain iv where iv: "read_iv iv_length cipher = Some iv" using fit by (auto simp: read_iv_fits)
  have lib: "block_lib_ok L" using fit by simp
  note n = block_sizes_ok [OF assms(3)]
  have fresh: "fresh w" and oom: "\<forall>k. \<not> w_oom w k" using assms(2) by (simp_all add: usable_def)
  obtain a b where clock: "w_clock w (w_reads w) = Some a" "w_clock w (Suc (w_reads w)) = Some b"
    and rate: "block_rate 536870912 (word_of_int (micros b) - word_of_int (micros a)) =
      Some (shown_rate (w_clock w) (w_reads w))"
    by (rule usable_clock [OF assms(2)])
  obtain ctx w1 where new: "EVP_CIPHER_CTX_new L w = (ctx, w1)" by (cases "EVP_CIPHER_CTX_new L w")
  note c = ctx_new_ok [OF new owned_refl [OF fresh]]
  have "ctx \<noteq> NULL"
    using new lib by (auto simp: EVP_CIPHER_CTX_new_def block_lib_ok_def new_obj_def place_def
        Let_def split: prod.splits option.splits) (metis fst_conv option.distinct(1))
  then have obj1: "has_obj ctx w1" by (rule c(2))
  then obtain x where "lookup ctx w1 = Some (Obj x)" by (auto simp: has_obj_def)
  from on_obj_ok [OF this, of "evp_enc_init L cipher (Some (zeros 32)) None"] obtain r w2 where
    init: "on_obj ctx (evp_enc_init L cipher (Some (zeros 32)) None) w1 = Some (r, w2)"
    and t2: "touched {ctx} w1 w2" by (auto elim!: succeedsE)
  have own2: "owned w [ctx] w2" using touched_owned [OF t2 c(1)] by simp
  have io2: "io w2 = io w" using touched_io [OF t2] c(5) by simp
  obtain buf w3 where buf: "calloc (n + 16) 1 w2 = (buf, w3)" by (cases "calloc (n + 16) 1 w2")
  note k = calloc_ok [OF own2 buf]
  have "buf \<noteq> NULL" using calloc_not_NULL [OF _ buf] oom io_eqD(1) [OF io2] by simp
  then have bytes: "has_bytes buf (unat n + 16) w3" using k(2) block_room [OF assms(3)] by simp
  have obj3: "has_obj ctx w3" using has_kept(3) [OF k(3,4)] has_obj_touched [OF obj1 t2] .
  have io3: "io w3 = io w" using k(5) io2 by simp
  note clock3 = clock [folded io_eqD(2,3) [OF io3]]
  obtain w4 w5 w6 where timed: "time_now w3 = Some (word_of_int (micros a), w4)"
      "block_rounds L (Some iv) ctx buf (unat n) (unat (536870912 div n)) w4 = Some w5"
      "time_now w5 = Some (word_of_int (micros b), w6)"
    and w6: "io w6 = io (w3\<lparr>w_reads := w_reads w3 + 2\<rparr>)" "owned w [buf, ctx] w6"
      "has_bytes buf (unat n + 16) w6" "has_obj ctx w6"
    by (rule timed_rounds [OF clock3, of "block_rounds L (Some iv) ctx buf (unat n) (unat (536870912 div n))"
          "{ctx, buf}"], rule block_rounds_ok [OF lib]) (use k(1) bytes obj3 in auto)
  from owned_free [OF w6(2)] bytes_not_obj w6(3) obtain w7 where
    free: "free buf w6 = Some w7" "owned w [ctx] w7" "lookup ctx w7 = lookup ctx w6" "io w7 = io w6"
    by (auto elim!: succeedsE)
  from ctx_free_ok [OF free(2), of L] free(3) w6(4) obtain w8 where
    end8: "EVP_CIPHER_CTX_free L ctx w7 = Some w8" "owned w [] w8" "io w8 = io w7"
    by (auto simp: has_obj_def elim!: succeedsE)
  have "io w8 = io (w\<lparr>w_reads := w_reads w + 2\<rparr>)"
    using end8(3) free(4) w6(1) io3 by (simp add: io_def)
  from advanced_end [OF end8(2) fresh this]
  show ?thesis
    using n(1,4) iv new init buf timed free(1) end8(1) rate
    by (simp add: block_bench_run_def)
qed

interpretation block: block_bench "\<lambda>cipher. block_bench_run L iv_length cipher 536870912"
    "\<lambda>cipher. block_lib_ok L \<and> iv_fits iv_length cipher"
  for L :: "('k, 'c, 'l) evp_lib" and iv_length :: "'k \<Rightarrow> nat"
  by unfold_locales (rule block_bench_run_ok)




text \<open>A cipher with a longer initialisation vector is read past the end of the array.\<close>

lemma block_rounds_overread: "block_rounds L None ctx buf n (Suc k) w = None"
  by simp

lemma block_bench_overread:
  assumes "\<not> iv_fits iv_length cipher" and "n \<in> set block_sizes"
  shows "block_bench_run L iv_length cipher 536870912 n w = None"
proof -
  note n = block_sizes_ok [OF assms(2)]
  have iv: "read_iv iv_length cipher = None" using assms(1) by (simp add: read_iv_fits)
  have "unat (536870912 div n) \<noteq> 0" using n(3) by (metis mult_0 numeral_neq_zero)
  then obtain k where k: "unat (536870912 div n) = Suc k" by (cases "unat (536870912 div n)") auto
  show ?thesis
    using n(1,4) by (auto simp: block_bench_run_def iv k Let_def split: prod.splits bind_splits)
qed

lemma cipher_loop_overread:
  assumes "\<not> iv_fits iv_length cipher"
  shows "cipher_loop (\<lambda>cipher. block_bench_run L iv_length cipher 536870912) ((name, cipher) # table) w =
    None"
proof -
  obtain ns where ns: "block_sizes = 1 # ns"
    by (simp add: block_sizes_def upt_conv_Cons)
  have "1 \<in> set block_sizes" unfolding ns by simp
  from block_bench_overread [OF assms this, of L] show ?thesis by (simp add: block_loop_all ns)
qed

subsection \<open>Properties\<close>

text \<open>For the examples: libraries that copy their input, and a world whose clock ticks in seconds.\<close>

definition copy_lib :: "(nat, unit, unit) evp_lib" where
  "copy_lib =
     \<lparr>openssl_version = ''copy'', evp_aes_128_gcm = Some 0, evp_aes_256_gcm = Some 1,
      evp_chacha20_poly1305 = Some 2, evp_ctx_new = (\<lambda>l. (Some (), l)), evp_ctx_free = (\<lambda>_ l. l),
      evp_enc_init = (\<lambda>_ _ _ x l. (1, x, l)), evp_dec_init = (\<lambda>_ _ _ x l. (1, x, l)),
      evp_set_ivlen = (\<lambda>_ x l. (1, x, l)),
      evp_enc_update = (\<lambda>_ bs x l. ((1, int (length bs), bs), x, l)),
      evp_dec_update = (\<lambda>_ bs x l. ((1, int (length bs), bs), x, l)),
      evp_enc_final = (\<lambda>x l. ((1, 0, []), x, l)), evp_dec_final = (\<lambda>x l. ((1, 0, []), x, l)),
      evp_get_tag = (\<lambda>n x l. ((1, replicate n 0), x, l)), evp_set_tag = (\<lambda>_ x l. (1, x, l)),
      crypto_memcmp = (\<lambda>a b. if a = b then 0 else 1)\<rparr>"


definition second_world :: "(nat, unit, unit) aead_world" where
  "second_world = start_world (\<lambda>_. False) (\<lambda>k. Some \<lparr>tv_sec = int k + 1, tv_nsec = 0\<rparr>) ()"

lemma second_world_usable: "usable second_world"
  by (simp add: usable_def second_world_def start_world_def fresh_def steady_def elapsed_us_def
      micros_def)

text \<open>C25: with memory, a context and a clock on which every measurement takes at least a
  microsecond, \<^verbatim>\<open>cryptobench\<close> measures its two GCM ciphers without undefined behaviour, leaves no
  memory behind, and prints exactly this: for each its name, the header, one line for each of the
  17 block sizes with the rate of the time between the two readings of the clock that belong to
  it, and the rule. CBC has an initialisation vector of 16 bytes, so the measurement that follows
  reads past the end of \<^verbatim>\<open>iv[12]\<close>: the program as a whole has undefined behaviour.\<close>

theorem block_main_output:
  assumes "block_lib_ok L" and "usable w"
    and "evp_aes_128_gcm L = Some a" and "evp_aes_256_gcm L = Some b" and "iv_length a = 12"
    and "iv_length b = 12" and "iv_length cbc128 = 16"
  shows "\<exists>w'. cipher_loop (\<lambda>cipher. block_bench_run L iv_length cipher (512 * 1024 * 1024))
      (take 2 (block_ciphers L (Some cbc128) cbc256)) w = Some w' \<and>
    w_heap w' = w_heap w \<and> w_err w' = w_err w \<and>
    w_out w' = w_out w @ cipher_text (w_clock w) (w_reads w) [''AES-128-GCM'', ''AES-256-GCM''] \<and>
    block_main L iv_length (Some cbc128) cbc256 w = None"
proof -
  let ?run = "\<lambda>cipher. block_bench_run L iv_length cipher 536870912"
  let ?gcm = "[(''AES-128-GCM'', Some a), (''AES-256-GCM'', Some b)]"
  have table: "block_ciphers L (Some cbc128) cbc256 =
      ?gcm @ (''AES-128-CBC'', Some cbc128) # [(''AES-256-CBC'', cbc256)]"
    using assms(3,4) by (simp add: block_ciphers_def)
  have "\<not> iv_fits iv_length (Some cbc128)" using assms(7) by (simp add: iv_fits_def)
  note cbc = cipher_loop_overread [OF this]
  have "succeeds (cipher_loop ?run ?gcm w)
      (advanced w 68 (cipher_text (w_clock w) (w_reads w) [''AES-128-GCM'', ''AES-256-GCM'']))"
    using block.cipher_loop_ok [of ?gcm L iv_length w] assms by (simp add: iv_fits_def)
  then obtain w1 where w1: "cipher_loop ?run ?gcm w = Some w1"
      "advanced w 68 (cipher_text (w_clock w) (w_reads w) [''AES-128-GCM'', ''AES-256-GCM'']) w1"
    by (rule succeedsE)
  have "block_main L iv_length (Some cbc128) cbc256 w = None"
    unfolding block_main_def table cipher_loop_append by (simp add: w1(1) cbc del: cipher_loop.simps)
  moreover have "take 2 (block_ciphers L (Some cbc128) cbc256) = ?gcm"
    unfolding table by simp
  ultimately show ?thesis
    using w1 by (simp add: advanced_def del: cipher_loop.simps cipher_text.simps)
qed

theorem block_main_output_witness:
  "\<exists>w'. cipher_loop (\<lambda>cipher. block_bench_run copy_lib (\<lambda>k. if k < 2 then 12 else 16) cipher
        (512 * 1024 * 1024)) (take 2 (block_ciphers copy_lib (Some 2) (Some 3))) second_world = Some w' \<and>
    w_heap w' = w_heap second_world \<and> w_err w' = w_err second_world \<and>
    w_out w' = w_out second_world @ cipher_text (w_clock second_world) (w_reads second_world)
      [''AES-128-GCM'', ''AES-256-GCM''] \<and>
    block_main copy_lib (\<lambda>k. if k < 2 then 12 else 16) (Some 2) (Some 3) second_world = None"
proof (rule block_main_output [where a = 0 and b = 1])
  show "block_lib_ok copy_lib" by (auto simp: block_lib_ok_def copy_lib_def)
qed (simp_all add: copy_lib_def second_world_usable)



end
