(* ===== verification/Legacy_Public.thy ===== *)
theory Legacy_Public
  imports Legacy_Bench
begin

text \<open>
  The public-key benchmarks: \<^verbatim>\<open>cryptobench-ecdh.c\<close>, \<^verbatim>\<open>cryptobench-rsa.c\<close> and
  \<^verbatim>\<open>cryptobench-rsa-verification.c\<close>. The library functions are the records \<open>ec_lib\<close> and
  \<open>rsa_lib\<close>; no return value is looked at, and a call on a \<^verbatim>\<open>NULL\<close> object is undefined. An
  RSA operation without padding reads as many bytes as it is told and returns the bytes that it
  writes.
\<close>

subsection \<open>Key agreement\<close>

record ('p, 'k, 'l) ec_lib =
  nid_prime256v1 :: int
  nid_secp384r1 :: int
  ec_key_new :: "int \<Rightarrow> 'l \<Rightarrow> 'k option \<times> 'l"
  ec_generate_key :: "'k \<Rightarrow> 'l \<Rightarrow> int \<times> 'k \<times> 'l"
  ec_public_key :: "'k \<Rightarrow> 'p"
  ec_degree :: "'k \<Rightarrow> u32"
  ec_compute_key :: "nat \<Rightarrow> 'p \<Rightarrow> 'k \<Rightarrow> 'l \<Rightarrow> (int \<times> bytes) \<times> 'k \<times> 'l"
  ec_key_free :: "'k \<Rightarrow> 'l \<Rightarrow> 'l"

definition EC_KEY_new_by_curve_name ::
  "('p, 'k, 'l) ec_lib \<Rightarrow> int \<Rightarrow> ('s, 'k, 'l) world \<Rightarrow> ptr \<times> ('s, 'k, 'l) world" where
  "EC_KEY_new_by_curve_name L nid w =
     (let (x, l) = ec_key_new L nid (w_lib w) in new_obj x (w\<lparr>w_lib := l\<rparr>))"

definition EC_KEY_free ::
  "('p, 'k, 'l) ec_lib \<Rightarrow> ptr \<Rightarrow> ('s, 'k, 'l) world \<Rightarrow> ('s, 'k, 'l) world option" where
  "EC_KEY_free L sk w =
     (case get_obj sk w of
        None \<Rightarrow> free_obj sk w
      | Some x \<Rightarrow> free_obj sk (w\<lparr>w_lib := ec_key_free L x (w_lib w)\<rparr>))"

fun ecdh_rounds ::
  "('p, 'k, 'l) ec_lib \<Rightarrow> ptr \<Rightarrow> nat \<Rightarrow> 'p \<Rightarrow> ptr \<Rightarrow> nat \<Rightarrow> ('s, 'k, 'l) world \<Rightarrow>
   ('s, 'k, 'l) world option" where
  "ecdh_rounds L secret secret_len pk sk 0 w = Some w"
| "ecdh_rounds L secret secret_len pk sk (Suc rounds) w = do {
     ((_, bs), w) \<leftarrow> on_obj sk (ec_compute_key L secret_len pk) w;
     w \<leftarrow> store secret 0 bs w;
     ecdh_rounds L secret secret_len pk sk rounds w
   }"

definition ecdh_bench_run ::
  "('p, 'k, 'l) ec_lib \<Rightarrow> int \<Rightarrow> u32 \<Rightarrow> ('s, 'k, 'l) world \<Rightarrow> (u64 \<times> ('s, 'k, 'l) world) option" where
  "ecdh_bench_run L nid rounds w = do {
     let (sk, w) = EC_KEY_new_by_curve_name L nid w;
     (_, w) \<leftarrow> on_obj sk (ec_generate_key L) w;
     key \<leftarrow> get_obj sk w;
     let pk = ec_public_key L key;
     let field_size = ec_degree L key;
     let secret_len = (ucast ((field_size + 7) div 8) :: u64);
     let (secret, w) = malloc secret_len w;
     (start, w) \<leftarrow> time_now w;
     w \<leftarrow> ecdh_rounds L secret (unat secret_len) pk sk (unat rounds) w;
     (stop, w) \<leftarrow> time_now w;
     let duration = stop - start;
     w \<leftarrow> free secret w;
     w \<leftarrow> EC_KEY_free L sk w;
     rate \<leftarrow> round_rate rounds duration;
     Some (rate, w)
   }"

definition ecdh_curves :: "('p, 'k, 'l) ec_lib \<Rightarrow> (string \<times> int) list" where
  "ecdh_curves L = [(''p256'', nid_prime256v1 L), (''p384'', nid_secp384r1 L)]"

definition ecdh_main ::
  "('p, 'k, 'l) ec_lib \<Rightarrow> ('s, 'k, 'l) world \<Rightarrow> (int \<times> ('s, 'k, 'l) world) option" where
  "ecdh_main L w = do {
     w \<leftarrow> entry_loop (\<lambda>nid. ecdh_bench_run L nid 100000) (ecdh_curves L) w;
     Some (0, w)
   }"

subsection \<open>RSA\<close>

datatype ('r, 'b) rsa_obj = RsaObj 'r | BnObj 'b | PkeyObj ptr

record ('r, 'b, 'l) rsa_lib =
  rsa_new :: "'l \<Rightarrow> 'r option \<times> 'l"
  bn_new :: "'l \<Rightarrow> 'b option \<times> 'l"
  bn_set_word :: "nat \<Rightarrow> 'b \<Rightarrow> 'l \<Rightarrow> int \<times> 'b \<times> 'l"
  rsa_generate_key :: "int \<Rightarrow> 'b \<Rightarrow> 'r \<Rightarrow> 'l \<Rightarrow> int \<times> 'r \<times> 'l"
  pkey_new :: "'l \<Rightarrow> bool \<times> 'l"
  rsa_private_encrypt :: "bytes \<Rightarrow> 'r \<Rightarrow> 'l \<Rightarrow> (int \<times> bytes) \<times> 'r \<times> 'l"
  rsa_public_decrypt :: "bytes \<Rightarrow> 'r \<Rightarrow> 'l \<Rightarrow> (int \<times> bytes) \<times> 'r \<times> 'l"

type_synonym ('s, 'r, 'b, 'l) rsa_world = "('s, ('r, 'b) rsa_obj, 'l) world"

definition on_rsa ::
  "ptr \<Rightarrow> ('r \<Rightarrow> 'l \<Rightarrow> 'x \<times> 'r \<times> 'l) \<Rightarrow> ('s, 'r, 'b, 'l) rsa_world \<Rightarrow>
   ('x \<times> ('s, 'r, 'b, 'l) rsa_world) option" where
  "on_rsa p f w =
     (case get_obj p w of
        Some (RsaObj r) \<Rightarrow>
          let (x, r', l) = f r (w_lib w) in Some (x, (replace p (Obj (RsaObj r')) w)\<lparr>w_lib := l\<rparr>)
      | _ \<Rightarrow> None)"

definition on_bn ::
  "ptr \<Rightarrow> ('b \<Rightarrow> 'l \<Rightarrow> 'x \<times> 'b \<times> 'l) \<Rightarrow> ('s, 'r, 'b, 'l) rsa_world \<Rightarrow>
   ('x \<times> ('s, 'r, 'b, 'l) rsa_world) option" where
  "on_bn p f w =
     (case get_obj p w of
        Some (BnObj b) \<Rightarrow>
          let (x, b', l) = f b (w_lib w) in Some (x, (replace p (Obj (BnObj b')) w)\<lparr>w_lib := l\<rparr>)
      | _ \<Rightarrow> None)"

definition get_bn :: "ptr \<Rightarrow> ('s, 'r, 'b, 'l) rsa_world \<Rightarrow> 'b option" where
  "get_bn p w = (case get_obj p w of Some (BnObj b) \<Rightarrow> Some b | _ \<Rightarrow> None)"

definition EVP_PKEY_get0_RSA :: "ptr \<Rightarrow> ('s, 'r, 'b, 'l) rsa_world \<Rightarrow> ptr option" where
  "EVP_PKEY_get0_RSA p w = (case get_obj p w of Some (PkeyObj rsa) \<Rightarrow> Some rsa | _ \<Rightarrow> None)"

definition rsa_bytes :: "int \<Rightarrow> int" where
  "rsa_bytes modulus_bits = (modulus_bits + 7) sdiv 8"

text \<open>The key: 65537 is \<^verbatim>\<open>RSA_F4\<close>. Nothing of it is released by the programs.\<close>

definition rsa_key_setup ::
  "('r, 'b, 'l) rsa_lib \<Rightarrow> int \<Rightarrow> ('s, 'r, 'b, 'l) rsa_world \<Rightarrow>
   (ptr \<times> ('s, 'r, 'b, 'l) rsa_world) option" where
  "rsa_key_setup L modulus_bits w = do {
     let (x, l) = rsa_new L (w_lib w);
     let (rsa, w) = new_obj (map_option RsaObj x) (w\<lparr>w_lib := l\<rparr>);
     let (y, l) = bn_new L (w_lib w);
     let (e, w) = new_obj (map_option BnObj y) (w\<lparr>w_lib := l\<rparr>);
     (_, w) \<leftarrow> on_bn e (bn_set_word L 65537) w;
     exponent \<leftarrow> get_bn e w;
     (_, w) \<leftarrow> on_rsa rsa (rsa_generate_key L modulus_bits exponent) w;
     let (ok, l) = pkey_new L (w_lib w);
     let (sk, w) = new_obj (if ok then Some (PkeyObj NULL) else None) (w\<lparr>w_lib := l\<rparr>);
     w \<leftarrow> put_obj sk (PkeyObj rsa) w;
     Some (sk, w)
   }"

text \<open>One signature, of the bytes of the array \<^verbatim>\<open>message\<close>.\<close>

definition rsa_sign ::
  "('r, 'b, 'l) rsa_lib \<Rightarrow> nat \<Rightarrow> cells \<Rightarrow> ptr \<Rightarrow> ptr \<Rightarrow> ('s, 'r, 'b, 'l) rsa_world \<Rightarrow>
   ('s, 'r, 'b, 'l) rsa_world option" where
  "rsa_sign L modulus_bytes message signature sk w = do {
     rsa \<leftarrow> EVP_PKEY_get0_RSA sk w;
     from_bytes \<leftarrow> cells_read 0 modulus_bytes message;
     ((_, bs), w) \<leftarrow> on_rsa rsa (rsa_private_encrypt L from_bytes) w;
     store signature 0 bs w
   }"

fun rsa_rounds ::
  "('r, 'b, 'l) rsa_lib \<Rightarrow> nat \<Rightarrow> cells \<Rightarrow> ptr \<Rightarrow> ptr \<Rightarrow> nat \<Rightarrow> ('s, 'r, 'b, 'l) rsa_world \<Rightarrow>
   ('s, 'r, 'b, 'l) rsa_world option" where
  "rsa_rounds L modulus_bytes message signature sk 0 w = Some w"
| "rsa_rounds L modulus_bytes message signature sk (Suc rounds) w = do {
     w \<leftarrow> rsa_sign L modulus_bytes message signature sk w;
     rsa_rounds L modulus_bytes message signature sk rounds w
   }"

definition rsa_bench_run ::
  "('r, 'b, 'l) rsa_lib \<Rightarrow> int \<Rightarrow> u32 \<Rightarrow> ('s, 'r, 'b, 'l) rsa_world \<Rightarrow>
   (u64 \<times> ('s, 'r, 'b, 'l) rsa_world) option" where
  "rsa_bench_run L modulus_bits rounds w = do {
     let modulus_bytes = rsa_bytes modulus_bits;
     (sk, w) \<leftarrow> rsa_key_setup L modulus_bits w;
     let message = replicate 64 (Some 0);
     let (signature, w) = malloc (word_of_int modulus_bytes) w;
     (start, w) \<leftarrow> time_now w;
     w \<leftarrow> rsa_rounds L (nat modulus_bytes) message signature sk (unat rounds) w;
     (stop, w) \<leftarrow> time_now w;
     let duration = stop - start;
     w \<leftarrow> free signature w;
     rate \<leftarrow> round_rate rounds duration;
     Some (rate, w)
   }"

text \<open>The rounds of the verification: the array \<^verbatim>\<open>message\<close> is overwritten by every one.\<close>

fun rsa_verify_rounds ::
  "('r, 'b, 'l) rsa_lib \<Rightarrow> nat \<Rightarrow> cells \<Rightarrow> ptr \<Rightarrow> ptr \<Rightarrow> nat \<Rightarrow> ('s, 'r, 'b, 'l) rsa_world \<Rightarrow>
   ('s, 'r, 'b, 'l) rsa_world option" where
  "rsa_verify_rounds L modulus_bytes message signature sk 0 w = Some w"
| "rsa_verify_rounds L modulus_bytes message signature sk (Suc rounds) w = do {
     rsa \<leftarrow> EVP_PKEY_get0_RSA sk w;
     from_bytes \<leftarrow> load signature 0 modulus_bytes w;
     ((_, bs), w) \<leftarrow> on_rsa rsa (rsa_public_decrypt L from_bytes) w;
     message \<leftarrow> cells_write 0 bs message;
     rsa_verify_rounds L modulus_bytes message signature sk rounds w
   }"

definition rsa_verify_bench_run ::
  "('r, 'b, 'l) rsa_lib \<Rightarrow> int \<Rightarrow> u32 \<Rightarrow> ('s, 'r, 'b, 'l) rsa_world \<Rightarrow>
   (u64 \<times> ('s, 'r, 'b, 'l) rsa_world) option" where
  "rsa_verify_bench_run L modulus_bits rounds w = do {
     let modulus_bytes = rsa_bytes modulus_bits;
     (sk, w) \<leftarrow> rsa_key_setup L modulus_bits w;
     let message = replicate 64 (Some 0);
     let (signature, w) = malloc (word_of_int modulus_bytes) w;
     w \<leftarrow> rsa_sign L (nat modulus_bytes) message signature sk w;
     (start, w) \<leftarrow> time_now w;
     w \<leftarrow> rsa_verify_rounds L (nat modulus_bytes) message signature sk (unat rounds) w;
     (stop, w) \<leftarrow> time_now w;
     let duration = stop - start;
     w \<leftarrow> free signature w;
     rate \<leftarrow> round_rate rounds duration;
     Some (rate, w)
   }"

definition rsa_sizes :: "(string \<times> int) list" where
  "rsa_sizes = [(''RSA 2048'', 2048), (''RSA 3072'', 3072)]"

definition rsa_main ::
  "('r, 'b, 'l) rsa_lib \<Rightarrow> ('s, 'r, 'b, 'l) rsa_world \<Rightarrow> (int \<times> ('s, 'r, 'b, 'l) rsa_world) option" where
  "rsa_main L w = do {
     w \<leftarrow> entry_loop (\<lambda>bits. rsa_bench_run L bits 10000) rsa_sizes w;
     Some (0, w)
   }"

definition rsa_verify_main ::
  "('r, 'b, 'l) rsa_lib \<Rightarrow> ('s, 'r, 'b, 'l) rsa_world \<Rightarrow> (int \<times> ('s, 'r, 'b, 'l) rsa_world) option" where
  "rsa_verify_main L w = do {
     w \<leftarrow> entry_loop (\<lambda>bits. rsa_verify_bench_run L bits 10000) rsa_sizes w;
     Some (0, w)
   }"

subsection \<open>The key agreement stays inside the secret\<close>

text \<open>A key can be had, and the shared secret is written within the length that is passed.\<close>

definition ec_lib_ok :: "('p, 'k, 'l) ec_lib \<Rightarrow> bool" where
  "ec_lib_ok L \<longleftrightarrow> (\<forall>nid l. fst (ec_key_new L nid l) \<noteq> None) \<and>
     (\<forall>n pk x l r bs x' l'. ec_compute_key L n pk x l = ((r, bs), x', l') \<longrightarrow> length bs \<le> n)"

lemma ecdh_rounds_ok:
  assumes "ec_lib_ok L" and obj: "has_obj sk w" and room: "has_room secret n w"
    and "touched {sk, secret} w w1"
  shows "succeeds (ecdh_rounds L secret n pk sk rounds w1) (touched {sk, secret} w)"
  using assms(4)
proof (induction rounds arbitrary: w1)
  case (Suc rounds)
  show ?case
    unfolding ecdh_rounds.simps succeeds_bind
  proof (rule step_obj [OF obj Suc.prems], simp, clarsimp)
    fix r bs w2 x l x' l'
    assume t: "touched {sk, secret} w w2" and f: "ec_compute_key L n pk x l = ((r, bs), x', l')"
    have "length bs \<le> n" using assms(1) f unfolding ec_lib_ok_def by blast
    then show "succeeds (store secret 0 bs w2)
      (\<lambda>w'. succeeds (ecdh_rounds L secret n pk sk rounds w') (touched {sk, secret} w))"
      by (intro step_store [OF room t]) (simp_all add: Suc.IH)
  qed
qed simp

lemma ec_key_new_ok:
  assumes "EC_KEY_new_by_curve_name L nid w = (sk, w1)" and "owned w0 ps w" and "ec_lib_ok L"
  shows "owned w0 (sk # ps) w1" and "has_obj sk w1" and "io w1 = io w"
proof -
  obtain x l where key: "ec_key_new L nid (w_lib w) = (Some x, l)"
    using assms(3) unfolding ec_lib_ok_def by (metis option.exhaust prod.collapse)
  then have new: "new_obj (Some x) (w\<lparr>w_lib := l\<rparr>) = (sk, w1)"
    using assms(1) by (simp add: EC_KEY_new_by_curve_name_def)
  have "owned w0 ps (w\<lparr>w_lib := l\<rparr>)" using assms(2) by simp
  note n = owned_new_obj [OF this new]
  show "owned w0 (sk # ps) w1" and "has_obj sk w1" and "io w1 = io w"
    using n by (auto simp: has_obj_def)
qed

lemma ec_key_free_ok:
  assumes "owned w0 (sk # ps) w" and "has_obj sk w"
  shows "succeeds (EC_KEY_free L sk w) (\<lambda>w'. owned w0 ps w' \<and> io w' = io w)"
proof -
  obtain x where x: "get_obj sk w = Some x" using assms(2) by (auto simp: has_obj_def get_obj_lookup)
  have "succeeds (free_obj sk (w\<lparr>w_lib := ec_key_free L x (w_lib w)\<rparr>))
    (\<lambda>w'. owned w0 ps w' \<and> io w' = io w)"
    by (rule succeeds_mono [OF owned_free_obj [where w = "w\<lparr>w_lib := ec_key_free L x (w_lib w)\<rparr>"]])
      (use assms in \<open>auto simp: has_obj_def\<close>)
  then show ?thesis by (simp add: EC_KEY_free_def x)
qed

lemma malloc_not_NULL:
  "(\<forall>k. \<not> w_oom w k) \<Longrightarrow> malloc n w = (p, w') \<Longrightarrow> p \<noteq> NULL"
  by (auto simp: malloc_def alloc_def place_def Let_def split: if_splits)

text \<open>The operations per second in the time between readings \<open>k\<close> and \<open>k + 1\<close>.\<close>

definition shown_ops :: "(nat \<Rightarrow> timespec option) \<Rightarrow> nat \<Rightarrow> u64" where
  "shown_ops clock k = of_nat (100000000000 div nat (elapsed_us clock k))"

lemma usable_ops:
  assumes "usable w"
  obtains a b where "w_clock w (w_reads w) = Some a" and "w_clock w (Suc (w_reads w)) = Some b"
    and "round_rate 100000 (word_of_int (micros b) - word_of_int (micros a)) =
      Some (shown_ops (w_clock w) (w_reads w))"
proof -
  have s: "steady (w_clock w)" using assms by (simp add: usable_def)
  obtain a b where c: "w_clock w (w_reads w) = Some a" "w_clock w (Suc (w_reads w)) = Some b"
    using steadyD [OF s] by blast
  note d = duration_exact [OF s c]
  have "1 \<le> elapsed_us (w_clock w) (w_reads w)" using s by (simp add: steady_def)
  then have "(word_of_int (micros b) - word_of_int (micros a) :: u64) \<noteq> 0"
    using d by (metis unat_0 nat_0_iff not_one_le_zero order_trans)
  from round_rate_value [OF this, of 100000] d
  have "round_rate 100000 (word_of_int (micros b) - word_of_int (micros a)) =
      Some (shown_ops (w_clock w) (w_reads w))"
    by (simp add: shown_ops_def)
  then show thesis by (rule that [OF c])
qed

lemma ecdh_bench_run_ok:
  assumes "ec_lib_ok L" and "usable w"
  shows "succeeds (ecdh_bench_run L nid 100000 w)
    (\<lambda>(rate, w'). advanced w 2 [] w' \<and> rate = shown_ops (w_clock w) (w_reads w))"
proof -
  have fresh: "fresh w" and oom: "\<forall>k. \<not> w_oom w k" using assms(2) by (simp_all add: usable_def)
  obtain a b where clock: "w_clock w (w_reads w) = Some a" "w_clock w (Suc (w_reads w)) = Some b"
    and rate: "round_rate 100000 (word_of_int (micros b) - word_of_int (micros a)) =
      Some (shown_ops (w_clock w) (w_reads w))"
    by (rule usable_ops [OF assms(2)])
  obtain sk w1 where new: "EC_KEY_new_by_curve_name L nid w = (sk, w1)"
    by (cases "EC_KEY_new_by_curve_name L nid w")
  note k = ec_key_new_ok [OF new owned_refl [OF fresh] assms(1)]
  from k(2) obtain x where "lookup sk w1 = Some (Obj x)" by (auto simp: has_obj_def)
  from on_obj_ok [OF this, of "ec_generate_key L"] obtain r w2 x' where
    gen: "on_obj sk (ec_generate_key L) w1 = Some (r, w2)" "get_obj sk w2 = Some x'"
    and t2: "touched {sk} w1 w2" by (auto simp: get_obj_lookup elim!: succeedsE)
  have own2: "owned w [sk] w2" using touched_owned [OF t2 k(1)] by simp
  have io2: "io w2 = io w" using touched_io [OF t2] k(3) by simp
  let ?len = "ucast ((ec_degree L x' + 7) div 8) :: u64"
  obtain secret w3 where secret: "malloc ?len w2 = (secret, w3)" by (cases "malloc ?len w2")
  note m = malloc_ok [OF own2 secret]
  have "secret \<noteq> NULL" using malloc_not_NULL [OF _ secret] oom io_eqD(1) [OF io2] by simp
  then have room: "has_room secret (unat ?len) w3" by (rule m(2))
  have obj3: "has_obj sk w3" using has_kept(3) [OF m(3,4)] has_obj_touched [OF k(2) t2] .
  have io3: "io w3 = io w" using m(5) io2 by simp
  note clock3 = clock [folded io_eqD(2,3) [OF io3]]
  obtain w4 w5 w6 where timed: "time_now w3 = Some (word_of_int (micros a), w4)"
      "ecdh_rounds L secret (unat ?len) (ec_public_key L x') sk (unat (100000 :: u32)) w4 = Some w5"
      "time_now w5 = Some (word_of_int (micros b), w6)"
    and w6: "io w6 = io (w3\<lparr>w_reads := w_reads w3 + 2\<rparr>)" "owned w [secret, sk] w6"
      "has_room secret (unat ?len) w6" "has_obj sk w6"
    by (rule timed_rounds [OF clock3, of "ecdh_rounds L secret (unat ?len) (ec_public_key L x') sk
            (unat (100000 :: u32))" "{sk, secret}"], rule ecdh_rounds_ok [OF assms(1)])
      (use m(1) room obj3 in auto)
  from owned_free [OF w6(2)] room_not_obj w6(3) obtain w7 where
    free: "free secret w6 = Some w7" "owned w [sk] w7" "lookup sk w7 = lookup sk w6" "io w7 = io w6"
    by (auto elim!: succeedsE)
  have "has_obj sk w7" using free(3) w6(4) by (simp add: has_obj_def)
  from ec_key_free_ok [OF free(2) this, of L] obtain w8 where
    end8: "EC_KEY_free L sk w7 = Some w8" "owned w [] w8" "io w8 = io w7"
    by (auto elim!: succeedsE)
  have "io w8 = io (w\<lparr>w_reads := w_reads w + 2\<rparr>)"
    using end8(3) free(4) w6(1) io3 by (simp add: io_def)
  from advanced_end [OF end8(2) fresh this]
  show ?thesis
    using new gen secret timed free(1) end8(1) rate by (simp add: ecdh_bench_run_def Let_def)
qed

subsection \<open>The key agreement program\<close>

text \<open>What the loop over the table prints when the first measurement starts with reading \<open>k\<close>.\<close>

fun entry_text :: "(nat \<Rightarrow> timespec option) \<Rightarrow> nat \<Rightarrow> string list \<Rightarrow> string" where
  "entry_text clock k [] = []"
| "entry_text clock k (name # names) =
     name @ newline @ dec (unat (shown_ops clock k)) @ newline @ rule_line @
     entry_text clock (k + 2) names"

lemma entry_loop_ok:
  assumes "\<And>key w. usable w \<Longrightarrow> succeeds (run key w)
      (\<lambda>(rate, w'). advanced w 2 [] w' \<and> rate = shown_ops (w_clock w) (w_reads w))"
    and "usable w"
  shows "succeeds (entry_loop run table w)
    (advanced w (2 * length table) (entry_text (w_clock w) (w_reads w) (map fst table)))"
  using assms(2)
proof (induction table arbitrary: w)
  case Nil
  then show ?case by (simp add: advanced_refl usable_def)
next
  case (Cons entry table)
  obtain name key where e: "entry = (name, key)" by (cases entry)
  let ?w1 = "print_out (name @ newline) w" and ?r = "shown_ops (w_clock w) (w_reads w)"
  have "fresh w" using Cons.prems by (simp add: usable_def)
  from advanced_print [OF advanced_refl [OF this], of "name @ newline"]
  have a1: "advanced w 0 (name @ newline) ?w1" by simp
  then have c1: "w_clock ?w1 = w_clock w" "w_reads ?w1 = w_reads w" by (simp_all add: advanced_def)
  have "usable ?w1" using Cons.prems a1 by (rule usable_advanced)
  from assms(1) [OF this, of key] obtain w2 where
    run: "run key ?w1 = Some (?r, w2)" "advanced ?w1 2 [] w2"
    by (auto simp: c1 elim!: succeedsE)
  let ?s = "dec (unat ?r) @ newline @ rule_line"
  have a2: "advanced w 2 (name @ newline @ ?s) (print_out ?s w2)"
    using advanced_print [OF advanced_trans [OF a1 run(2)], of ?s] by (simp add: numeral_2_eq_2)
  then have c2: "w_clock (print_out ?s w2) = w_clock w" "w_reads (print_out ?s w2) = w_reads w + 2"
    by (simp_all add: advanced_def)
  have "usable (print_out ?s w2)" using Cons.prems a2 by (rule usable_advanced)
  then have "succeeds (entry_loop run table (print_out ?s w2)) (advanced (print_out ?s w2)
      (2 * length table) (entry_text (w_clock w) (w_reads w + 2) (map fst table)))"
    using Cons.IH [of "print_out ?s w2"] c2 by simp
  then show ?case
    using run(1) advanced_trans [OF a2] by (auto simp: e elim!: succeeds_mono)
qed

text \<open>C27: with memory, a key and a clock on which every measurement takes at least a microsecond,
  \<^verbatim>\<open>cryptobench-ecdh\<close> has no undefined behaviour, never writes outside the buffer of the shared
  secret, releases its memory, and prints for both curves the name and the operations per second
  of the time between the two readings of the clock that belong to it.\<close>

theorem ecdh_main_output:
  assumes "ec_lib_ok L" and "usable w"
  shows "\<exists>w'. ecdh_main L w = Some (0, w') \<and> w_heap w' = w_heap w \<and> w_err w' = w_err w \<and>
    w_out w' = w_out w @ entry_text (w_clock w) (w_reads w) [''p256'', ''p384'']"
  using entry_loop_ok [where run = "\<lambda>nid. ecdh_bench_run L nid 100000" and table = "ecdh_curves L",
      OF ecdh_bench_run_ok [OF assms(1)] assms(2)]
  by (auto simp: ecdh_main_def advanced_def ecdh_curves_def elim!: succeedsE)

text \<open>For the example: secrets of zeros, and a clock that ticks in seconds.\<close>

definition zero_ec :: "(unit, unit, unit) ec_lib" where
  "zero_ec =
     \<lparr>nid_prime256v1 = 415, nid_secp384r1 = 715, ec_key_new = (\<lambda>_ l. (Some (), l)),
      ec_generate_key = (\<lambda>x l. (1, x, l)), ec_public_key = (\<lambda>_. ()), ec_degree = (\<lambda>_. 256),
      ec_compute_key = (\<lambda>n _ x l. ((int n, replicate n 0), x, l)), ec_key_free = (\<lambda>_ l. l)\<rparr>"

definition ec_world :: "(unit, unit, unit) world" where
  "ec_world = start_world (\<lambda>_. False) (\<lambda>k. Some \<lparr>tv_sec = int k + 1, tv_nsec = 0\<rparr>) ()"

theorem ecdh_main_output_witness:
  "\<exists>w'. ecdh_main zero_ec ec_world = Some (0, w') \<and> w_heap w' = w_heap ec_world \<and>
    w_err w' = w_err ec_world \<and>
    w_out w' = w_out ec_world @ entry_text (w_clock ec_world) (w_reads ec_world) [''p256'', ''p384'']"
  by (rule ecdh_main_output)
    (simp_all add: ec_lib_ok_def zero_ec_def usable_def ec_world_def start_world_def fresh_def
      steady_def elapsed_us_def micros_def)

subsection \<open>The RSA programs read past their message\<close>

lemma rsa_sign_bound:
  assumes "rsa_sign L m (replicate 64 (Some x)) signature sk w = Some w'"
  shows "m \<le> 64"
  using assms by (auto simp: rsa_sign_def cells_read_def Let_def split: bind_splits if_splits)

lemma rsa_run_bound:
  assumes "rsa_bench_run L bits rounds w = Some res" and "rounds \<noteq> 0"
  shows "nat (rsa_bytes bits) \<le> 64"
proof -
  obtain k where k: "unat rounds = Suc k" using assms(2) by (metis not0_implies_Suc unat_eq_0)
  show ?thesis
    using assms(1) unfolding rsa_bench_run_def Let_def k rsa_rounds.simps
    by (auto split: bind_splits prod.splits dest: rsa_sign_bound)
qed

lemma rsa_verify_run_bound:
  assumes "rsa_verify_bench_run L bits rounds w = Some res"
  shows "nat (rsa_bytes bits) \<le> 64"
  using assms unfolding rsa_verify_bench_run_def Let_def
  by (auto split: bind_splits prod.splits dest: rsa_sign_bound)

lemma rsa_2048_bytes: "nat (rsa_bytes 2048) = 256"
  by (simp add: rsa_bytes_def)

lemma rsa_2048_undefined:
  "rsa_bench_run L 2048 10000 w = None" "rsa_verify_bench_run L 2048 10000 w = None"
  using rsa_run_bound [of L 2048 10000 w] rsa_verify_run_bound [of L 2048 10000 w] rsa_2048_bytes
  by (cases "rsa_bench_run L 2048 10000 w"; cases "rsa_verify_bench_run L 2048 10000 w"; auto)+

text \<open>C28: a run of the signature benchmark with at least one round, or of the verification
  benchmark, can only be defined for a modulus of at most 64 bytes, the size of the message
  array. Both programs measure 2048 bits first, so on every input each of them reads past the
  end of the array.\<close>

theorem rsa_programs_overread:
  "(rsa_bytes bits \<le> 64 \<or> rounds = 0 \<or> rsa_bench_run L bits rounds w = None) \<and>
   (rsa_bytes bits \<le> 64 \<or> rsa_verify_bench_run L bits rounds w = None) \<and>
   rsa_main L w = None \<and> rsa_verify_main L w = None"
proof (intro conjI)
  show "rsa_bytes bits \<le> 64 \<or> rounds = 0 \<or> rsa_bench_run L bits rounds w = None"
    using rsa_run_bound [of L bits rounds w] by (cases "rsa_bench_run L bits rounds w") auto
  show "rsa_bytes bits \<le> 64 \<or> rsa_verify_bench_run L bits rounds w = None"
    using rsa_verify_run_bound [of L bits rounds w]
    by (cases "rsa_verify_bench_run L bits rounds w") auto
qed (simp_all add: rsa_main_def rsa_verify_main_def rsa_sizes_def rsa_2048_undefined)

end
