(* ===== verification/Spec2Isabelle.thy ===== *)
theory Spec2Isabelle
  imports Aead_Program Tls_Program Legacy_Symmetric Legacy_Public
begin

text \<open>
  A verification of the OpenSSL family benchmark: the two benchmark programs under \<^verbatim>\<open>src/\<close>,
  \<^verbatim>\<open>backends/\<close> and \<^verbatim>\<open>include/ofb/\<close>, which measure authenticated encryption and TLS 1.3, and
  the five older one-file programs \<^verbatim>\<open>cryptobench*.c\<close>.

  \<^bold>\<open>The programs.\<close> \<^verbatim>\<open>src/main.c\<close> parses its options, asks the backend which algorithms it has,
  and for each selected algorithm, size and operation creates a backend, lets it verify itself,
  calibrates a batch that lasts long enough, measures samples of this batch, and prints one line
  for each. The backend is \<^verbatim>\<open>backends/openssl_aead.c\<close>, the calibration and the timing are
  \<^verbatim>\<open>src/runner.c\<close> on the clock of \<^verbatim>\<open>src/timer.c\<close>. \<^verbatim>\<open>src/tls_main.c\<close> does the same for cipher
  suites, handshakes and transfers over \<^verbatim>\<open>backends/openssl_tls.c\<close>, with a timing code of its own.
  The older programs measure fixed tables of ciphers, curves and RSA sizes.

  \<^bold>\<open>Conventions.\<close> A program runs in a \<open>world\<close>: heap, allocator, clock, both output streams and
  the private state of the crypto library. A heap block is the backend's structure, an array of
  bytes that know whether they were written, or an object of the library. A computation is an
  \<open>option\<close>: \<^theory_text>\<open>None\<close> is undefined behaviour (an access outside a block or to a freed or
  uninitialised one, a NULL dereference, a double free, a division by zero, a result
  of a call on the wrong kind of object) or a loop that does not end. The error codes of the C
  code are values. Machine integers are words of their width; \<^verbatim>\<open>long double\<close> is rounding to
  \<open>ldp\<close> bits of precision, for every \<open>ldp\<close>. The crypto library is not part of the repository: it
  is a record of functions, and what its documentation promises is a predicate (\<open>evp_ok\<close>,
  \<open>tls_ok\<close>, \<open>block_lib_ok\<close>, \<open>aegis_lib_ok\<close>, \<open>ec_lib_ok\<close>) that the theorems have as hypothesis.
  Allocations may fail wherever the allocator says so, and the clock may fail or go backwards,
  except where a theorem says otherwise. Paths and names that the build defines are arguments.

  \<^bold>\<open>The theories.\<close>

  \<^item> \<open>Ofb_Base\<close>, \<open>Ofb_Memory\<close>, \<open>Ofb_Frame\<close>: the prelude: words, the option monad with \<open>succeeds\<close>,
    the world and its heap, and the frame lemmas. \<open>touched S w w'\<close> says that only the blocks of
    \<open>S\<close> changed, \<open>owned w0 ps w\<close> that exactly the blocks \<open>ps\<close> were added to \<open>w0\<close>.
  \<^item> \<open>Long_Double\<close>, \<open>C_Text\<close>: rounding and its error; decimal numbers, padding and \<^verbatim>\<open>%.*Lf\<close>.
  \<^item> \<open>Timer\<close> (\<^verbatim>\<open>timer.c\<close>), \<open>Bench\<close> (\<^verbatim>\<open>bench.h\<close>, with the locale \<open>bench_backend\<close>: the contract of
    create, verify, run and destroy), \<open>Runner\<close> (\<^verbatim>\<open>runner.c\<close>).
  \<^item> \<open>Case_Plan\<close>: what both main functions share: a list of cases run in order up to the first
    failure, and the text that each case prints.
  \<^item> \<open>Aead_Backend\<close> (\<^verbatim>\<open>openssl_aead.c\<close>), \<open>Aead_Calls\<close>, \<open>Aead_Contract\<close>: the definitions, the
    lemmas of single calls and of \<^verbatim>\<open>encrypt_once\<close> and \<^verbatim>\<open>decrypt_once\<close>, and the contract: the
    interpretation of \<open>bench_backend\<close> on this backend.
  \<^item> \<open>Aead_Main\<close> (\<^verbatim>\<open>main.c\<close>), \<open>Aead_Options\<close>, \<open>Aead_Program\<close>: the definitions, the options, and
    the whole program, in the locale \<open>aead_client\<close>, which extends \<open>bench_backend\<close> and is
    interpreted on the backend.
  \<^item> \<open>Tls_Backend\<close> (\<^verbatim>\<open>tls_bench.h\<close>, \<^verbatim>\<open>openssl_tls.c\<close>), \<open>Tls_Frame\<close>, \<open>Tls_Handshake\<close>,
    \<open>Tls_Contract\<close>, \<open>Tls_Delivery\<close>: the definitions; connections, pairs and the handshake as a
    step relation; its refinement of a handshake of the two ends alone; the contract; and what
    arrives over a connection that delivers in order.
  \<^item> \<open>Tls_Main\<close> (\<^verbatim>\<open>tls_main.c\<close>), \<open>Tls_Timing\<close>, \<open>Tls_Options\<close>, \<open>Tls_Program\<close>: the definitions, the
    equivalence of its timing with the runner, the options, and the whole program.
  \<^item> \<open>Legacy_Bench\<close>, \<open>Legacy_Symmetric\<close> (\<^verbatim>\<open>cryptobench.c\<close>, \<^verbatim>\<open>cryptobench-aegis.c\<close>),
    \<open>Legacy_Public\<close> (\<^verbatim>\<open>cryptobench-ecdh.c\<close>, \<^verbatim>\<open>cryptobench-rsa.c\<close>,
    \<^verbatim>\<open>cryptobench-rsa-verification.c\<close>): the shared clock, rates and loops with the locale
    \<open>block_bench\<close>, and the programs.

  \<^bold>\<open>What is shown.\<close> For both benchmark programs: no undefined behaviour and no leak on any input,
  clock and allocator; the exact output for every plan of cases and every failure; that the loops
  run exactly this plan, in order; that the options are sane and can be printed and parsed back.
  For the backends: a failing create releases everything, a successful verify has compared what
  it claims to compare, a batch stays inside its buffers, a transfer delivers the message however
  the reads are split, and the handshake ends if both ends make progress. For the runner: no
  wrap-around in a sample, the bounds of the calibrated batch, and that the calibration ends. For
  the older programs: what they print, and where they leave their arrays.

  \<^bold>\<open>Bounds.\<close> No fuel is used. The calibration loops are \<^theory_text>\<open>partial_function\<close>s; the count doubles
  up to \<open>2 ^ 63\<close> and is then stopped by the overflow guard, so they end after at most 64 samples.
  The handshake loop has the 10000 attempts of the code. The sweep over the block sizes has 17
  steps. The read loop of a transfer ends because every read that counts shortens the rest.

  \<^bold>\<open>Not modelled.\<close> The scripts, build files, patches and certificates; the crypto libraries; the
  buffering of \<^verbatim>\<open>stdio\<close> and failing output; the binary rounding inside \<^verbatim>\<open>printf\<close> beyond the
  exact decimal expansion; threads and signals, which the programs do not use. The compiler
  barriers of the older programs have no effect on values and have no counterpart.
\<close>

end
